theory Spec2Isabelle
  imports Main "HOL-Library.Char_ord" "HOL-Library.List_Lexorder"
begin

section \<open>Go library string functions used by the synchronizer\<close>

text \<open>
  Go strings are byte sequences; a \<^typ>\<open>string\<close> is a list of bytes. The source only
  ever splits on the one-byte separators \<open>|\<close>, \<open>~\<close> and \<open>#\<close>, so the separator of
  \<open>strings.Split\<close>, \<open>strings.SplitN\<close> and \<open>strings.Contains\<close> is a \<^typ>\<open>char\<close> here.
\<close>

definition strings_Contains :: "string \<Rightarrow> char \<Rightarrow> bool" where
  "strings_Contains s sep = (sep \<in> set s)"

text \<open>The text before and after the first occurrence of the separator, if there is one.\<close>

fun strings_Cut :: "string \<Rightarrow> char \<Rightarrow> (string \<times> string) option" where
  "strings_Cut [] sep = None"
| "strings_Cut (c # cs) sep =
     (if c = sep then Some ([], cs)
      else (case strings_Cut cs sep of
              None \<Rightarrow> None
            | Some (before, after) \<Rightarrow> Some (c # before, after)))"

text \<open>
  \<open>strings.SplitN(s, sep, n)\<close> for \<open>n \<ge> 0\<close>: no piece for \<open>n = 0\<close>, otherwise at most
  \<open>n\<close> pieces, the last one being the unsplit remainder.
\<close>

fun strings_SplitN :: "string \<Rightarrow> char \<Rightarrow> nat \<Rightarrow> string list" where
  "strings_SplitN s sep 0 = []"
| "strings_SplitN s sep (Suc 0) = [s]"
| "strings_SplitN s sep (Suc (Suc n)) =
     (case strings_Cut s sep of
        None \<Rightarrow> [s]
      | Some (before, after) \<Rightarrow> before # strings_SplitN after sep (Suc n))"

text \<open>\<open>strings.Split(s, sep)\<close>: every piece; the empty string gives one empty piece.\<close>

fun strings_Split :: "string \<Rightarrow> char \<Rightarrow> string list" where
  "strings_Split [] sep = [[]]"
| "strings_Split (c # cs) sep =
     (if c = sep then [] # strings_Split cs sep
      else (case strings_Split cs sep of
              [] \<Rightarrow> [[c]]
            | p # ps \<Rightarrow> (c # p) # ps))"

text \<open>\<open>strings.Join(elems, sep)\<close>.\<close>

fun strings_Join :: "string list \<Rightarrow> string \<Rightarrow> string" where
  "strings_Join [] sep = []"
| "strings_Join [e] sep = e"
| "strings_Join (e # es) sep = e @ sep @ strings_Join es sep"

section \<open>The localized-text decoder\<close>

text \<open>
  \<open>parseLocalizedAttributes\<close> builds a Go map by assignment in a loop over the pieces.
  The two index expressions \<open>split[0]\<close> and \<open>split[1]\<close> would panic on a slice that is
  too short, so the model has that branch.
\<close>

datatype panic = IndexOutOfRange

fun parseLocalizedAttributes_loop ::
  "string list \<Rightarrow> (string \<rightharpoonup> string) \<Rightarrow> panic + (string \<rightharpoonup> string)" where
  "parseLocalizedAttributes_loop [] result = Inr result"
| "parseLocalizedAttributes_loop (part # parts) result =
     (if strings_Contains part CHR ''~'' then
        (let split = strings_SplitN part CHR ''~'' 2 in
         if length split < 2 then Inl IndexOutOfRange
         else parseLocalizedAttributes_loop parts (result(split ! 0 \<mapsto> split ! 1)))
      else parseLocalizedAttributes_loop parts result)"

definition parseLocalizedAttributes :: "string \<Rightarrow> panic + (string \<rightharpoonup> string)" where
  "parseLocalizedAttributes localizedString =
     (if localizedString = [] then Inr Map.empty
      else parseLocalizedAttributes_loop (strings_Split localizedString CHR ''|'') Map.empty)"

text \<open>
  The decoder as the specification words it: the segments between \<open>|\<close>, each cut at its
  first \<open>~\<close>, segments without one dropped, and for a language code that occurs more than
  once the value of its last occurrence.
\<close>

definition localized_pairs :: "string \<Rightarrow> (string \<times> string) list" where
  "localized_pairs s =
     List.map_filter (\<lambda>segment. strings_Cut segment CHR ''~'') (strings_Split s CHR ''|'')"

definition localized_spec :: "string \<Rightarrow> (string \<rightharpoonup> string)" where
  "localized_spec s = map_of (rev (localized_pairs s))"

section \<open>Directory entries\<close>

text \<open>
  An entry of the directory's search result: its distinguished name and its attributes,
  each a name with its values, in the order received. The two accessors are those of
  the LDAP library: \<open>GetAttributeValues\<close> returns the values of the first attribute
  of that name (none when there is no such attribute) and \<open>GetAttributeValue\<close> the
  first of them (the empty string when there is none).
\<close>

record Entry =
  DN :: string
  Attributes :: "(string \<times> string list) list"

fun attribute_values :: "(string \<times> string list) list \<Rightarrow> string \<Rightarrow> string list" where
  "attribute_values [] attribute = []"
| "attribute_values ((name, vals) # attrs) attribute =
     (if name = attribute then vals else attribute_values attrs attribute)"

definition GetAttributeValues :: "Entry \<Rightarrow> string \<Rightarrow> string list" where
  "GetAttributeValues entry attribute = attribute_values (Attributes entry) attribute"

definition GetAttributeValue :: "Entry \<Rightarrow> string \<Rightarrow> string" where
  "GetAttributeValue entry attribute =
     (case GetAttributeValues entry attribute of [] \<Rightarrow> [] | v # _ \<Rightarrow> v)"

section \<open>The XML and JSON codecs\<close>

text \<open>
  \<open>encoding/xml\<close> and \<open>encoding/json\<close> are Go's standard library, not code of this
  program: the synchronizer is modelled over any codec, given as a record of the six
  calls the source makes. A decoding that returns an error is \<open>None\<close>. The type \<open>'j\<close>
  is the decoded JSON value (\<open>interface{}\<close> in the source).
\<close>

record EntitlementRefXML =
  Src :: string
  ID :: string
  Param :: string

record EntitlementParamJSON =
  ParamID :: string
  ParamID2 :: string
  ParamID3 :: string

record DynamicParmValsXML =
  Value :: string

record 'j codec =
  json_Marshal_map :: "(string \<rightharpoonup> string) \<Rightarrow> string"
  xml_Unmarshal_ref :: "string \<Rightarrow> EntitlementRefXML option"
  json_Unmarshal_param :: "string \<Rightarrow> EntitlementParamJSON option"
  xml_Unmarshal_parameter :: "string \<Rightarrow> DynamicParmValsXML option"
  json_Unmarshal :: "string \<Rightarrow> 'j option"
  json_Marshal :: "'j \<Rightarrow> string option"

text \<open>\<open>string(json.Marshal(parseLocalizedAttributes(s)))\<close>, as both synchronizers call it.\<close>

definition localizedJSON :: "'j codec \<Rightarrow> string \<Rightarrow> panic + string" where
  "localizedJSON lib s =
     (case parseLocalizedAttributes s of
        Inl p \<Rightarrow> Inl p
      | Inr m \<Rightarrow> Inr (json_Marshal_map lib m))"

section \<open>The entitlement-reference decoder\<close>

text \<open>
  The eight variables that \<open>syncResources\<close> declares for each entry (all empty at first)
  and fills in three steps: the split on \<open>#\<close>, the XML block, the JSON parameter.
\<close>

record entitlement =
  entitlementDriver :: string
  entitlementStatus :: string
  entitlementXML :: string
  entitlementXMLSrc :: string
  entitlementXMLID :: string
  entitlementXMLParamID :: string
  entitlementXMLParamID2 :: string
  entitlementXMLParamID3 :: string

definition entitlement_parts :: "string \<Rightarrow> entitlement" where
  "entitlement_parts nrfEntitlementRef =
     (let refParts = strings_SplitN nrfEntitlementRef CHR ''#'' 3 in
      \<lparr>entitlementDriver = (if length refParts > 0 then refParts ! 0 else []),
       entitlementStatus = (if length refParts > 1 then refParts ! 1 else []),
       entitlementXML = (if length refParts > 2 then refParts ! 2 else []),
       entitlementXMLSrc = [],
       entitlementXMLID = [],
       entitlementXMLParamID = [],
       entitlementXMLParamID2 = [],
       entitlementXMLParamID3 = []\<rparr>)"

definition entitlement_block :: "'j codec \<Rightarrow> entitlement \<Rightarrow> entitlement" where
  "entitlement_block lib e =
     (if entitlementXML e \<noteq> [] then
        (case xml_Unmarshal_ref lib (entitlementXML e) of
           None \<Rightarrow> e
         | Some ref \<Rightarrow>
             (let e1 = e\<lparr>entitlementXMLSrc := Src ref, entitlementXMLID := ID ref\<rparr> in
              if Param ref \<noteq> [] then
                (case json_Unmarshal_param lib (Param ref) of
                   Some param \<Rightarrow>
                     e1\<lparr>entitlementXMLParamID := ParamID param,
                        entitlementXMLParamID2 := ParamID2 param,
                        entitlementXMLParamID3 := ParamID3 param\<rparr>
                 | None \<Rightarrow> e1\<lparr>entitlementXMLParamID := Param ref\<rparr>)
              else e1))
      else e)"

definition decodeEntitlementRef :: "'j codec \<Rightarrow> string \<Rightarrow> entitlement" where
  "decodeEntitlementRef lib nrfEntitlementRef =
     entitlement_block lib (entitlement_parts nrfEntitlementRef)"

section \<open>The dynamic-parameter decoder\<close>

text \<open>
  \<open>strings.ReplaceAll(s, old, new)\<close>: the non-overlapping occurrences of \<open>old\<close>, found
  from the left, each replaced by \<open>new\<close>. For an empty \<open>old\<close> Go puts \<open>new\<close> before every
  character and at the end; the three calls of the source have constant, non-empty
  patterns.
\<close>

function strings_ReplaceAll :: "string \<Rightarrow> string \<Rightarrow> string \<Rightarrow> string" where
  "strings_ReplaceAll [] old new = (if old = [] then new else [])"
| "strings_ReplaceAll (c # cs) old new =
     (if old = [] then new @ c # strings_ReplaceAll cs old new
      else if take (length old) (c # cs) = old
        then new @ strings_ReplaceAll (drop (length old) (c # cs)) old new
      else c # strings_ReplaceAll cs old new)"
  by pat_completeness auto
termination
  by (relation "measure (\<lambda>(s, old, new). length s)") auto

definition decodeDynamicParmVals :: "'j codec \<Rightarrow> string \<Rightarrow> string" where
  "decodeDynamicParmVals lib nrfDynamicParmVals =
     (if nrfDynamicParmVals \<noteq> [] then
        (case xml_Unmarshal_parameter lib nrfDynamicParmVals of
           None \<Rightarrow> []
         | Some dynamicParmValsXML \<Rightarrow>
             (let value1 = strings_ReplaceAll (Value dynamicParmValsXML) ''&quot;'' [CHR 0x22];
                  value2 = strings_ReplaceAll value1 ''&lt;'' ''<'';
                  value3 = strings_ReplaceAll value2 ''&gt;'' ''>''
              in case json_Unmarshal lib value3 of
                   None \<Rightarrow> []
                 | Some jsonValue \<Rightarrow>
                     (case json_Marshal lib jsonValue of
                        None \<Rightarrow> []
                      | Some jsonBytes \<Rightarrow> jsonBytes)))
      else [])"


section \<open>The codecs of Go's library, on plain documents\<close>

text \<open>
  For evaluating the decoders on concrete attribute values there is one codec that
  follows \<open>encoding/xml\<close> and \<open>encoding/json\<close> on a class of plain documents. Bytes
  are ASCII. An XML document has elements without attributes and without namespace
  prefixes, and character data; it has no comment, processing instruction, directive
  or \<open>CDATA\<close> section, and a character reference in it names an ASCII character. A
  JSON text has numbers that are integers below 9007199254740992 in magnitude and
  strings whose escapes are those of the quote, the backslash, the slash, newline,
  return and tab. On such documents the functions below decide as the library does,
  whether it accepts and what it returns; a document outside the class is refused
  here, which says nothing about the library. The theorems about the synchronizers
  hold for every codec; this one is used on documents of the class only.
\<close>

subsection \<open>\<open>xml.Unmarshal\<close> into a struct of string fields\<close>

text \<open>
  The decoder reads tokens on demand: a start tag, an end tag, or the character data up
  to the next \<open><\<close>. A token that cannot be read is a syntax error, and what follows
  it is never looked at; \<open>SyntaxError\<close> ends the list of tokens.
\<close>

datatype xml_token = StartElement string | EndElement string | CharData string | SyntaxError

definition xml_space :: "char \<Rightarrow> bool" where
  "xml_space c \<longleftrightarrow> c = CHR '' '' \<or> c = CHR 0x0D \<or> c = CHR 0x0A \<or> c = CHR 0x09"

definition xml_name_start :: "char \<Rightarrow> bool" where
  "xml_name_start c \<longleftrightarrow> c \<in> set ''ABCDEFGHIJKLMNOPQRSTUVWXYZabcdefghijklmnopqrstuvwxyz_''"

definition xml_name_byte :: "char \<Rightarrow> bool" where
  "xml_name_byte c \<longleftrightarrow> xml_name_start c \<or> c \<in> set ''0123456789.-''"

text \<open>
  \<open>Decoder.text\<close>, the character data between two tags. A reference \<open>&name;\<close> is
  resolved when the name is one of the five that every XML parser knows, and
  \<open>&#n;\<close> or \<open>&#xh;\<close> when the number is that of a character; in the strict mode
  of \<open>xml.Unmarshal\<close> any other \<open>&\<close> is a syntax error. A carriage return, with the
  line feed that follows it, becomes a line feed; \<open>]]>\<close> and a control character
  other than tab, line feed and carriage return are errors.
\<close>

definition xml_char :: "int \<Rightarrow> bool" where
  "xml_char n \<longleftrightarrow> n = 9 \<or> n = 10 \<or> n = 13 \<or> (32 \<le> n \<and> n < 128)"

fun digit_value :: "int \<Rightarrow> char \<Rightarrow> int option" where
  "digit_value base c =
     (let n = of_char c in
      if 48 \<le> n \<and> n \<le> 57 then Some (n - 48)
      else if base = 16 \<and> 97 \<le> n \<and> n \<le> 102 then Some (n - 87)
      else if base = 16 \<and> 65 \<le> n \<and> n \<le> 70 then Some (n - 55)
      else None)"

fun ParseUint :: "int \<Rightarrow> int \<Rightarrow> string \<Rightarrow> int option" where
  "ParseUint base acc [] = Some acc"
| "ParseUint base acc (c # cs) =
     (case digit_value base c of
        None \<Rightarrow> None
      | Some d \<Rightarrow> ParseUint base (acc * base + d) cs)"

definition xml_reference :: "string \<Rightarrow> string option" where
  "xml_reference name =
     (if name = ''lt'' then Some ''<''
      else if name = ''gt'' then Some ''>''
      else if name = ''amp'' then Some ''&''
      else if name = ''apos'' then Some [CHR 0x27]
      else if name = ''quot'' then Some [CHR 0x22]
      else if take 2 name = ''#x'' \<and> drop 2 name \<noteq> [] then
        (case ParseUint 16 0 (drop 2 name) of
           None \<Rightarrow> None
         | Some n \<Rightarrow> if xml_char n then Some [char_of n] else None)
      else if take 1 name = ''#'' \<and> drop 1 name \<noteq> [] then
        (case ParseUint 10 0 (drop 1 name) of
           None \<Rightarrow> None
         | Some n \<Rightarrow> if xml_char n then Some [char_of n] else None)
      else None)"

function xml_text :: "string \<Rightarrow> string option" where
  "xml_text [] = Some []"
| "xml_text (c # cs) =
     (if take 3 (c # cs) = '']]>'' then None
      else if c = CHR ''&'' then
        (if CHR '';'' \<in> set cs then
           (case xml_reference (takeWhile (\<lambda>x. x \<noteq> CHR '';'') cs) of
              None \<Rightarrow> None
            | Some t \<Rightarrow>
                map_option ((@) t) (xml_text (tl (dropWhile (\<lambda>x. x \<noteq> CHR '';'') cs))))
         else None)
      else if c = CHR 0x0D then
        map_option ((#) (CHR 0x0A)) (xml_text (if take 1 cs = [CHR 0x0A] then tl cs else cs))
      else if xml_char (of_char c) then map_option ((#) c) (xml_text cs)
      else None)"
  by pat_completeness auto
termination
proof (relation "measure length")
  show "wf (measure length)" by simp
next
  fix c :: char and cs :: string
  have "length (dropWhile (\<lambda>x. x \<noteq> CHR '';'') cs) \<le> length cs"
    by (rule length_dropWhile_le)
  then show "(tl (dropWhile (\<lambda>x. x \<noteq> CHR '';'') cs), c # cs) \<in> measure length"
    by simp
next
  fix c :: char and cs :: string
  show "(if take 1 cs = [CHR 0x0A] then tl cs else cs, c # cs) \<in> measure length"
    by (cases cs) simp_all
next
  fix c :: char and cs :: string
  show "(cs, c # cs) \<in> measure length" by simp
qed

text \<open>
  A tag, the text between \<open><\<close> and \<open>>\<close>: an end tag \<open></name>\<close>, a start tag
  \<open><name>\<close>, or \<open><name/>\<close>, which the decoder returns as a start tag followed by
  an end tag. White space may follow the name.
\<close>

definition xml_tag :: "string \<Rightarrow> xml_token list" where
  "xml_tag s =
     (if take 1 s = ''/'' then
        (let name = takeWhile xml_name_byte (tl s) in
         if name \<noteq> [] \<and> xml_name_start (hd name)
            \<and> dropWhile xml_space (dropWhile xml_name_byte (tl s)) = []
         then [EndElement name] else [SyntaxError])
      else
        (let name = takeWhile xml_name_byte s;
             r = dropWhile xml_space (dropWhile xml_name_byte s) in
         if name = [] \<or> \<not> xml_name_start (hd name) then [SyntaxError]
         else if r = [] then [StartElement name]
         else if r = ''/'' then [StartElement name, EndElement name]
         else [SyntaxError]))"

function xml_rawTokens :: "string \<Rightarrow> xml_token list" where
  "xml_rawTokens [] = []"
| "xml_rawTokens (c # cs) =
     (if c = CHR ''<'' then
        (if CHR ''>'' \<in> set cs then
           (let ts = xml_tag (takeWhile (\<lambda>x. x \<noteq> CHR ''>'') cs) in
            if last ts = SyntaxError then ts
            else ts @ xml_rawTokens (tl (dropWhile (\<lambda>x. x \<noteq> CHR ''>'') cs)))
         else [SyntaxError])
      else
        (case xml_text (takeWhile (\<lambda>x. x \<noteq> CHR ''<'') (c # cs)) of
           None \<Rightarrow> [SyntaxError]
         | Some d \<Rightarrow> CharData d # xml_rawTokens (dropWhile (\<lambda>x. x \<noteq> CHR ''<'') cs)))"
  by pat_completeness auto
termination
proof (relation "measure length")
  show "wf (measure length)" by simp
next
  fix c :: char and cs :: string
  have "length (dropWhile (\<lambda>x. x \<noteq> CHR ''>'') cs) \<le> length cs"
    by (rule length_dropWhile_le)
  then show "(tl (dropWhile (\<lambda>x. x \<noteq> CHR ''>'') cs), c # cs) \<in> measure length"
    by simp
next
  fix c :: char and cs :: string
  have "length (dropWhile (\<lambda>x. x \<noteq> CHR ''<'') cs) \<le> length cs"
    by (rule length_dropWhile_le)
  then show "(dropWhile (\<lambda>x. x \<noteq> CHR ''<'') cs, c # cs) \<in> measure length"
    by simp
qed

text \<open>
  \<open>Decoder.Token\<close> keeps the stack of open elements: an end tag has to close the
  innermost open element, and the input may not end inside an element.
\<close>

fun xml_Token :: "string list \<Rightarrow> xml_token list \<Rightarrow> xml_token list" where
  "xml_Token stk [] = (if stk = [] then [] else [SyntaxError])"
| "xml_Token stk (StartElement n # ts) = StartElement n # xml_Token (n # stk) ts"
| "xml_Token stk (EndElement n # ts) =
     (case stk of
        [] \<Rightarrow> [SyntaxError]
      | m # stk' \<Rightarrow> if m = n then EndElement n # xml_Token stk' ts else [SyntaxError])"
| "xml_Token stk (CharData d # ts) = CharData d # xml_Token stk ts"
| "xml_Token stk (SyntaxError # ts) = [SyntaxError]"

text \<open>
  \<open>Unmarshal\<close> skips to the first start tag, which has to carry the name that the
  struct declares in its \<open>XMLName\<close> field, and then reads the children of that element
  until its end tag, which is where it returns: what follows the root element is not
  read. A child named as one of the string fields sets that field to the character data
  directly inside the child, the elements nested in it being skipped; any other child
  is skipped with all it contains. Fields for which there is no child stay empty.
\<close>

datatype xml_place = InStruct | InField string string | SkipInStruct nat | SkipInField string string nat

fun xml_unmarshal_struct ::
  "string list \<Rightarrow> xml_place \<Rightarrow> (string \<Rightarrow> string) \<Rightarrow> xml_token list \<Rightarrow> (string \<Rightarrow> string) option" where
  "xml_unmarshal_struct fs p v [] = None"
| "xml_unmarshal_struct fs p v (SyntaxError # ts) = None"
| "xml_unmarshal_struct fs InStruct v (StartElement n # ts) =
     (if n \<in> set fs then xml_unmarshal_struct fs (InField n []) v ts
      else xml_unmarshal_struct fs (SkipInStruct 0) v ts)"
| "xml_unmarshal_struct fs InStruct v (EndElement n # ts) = Some v"
| "xml_unmarshal_struct fs InStruct v (CharData d # ts) = xml_unmarshal_struct fs InStruct v ts"
| "xml_unmarshal_struct fs (InField f data) v (StartElement n # ts) =
     xml_unmarshal_struct fs (SkipInField f data 0) v ts"
| "xml_unmarshal_struct fs (InField f data) v (EndElement n # ts) =
     xml_unmarshal_struct fs InStruct (v(f := data)) ts"
| "xml_unmarshal_struct fs (InField f data) v (CharData d # ts) =
     xml_unmarshal_struct fs (InField f (data @ d)) v ts"
| "xml_unmarshal_struct fs (SkipInStruct depth) v (StartElement n # ts) =
     xml_unmarshal_struct fs (SkipInStruct (Suc depth)) v ts"
| "xml_unmarshal_struct fs (SkipInStruct depth) v (EndElement n # ts) =
     (case depth of
        0 \<Rightarrow> xml_unmarshal_struct fs InStruct v ts
      | Suc k \<Rightarrow> xml_unmarshal_struct fs (SkipInStruct k) v ts)"
| "xml_unmarshal_struct fs (SkipInStruct depth) v (CharData d # ts) =
     xml_unmarshal_struct fs (SkipInStruct depth) v ts"
| "xml_unmarshal_struct fs (SkipInField f data depth) v (StartElement n # ts) =
     xml_unmarshal_struct fs (SkipInField f data (Suc depth)) v ts"
| "xml_unmarshal_struct fs (SkipInField f data depth) v (EndElement n # ts) =
     (case depth of
        0 \<Rightarrow> xml_unmarshal_struct fs (InField f data) v ts
      | Suc k \<Rightarrow> xml_unmarshal_struct fs (SkipInField f data k) v ts)"
| "xml_unmarshal_struct fs (SkipInField f data depth) v (CharData d # ts) =
     xml_unmarshal_struct fs (SkipInField f data depth) v ts"

fun xml_unmarshal_start ::
  "string \<Rightarrow> string list \<Rightarrow> xml_token list \<Rightarrow> (string \<Rightarrow> string) option" where
  "xml_unmarshal_start root fs [] = None"
| "xml_unmarshal_start root fs (CharData d # ts) = xml_unmarshal_start root fs ts"
| "xml_unmarshal_start root fs (StartElement n # ts) =
     (if n = root then xml_unmarshal_struct fs InStruct (\<lambda>f. []) ts else None)"
| "xml_unmarshal_start root fs (EndElement n # ts) = None"
| "xml_unmarshal_start root fs (SyntaxError # ts) = None"

definition xml_Unmarshal :: "string \<Rightarrow> string list \<Rightarrow> string \<Rightarrow> (string \<Rightarrow> string) option" where
  "xml_Unmarshal root fs s = xml_unmarshal_start root fs (xml_Token [] (xml_rawTokens s))"

subsection \<open>\<open>json.Unmarshal\<close> and \<open>json.Marshal\<close>\<close>

text \<open>
  A decoded value, as \<open>json.Unmarshal\<close> stores it in an \<open>interface{}\<close>: a number is a
  \<open>float64\<close>, which holds an integer of this size exactly and keeps the sign of zero;
  the members of an object are kept here in the order of the text, the map that Go
  builds from them being the last value for each key.
\<close>

datatype json =
  JNull | JBool bool | JNumber bool int | JString string
| JArray "json list" | JObject "(string \<times> json) list"

datatype json_token =
  LBrace | RBrace | LBracket | RBracket | Colon | Comma
| TString string | TNumber bool int | TTrue | TFalse | TNull

datatype json_scan =
  Between | InString string | InEscape string | InLiteral string json_token
| NumSign | NumZero bool | NumDigits bool int

text \<open>
  The scanner goes through the text byte by byte; a text that it does not accept to
  the end is not decoded at all.
\<close>

definition json_space :: "char \<Rightarrow> bool" where
  "json_space c \<longleftrightarrow> c = CHR '' '' \<or> c = CHR 0x09 \<or> c = CHR 0x0D \<or> c = CHR 0x0A"

definition json_digit :: "char \<Rightarrow> bool" where
  "json_digit c \<longleftrightarrow> c \<in> set ''0123456789''"

definition json_begin :: "char \<Rightarrow> (json_token list \<times> json_scan) option" where
  "json_begin c =
     (if json_space c then Some ([], Between)
      else if c = CHR ''{'' then Some ([LBrace], Between)
      else if c = CHR ''}'' then Some ([RBrace], Between)
      else if c = CHR ''['' then Some ([LBracket], Between)
      else if c = CHR '']'' then Some ([RBracket], Between)
      else if c = CHR '':'' then Some ([Colon], Between)
      else if c = CHR '','' then Some ([Comma], Between)
      else if c = CHR 0x22 then Some ([], InString [])
      else if c = CHR ''t'' then Some ([], InLiteral ''rue'' TTrue)
      else if c = CHR ''f'' then Some ([], InLiteral ''alse'' TFalse)
      else if c = CHR ''n'' then Some ([], InLiteral ''ull'' TNull)
      else if c = CHR ''-'' then Some ([], NumSign)
      else if c = CHR ''0'' then Some ([], NumZero False)
      else if json_digit c then Some ([], NumDigits False (of_char c - 48))
      else None)"

definition json_after_number ::
  "bool \<Rightarrow> int \<Rightarrow> char \<Rightarrow> (json_token list \<times> json_scan) option" where
  "json_after_number neg n c =
     (if c \<in> set ''.eE'' \<or> 9007199254740992 \<le> n then None
      else map_option (\<lambda>(ts, st). (TNumber neg n # ts, st)) (json_begin c))"

fun json_step :: "json_scan \<Rightarrow> char \<Rightarrow> (json_token list \<times> json_scan) option" where
  "json_step Between c = json_begin c"
| "json_step (InString s) c =
     (if c = CHR 0x22 then Some ([TString s], Between)
      else if c = CHR 0x5C then Some ([], InEscape s)
      else if 32 \<le> (of_char c :: int) \<and> (of_char c :: int) < 128 then Some ([], InString (s @ [c]))
      else None)"
| "json_step (InEscape s) c =
     (if c = CHR 0x22 \<or> c = CHR 0x5C \<or> c = CHR ''/'' then Some ([], InString (s @ [c]))
      else if c = CHR ''n'' then Some ([], InString (s @ [CHR 0x0A]))
      else if c = CHR ''r'' then Some ([], InString (s @ [CHR 0x0D]))
      else if c = CHR ''t'' then Some ([], InString (s @ [CHR 0x09]))
      else None)"
| "json_step (InLiteral rest tok) c =
     (case rest of
        [] \<Rightarrow> None
      | r # rs \<Rightarrow>
          if c \<noteq> r then None
          else if rs = [] then Some ([tok], Between)
          else Some ([], InLiteral rs tok))"
| "json_step NumSign c =
     (if c = CHR ''0'' then Some ([], NumZero True)
      else if json_digit c then Some ([], NumDigits True (of_char c - 48))
      else None)"
| "json_step (NumZero neg) c =
     (if json_digit c then None else json_after_number neg 0 c)"
| "json_step (NumDigits neg n) c =
     (if json_digit c then Some ([], NumDigits neg (n * 10 + (of_char c - 48)))
      else json_after_number neg n c)"

fun json_tokens :: "json_scan \<Rightarrow> string \<Rightarrow> json_token list option" where
  "json_tokens st [] =
     (case st of
        Between \<Rightarrow> Some []
      | NumZero neg \<Rightarrow> Some [TNumber neg 0]
      | NumDigits neg n \<Rightarrow> if 9007199254740992 \<le> n then None else Some [TNumber neg n]
      | _ \<Rightarrow> None)"
| "json_tokens st (c # cs) =
     (case json_step st c of
        None \<Rightarrow> None
      | Some (ts, st') \<Rightarrow> map_option ((@) ts) (json_tokens st' cs))"

text \<open>
  One value, arrays and objects nested at most 10000 deep, and nothing after it. The
  first argument of the three functions bounds the number of calls; the number of
  tokens is enough.
\<close>

fun json_value :: "nat \<Rightarrow> json_token list \<Rightarrow> (json \<times> json_token list) option"
  and json_elements ::
    "nat \<Rightarrow> json list \<Rightarrow> json_token list \<Rightarrow> (json \<times> json_token list) option"
  and json_members ::
    "nat \<Rightarrow> (string \<times> json) list \<Rightarrow> json_token list \<Rightarrow> (json \<times> json_token list) option"
where
  "json_value 0 ts = None"
| "json_value (Suc fuel) [] = None"
| "json_value (Suc fuel) (t # ts) =
     (case t of
        TNull \<Rightarrow> Some (JNull, ts)
      | TTrue \<Rightarrow> Some (JBool True, ts)
      | TFalse \<Rightarrow> Some (JBool False, ts)
      | TNumber neg n \<Rightarrow> Some (JNumber neg n, ts)
      | TString s \<Rightarrow> Some (JString s, ts)
      | LBracket \<Rightarrow>
          (case ts of
             RBracket # ts' \<Rightarrow> Some (JArray [], ts')
           | _ \<Rightarrow>
               (case json_value fuel ts of
                  None \<Rightarrow> None
                | Some (v, ts') \<Rightarrow> json_elements fuel [v] ts'))
      | LBrace \<Rightarrow>
          (case ts of
             RBrace # ts' \<Rightarrow> Some (JObject [], ts')
           | TString k # Colon # ts' \<Rightarrow>
               (case json_value fuel ts' of
                  None \<Rightarrow> None
                | Some (v, ts'') \<Rightarrow> json_members fuel [(k, v)] ts'')
           | _ \<Rightarrow> None)
      | _ \<Rightarrow> None)"
| "json_elements 0 vs ts = None"
| "json_elements (Suc fuel) vs ts =
     (case ts of
        RBracket # ts' \<Rightarrow> Some (JArray vs, ts')
      | Comma # ts' \<Rightarrow>
          (case json_value fuel ts' of
             None \<Rightarrow> None
           | Some (v, ts'') \<Rightarrow> json_elements fuel (vs @ [v]) ts'')
      | _ \<Rightarrow> None)"
| "json_members 0 ms ts = None"
| "json_members (Suc fuel) ms ts =
     (case ts of
        RBrace # ts' \<Rightarrow> Some (JObject ms, ts')
      | Comma # TString k # Colon # ts' \<Rightarrow>
          (case json_value fuel ts' of
             None \<Rightarrow> None
           | Some (v, ts'') \<Rightarrow> json_members fuel (ms @ [(k, v)]) ts'')
      | _ \<Rightarrow> None)"

fun json_nesting :: "int \<Rightarrow> json_token list \<Rightarrow> bool" where
  "json_nesting depth [] = True"
| "json_nesting depth (t # ts) =
     (if t = LBrace \<or> t = LBracket then depth < 10000 \<and> json_nesting (depth + 1) ts
      else if t = RBrace \<or> t = RBracket then json_nesting (depth - 1) ts
      else json_nesting depth ts)"

definition json_parse :: "string \<Rightarrow> json option" where
  "json_parse s =
     (case json_tokens Between s of
        None \<Rightarrow> None
      | Some ts \<Rightarrow>
          if json_nesting 0 ts then
            (case json_value (Suc (length ts)) ts of
               Some (v, []) \<Rightarrow> Some v
             | _ \<Rightarrow> None)
          else None)"

text \<open>
  \<open>json.Marshal\<close> writes a string in quotes, with a backslash before the quote and the
  backslash, a backslash and a letter for backspace, form feed, newline, return and
  tab, and \<open>u00\<close> with two hexadecimal digits after a backslash for the other control
  characters and for \<open><\<close>, \<open>>\<close> and \<open>&\<close>. It writes a map with its keys sorted as
  byte strings.
\<close>

definition json_hex :: "int \<Rightarrow> char" where
  "json_hex n = ''0123456789abcdef'' ! nat n"

definition json_escape :: "char \<Rightarrow> string" where
  "json_escape c =
     (if c = CHR 0x22 \<or> c = CHR 0x5C then [CHR 0x5C, c]
      else if c = CHR 0x08 then [CHR 0x5C, CHR ''b'']
      else if c = CHR 0x0C then [CHR 0x5C, CHR ''f'']
      else if c = CHR 0x0A then [CHR 0x5C, CHR ''n'']
      else if c = CHR 0x0D then [CHR 0x5C, CHR ''r'']
      else if c = CHR 0x09 then [CHR 0x5C, CHR ''t'']
      else if (of_char c :: int) < 32 \<or> c \<in> set ''<>&''
        then [CHR 0x5C, CHR ''u'', CHR ''0'', CHR ''0'',
              json_hex (of_char c div 16), json_hex (of_char c mod 16)]
      else [c])"

definition json_quote :: "string \<Rightarrow> string" where
  "json_quote s = CHR 0x22 # concat (map json_escape s) @ [CHR 0x22]"

fun json_join :: "string list \<Rightarrow> string" where
  "json_join [] = []"
| "json_join [x] = x"
| "json_join (x # y # xs) = x @ CHR '','' # json_join (y # xs)"

function json_decimal :: "int \<Rightarrow> string" where
  "json_decimal n =
     (if n < 10 then [char_of (48 + n)] else json_decimal (n div 10) @ [char_of (48 + n mod 10)])"
  by pat_completeness auto
termination
  by (relation "measure nat") auto

fun map_insert :: "string \<Rightarrow> 'a \<Rightarrow> (string \<times> 'a) list \<Rightarrow> (string \<times> 'a) list" where
  "map_insert k v [] = [(k, v)]"
| "map_insert k v ((k', v') # ms) =
     (if k = k' then (k, v) # ms
      else if k < k' then (k, v) # (k', v') # ms
      else (k', v') # map_insert k v ms)"

fun json_encode :: "json \<Rightarrow> string" where
  "json_encode JNull = ''null''"
| "json_encode (JBool b) = (if b then ''true'' else ''false'')"
| "json_encode (JNumber neg n) = (if neg then ''-'' else []) @ json_decimal n"
| "json_encode (JString s) = json_quote s"
| "json_encode (JArray vs) = ''['' @ json_join (map json_encode vs) @ '']''"
| "json_encode (JObject ms) =
     ''{'' @ json_join (map (\<lambda>(k, e). json_quote k @ '':'' @ e)
                (foldl (\<lambda>acc (k, e). map_insert k e acc) []
                   (map (\<lambda>(k, v). (k, json_encode v)) ms))) @ ''}''"

definition json_Marshal_string_map :: "(string \<rightharpoonup> string) \<Rightarrow> string" where
  "json_Marshal_string_map m =
     ''{'' @ json_join (map (\<lambda>k. json_quote k @ '':'' @ json_quote (the (m k)))
                (sorted_list_of_set (dom m))) @ ''}''"

text \<open>
  \<open>json.Unmarshal\<close> into a struct of string fields. The text has to be an object or
  \<open>null\<close>. A key sets the field of that name, or else the field whose name differs
  from it only in the case of its letters; the value has to be a string, or \<open>null\<close>,
  which leaves the field as it is. Other keys are ignored.
\<close>

definition json_foldName :: "string \<Rightarrow> string" where
  "json_foldName k =
     map (\<lambda>c. if 97 \<le> (of_char c :: int) \<and> (of_char c :: int) \<le> 122
              then char_of (of_char c - 32 :: int) else c) k"

definition json_field :: "string list \<Rightarrow> string \<Rightarrow> string option" where
  "json_field fs k =
     (if k \<in> set fs then Some k else find (\<lambda>f. json_foldName f = json_foldName k) fs)"

fun json_struct ::
  "string list \<Rightarrow> (string \<times> json) list \<Rightarrow> (string \<Rightarrow> string) \<Rightarrow> (string \<Rightarrow> string) option" where
  "json_struct fs [] v = Some v"
| "json_struct fs ((k, x) # ms) v =
     (case json_field fs k of
        None \<Rightarrow> json_struct fs ms v
      | Some f \<Rightarrow>
          (case x of
             JString s \<Rightarrow> json_struct fs ms (v(f := s))
           | JNull \<Rightarrow> json_struct fs ms v
           | _ \<Rightarrow> None))"

definition json_Unmarshal_struct :: "string list \<Rightarrow> string \<Rightarrow> (string \<Rightarrow> string) option" where
  "json_Unmarshal_struct fs s =
     (case json_parse s of
        Some (JObject ms) \<Rightarrow> json_struct fs ms (\<lambda>f. [])
      | Some JNull \<Rightarrow> Some (\<lambda>f. [])
      | _ \<Rightarrow> None)"

section \<open>The relational store\<close>

text \<open>
  Instants are nanoseconds since the epoch (the resolution of Go's \<open>time.Time\<close>).
  \<open>Format(time.RFC3339)\<close> prints whole seconds, so the instant the store reads back
  from the formatted string is the start of that second.
\<close>

type_synonym time = int

definition Format_RFC3339 :: "time \<Rightarrow> time" where
  "Format_RFC3339 t = (t div 1000000000) * 1000000000"

text \<open>
  The run's timestamp is \<open>time.Now()\<close>, an instant in the local time zone. A
  \<open>Location\<close> is Go's \<open>*time.Location\<close> as its \<open>lookup\<close> shows it: for a second
  since the epoch, the zone in force at that second, with its offset east of UTC in
  seconds and the seconds at which it begins and ends. The zones themselves are the
  system's time zone data, a parameter here.

  \<open>AddDate(0, 0, days)\<close> is calendar arithmetic: it takes the date and the clock
  of the instant in its location, moves the date by \<open>days\<close> (the clock stays, so the
  wall-clock second moves by 86400 for each day) and has \<open>Date\<close> turn the result back
  into an instant. \<open>Date\<close> looks the wall-clock second up as if it were UTC, takes
  that zone's offset off and, when the instant so found lies outside that zone, takes
  the offset of the zone at that instant instead. Across a change of the clock a
  calendar day is therefore not 24 hours.
\<close>

record zone =
  zone_offset :: int
  zone_start :: int
  zone_end :: int

type_synonym Location = "int \<Rightarrow> zone"

definition Date_unix :: "Location \<Rightarrow> int \<Rightarrow> int" where
  "Date_unix loc unix =
     (let z = loc unix in
      if zone_offset z \<noteq> 0 then
        (let utc = unix - zone_offset z in
         if utc < zone_start z \<or> utc \<ge> zone_end z then unix - zone_offset (loc utc)
         else unix - zone_offset z)
      else unix)"

definition AddDate_days :: "Location \<Rightarrow> time \<Rightarrow> int \<Rightarrow> time" where
  "AddDate_days loc t days =
     (let sec = t div 1000000000;
          nsec = t mod 1000000000;
          wall = sec + zone_offset (loc sec)
      in Date_unix loc (wall + days * 86400) * 1000000000 + nsec)"

text \<open>
  The three entity tables share the columns \<open>created_at\<close>, \<open>updated_at\<close> and
  \<open>is_deleted\<close>; each is keyed by \<open>dn\<close>, so a table is a map from \<open>dn\<close> to the other
  columns. \<open>viz_roles_parents\<close> has the primary key \<open>(child_dn, parent_dn)\<close> and no
  other column: a set of pairs. The program gives a value for every column of a row
  it writes, so no column is modelled as nullable.
\<close>

record lifecycle =
  created_at :: time
  updated_at :: time
  is_deleted :: bool

record role_row = lifecycle +
  nrfRoleLevel :: string
  nrfLocalizedNames :: string
  nrfLocalizedDescrs :: string
  nrfRoleCategoryKey :: string

record resource_row = lifecycle +
  res_nrfLocalizedNames :: string
  res_nrfLocalizedDescrs :: string
  nrfCategoryKey :: string
  nrfAllowMulti :: string
  entitlement_driver :: string
  entitlement_status :: string
  entitlement_xml :: string
  entitlement_xml_src :: string
  entitlement_xml_id :: string
  entitlement_xml_param_id :: string
  entitlement_xml_param_id2 :: string
  entitlement_xml_param_id3 :: string

record association_row = lifecycle +
  nrfRole :: string
  nrfResource :: string
  nrfDynamicParmVals :: string
  nrfdynamicparmvals_value_json :: string
  nrfStatus :: string
  createTimestamp :: string
  modifyTimestamp :: string

record db =
  viz_roles :: "string \<rightharpoonup> role_row"
  viz_roles_parents :: "(string \<times> string) set"
  viz_resources :: "string \<rightharpoonup> resource_row"
  viz_roles_resources :: "string \<rightharpoonup> association_row"

text \<open>
  Every statement the program sends can come back with an error (a lost connection, a
  value the store rejects). Which ones do is a parameter of the model: a predicate on
  the statements, each named by its place in the run (the loop indices included).
\<close>

datatype table = Roles | Resources | Associations

datatype stmt =
    Begin table
  | Prepare table
  | Upsert table nat
  | DeleteParents
  | PrepareParents
  | InsertParent nat nat
  | Commit table
  | Mark table
  | Purge table

type_synonym faults = "stmt \<Rightarrow> bool"

definition no_faults :: faults where
  "no_faults = (\<lambda>s. False)"

text \<open>What a synchronizer logs when it gives up.\<close>

datatype sync_error =
    SearchFailed
  | BeginFailed
  | PrepareFailed
  | RowFailed nat
  | DeleteFailed
  | ParentFailed nat nat
  | Panicked

subsection \<open>The SQL statements\<close>

text \<open>
  \<open>INSERT ... ON CONFLICT (dn) DO UPDATE SET ...\<close>: a new \<open>dn\<close> gets a row of the
  values given; an existing row gets the columns of the \<open>SET\<close> list and keeps the others.
\<close>

definition upsert_viz_roles ::
  "string \<Rightarrow> string \<Rightarrow> string \<Rightarrow> string \<Rightarrow> string \<Rightarrow> time \<Rightarrow> time \<Rightarrow> bool \<Rightarrow> db \<Rightarrow> db" where
  "upsert_viz_roles p1 p2 p3 p4 p5 p6 p7 p8 d =
     d\<lparr>viz_roles := (viz_roles d)(p1 \<mapsto>
        (case viz_roles d p1 of
           None \<Rightarrow>
             \<lparr>created_at = p6, updated_at = p7, is_deleted = p8,
              nrfRoleLevel = p2, nrfLocalizedNames = p3, nrfLocalizedDescrs = p4,
              nrfRoleCategoryKey = p5\<rparr>
         | Some r \<Rightarrow>
             r\<lparr>nrfRoleLevel := p2, nrfLocalizedNames := p3, nrfLocalizedDescrs := p4,
               nrfRoleCategoryKey := p5, updated_at := p7, is_deleted := False\<rparr>))\<rparr>"

definition upsert_viz_resources ::
  "string \<Rightarrow> string \<Rightarrow> string \<Rightarrow> string \<Rightarrow> string \<Rightarrow> entitlement \<Rightarrow> time \<Rightarrow> time \<Rightarrow> bool
     \<Rightarrow> db \<Rightarrow> db" where
  "upsert_viz_resources p1 p2 p3 p4 p5 e p14 p15 p16 d =
     d\<lparr>viz_resources := (viz_resources d)(p1 \<mapsto>
        (case viz_resources d p1 of
           None \<Rightarrow>
             \<lparr>created_at = p14, updated_at = p15, is_deleted = p16,
              res_nrfLocalizedNames = p2, res_nrfLocalizedDescrs = p3,
              nrfCategoryKey = p4, nrfAllowMulti = p5,
              entitlement_driver = entitlementDriver e,
              entitlement_status = entitlementStatus e,
              entitlement_xml = entitlementXML e,
              entitlement_xml_src = entitlementXMLSrc e,
              entitlement_xml_id = entitlementXMLID e,
              entitlement_xml_param_id = entitlementXMLParamID e,
              entitlement_xml_param_id2 = entitlementXMLParamID2 e,
              entitlement_xml_param_id3 = entitlementXMLParamID3 e\<rparr>
         | Some r \<Rightarrow>
             r\<lparr>res_nrfLocalizedNames := p2, res_nrfLocalizedDescrs := p3,
               nrfCategoryKey := p4, nrfAllowMulti := p5,
               entitlement_driver := entitlementDriver e,
               entitlement_status := entitlementStatus e,
               entitlement_xml := entitlementXML e,
               entitlement_xml_src := entitlementXMLSrc e,
               entitlement_xml_id := entitlementXMLID e,
               entitlement_xml_param_id := entitlementXMLParamID e,
               entitlement_xml_param_id2 := entitlementXMLParamID2 e,
               entitlement_xml_param_id3 := entitlementXMLParamID3 e,
               updated_at := p15, is_deleted := False\<rparr>))\<rparr>"

definition upsert_viz_roles_resources ::
  "string \<Rightarrow> string \<Rightarrow> string \<Rightarrow> string \<Rightarrow> string \<Rightarrow> string \<Rightarrow> string \<Rightarrow> string
     \<Rightarrow> time \<Rightarrow> time \<Rightarrow> bool \<Rightarrow> db \<Rightarrow> db" where
  "upsert_viz_roles_resources p1 p2 p3 p4 p5 p6 p7 p8 p9 p10 p11 d =
     d\<lparr>viz_roles_resources := (viz_roles_resources d)(p1 \<mapsto>
        (case viz_roles_resources d p1 of
           None \<Rightarrow>
             \<lparr>created_at = p9, updated_at = p10, is_deleted = p11,
              nrfRole = p2, nrfResource = p3, nrfDynamicParmVals = p4,
              nrfdynamicparmvals_value_json = p5, nrfStatus = p6,
              createTimestamp = p7, modifyTimestamp = p8\<rparr>
         | Some r \<Rightarrow>
             r\<lparr>nrfRole := p2, nrfResource := p3, nrfDynamicParmVals := p4,
               nrfdynamicparmvals_value_json := p5, nrfStatus := p6,
               createTimestamp := p7, modifyTimestamp := p8,
               updated_at := p10, is_deleted := False\<rparr>))\<rparr>"

text \<open>
  \<open>DELETE FROM viz_roles_parents\<close>, and the insertion of one pair, which the store
  refuses (\<open>None\<close>) unless both names are keys of \<open>viz_roles\<close>; a pair already there is
  left as it is (\<open>ON CONFLICT DO NOTHING\<close>).
\<close>

definition delete_viz_roles_parents :: "db \<Rightarrow> db" where
  "delete_viz_roles_parents d = d\<lparr>viz_roles_parents := {}\<rparr>"

definition insert_viz_roles_parents :: "string \<Rightarrow> string \<Rightarrow> db \<Rightarrow> db option" where
  "insert_viz_roles_parents child_dn parent_dn d =
     (if viz_roles d child_dn \<noteq> None \<and> viz_roles d parent_dn \<noteq> None
      then Some (d\<lparr>viz_roles_parents := insert (child_dn, parent_dn) (viz_roles_parents d)\<rparr>)
      else None)"

text \<open>
  \<open>UPDATE t SET is_deleted = TRUE WHERE updated_at < $1\<close> and
  \<open>DELETE FROM t WHERE is_deleted = TRUE AND updated_at < $1\<close>, on the rows of one
  table.
\<close>

definition mark_rows ::
  "time \<Rightarrow> (string \<rightharpoonup> 'a lifecycle_scheme) \<Rightarrow> (string \<rightharpoonup> 'a lifecycle_scheme)" where
  "mark_rows t rows =
     (\<lambda>dn. case rows dn of
              None \<Rightarrow> None
            | Some r \<Rightarrow> Some (if updated_at r < t then r\<lparr>is_deleted := True\<rparr> else r))"

definition purged :: "time \<Rightarrow> 'a lifecycle_scheme \<Rightarrow> bool" where
  "purged t r = (is_deleted r \<and> updated_at r < t)"

definition purge_rows ::
  "time \<Rightarrow> (string \<rightharpoonup> 'a lifecycle_scheme) \<Rightarrow> (string \<rightharpoonup> 'a lifecycle_scheme)" where
  "purge_rows t rows =
     (\<lambda>dn. case rows dn of
              None \<Rightarrow> None
            | Some r \<Rightarrow> if purged t r then None else Some r)"

text \<open>A role row that the purge deletes takes with it the pairs that name it.\<close>

definition role_purged :: "time \<Rightarrow> db \<Rightarrow> string \<Rightarrow> bool" where
  "role_purged t d dn = (case viz_roles d dn of None \<Rightarrow> False | Some r \<Rightarrow> purged t r)"

fun exec_mark :: "table \<Rightarrow> time \<Rightarrow> db \<Rightarrow> db" where
  "exec_mark Roles t d = d\<lparr>viz_roles := mark_rows t (viz_roles d)\<rparr>"
| "exec_mark Resources t d = d\<lparr>viz_resources := mark_rows t (viz_resources d)\<rparr>"
| "exec_mark Associations t d = d\<lparr>viz_roles_resources := mark_rows t (viz_roles_resources d)\<rparr>"

fun exec_purge :: "table \<Rightarrow> time \<Rightarrow> db \<Rightarrow> db" where
  "exec_purge Roles t d =
     d\<lparr>viz_roles := purge_rows t (viz_roles d),
       viz_roles_parents :=
         {(child_dn, parent_dn) \<in> viz_roles_parents d.
            \<not> role_purged t d child_dn \<and> \<not> role_purged t d parent_dn}\<rparr>"
| "exec_purge Resources t d = d\<lparr>viz_resources := purge_rows t (viz_resources d)\<rparr>"
| "exec_purge Associations t d =
     d\<lparr>viz_roles_resources := purge_rows t (viz_roles_resources d)\<rparr>"

section \<open>The entity synchronizers\<close>

text \<open>
  A synchronizer gets the result of its directory search (the entries, or the search's
  error), opens a transaction and works on \<open>w\<close>, the transaction's view of the store.
  \<open>tx.Rollback()\<close> leaves the store as it was at \<open>db.Begin()\<close> and \<open>tx.Commit()\<close>
  puts \<open>w\<close> in its place. The result is what was logged (\<open>None\<close> when the synchronizer
  reports completion) and the store afterwards.
\<close>

subsection \<open>Roles\<close>

definition roleCategoryKey :: "Entry \<Rightarrow> string" where
  "roleCategoryKey entry =
     (let roleCategoryKeys = GetAttributeValues entry ''nrfRoleCategoryKey'' in
      if length roleCategoryKeys > 0 then strings_Join roleCategoryKeys ''|'' else [])"

fun syncRoles_phase1 ::
  "faults \<Rightarrow> 'j codec \<Rightarrow> time \<Rightarrow> nat \<Rightarrow> Entry list \<Rightarrow> db \<Rightarrow> sync_error + db" where
  "syncRoles_phase1 F lib timestampStr i [] w = Inr w"
| "syncRoles_phase1 F lib timestampStr i (entry # entries) w =
     (case localizedJSON lib (GetAttributeValue entry ''nrfLocalizedNames'') of
        Inl p \<Rightarrow> Inl Panicked
      | Inr localizedNamesJSON \<Rightarrow>
     (case localizedJSON lib (GetAttributeValue entry ''nrfLocalizedDescrs'') of
        Inl p \<Rightarrow> Inl Panicked
      | Inr localizedDescrsJSON \<Rightarrow>
          if F (Upsert Roles i) then Inl (RowFailed i)
          else syncRoles_phase1 F lib timestampStr (Suc i) entries
                 (upsert_viz_roles (DN entry) (GetAttributeValue entry ''nrfRoleLevel'')
                    localizedNamesJSON localizedDescrsJSON (roleCategoryKey entry)
                    timestampStr timestampStr False w)))"

fun insert_parents ::
  "faults \<Rightarrow> string \<Rightarrow> nat \<Rightarrow> nat \<Rightarrow> string list \<Rightarrow> db \<Rightarrow> sync_error + db" where
  "insert_parents F child i j [] w = Inr w"
| "insert_parents F child i j (parentDN # parentRoles) w =
     (if F (InsertParent i j) then Inl (ParentFailed i j)
      else (case insert_viz_roles_parents child parentDN w of
              None \<Rightarrow> Inl (ParentFailed i j)
            | Some w' \<Rightarrow> insert_parents F child i (Suc j) parentRoles w'))"

fun syncRoles_phase2 :: "faults \<Rightarrow> nat \<Rightarrow> Entry list \<Rightarrow> db \<Rightarrow> sync_error + db" where
  "syncRoles_phase2 F i [] w = Inr w"
| "syncRoles_phase2 F i (entry # entries) w =
     (case insert_parents F (DN entry) i 0 (GetAttributeValues entry ''nrfParentRoles'') w of
        Inl e \<Rightarrow> Inl e
      | Inr w' \<Rightarrow> syncRoles_phase2 F (Suc i) entries w')"

definition syncRoles ::
  "faults \<Rightarrow> 'j codec \<Rightarrow> string + Entry list \<Rightarrow> time \<Rightarrow> db \<Rightarrow> sync_error option \<times> db" where
  "syncRoles F lib search syncStartTimestamp d =
     (case search of
        Inl err \<Rightarrow> (Some SearchFailed, d)
      | Inr entries \<Rightarrow>
          if F (Begin Roles) then (Some BeginFailed, d)
          else if F (Prepare Roles) then (Some PrepareFailed, d)
          else
            (case syncRoles_phase1 F lib (Format_RFC3339 syncStartTimestamp) 0 entries d of
               Inl e \<Rightarrow> (Some e, d)
             | Inr w1 \<Rightarrow>
                 if F DeleteParents then (Some DeleteFailed, d)
                 else if F PrepareParents then (Some PrepareFailed, d)
                 else
                   (case syncRoles_phase2 F 0 entries (delete_viz_roles_parents w1) of
                      Inl e \<Rightarrow> (Some e, d)
                    | Inr w2 \<Rightarrow> (None, if F (Commit Roles) then d else w2))))"

subsection \<open>Resources\<close>

fun syncResources_loop ::
  "faults \<Rightarrow> 'j codec \<Rightarrow> time \<Rightarrow> nat \<Rightarrow> Entry list \<Rightarrow> db \<Rightarrow> sync_error + db" where
  "syncResources_loop F lib timestampStr i [] w = Inr w"
| "syncResources_loop F lib timestampStr i (entry # entries) w =
     (case localizedJSON lib (GetAttributeValue entry ''nrfLocalizedNames'') of
        Inl p \<Rightarrow> Inl Panicked
      | Inr localizedNamesJSON \<Rightarrow>
     (case localizedJSON lib (GetAttributeValue entry ''nrfLocalizedDescrs'') of
        Inl p \<Rightarrow> Inl Panicked
      | Inr localizedDescrsJSON \<Rightarrow>
          if F (Upsert Resources i) then Inl (RowFailed i)
          else syncResources_loop F lib timestampStr (Suc i) entries
                 (upsert_viz_resources (DN entry) localizedNamesJSON localizedDescrsJSON
                    (GetAttributeValue entry ''nrfCategoryKey'')
                    (GetAttributeValue entry ''nrfAllowMulti'')
                    (decodeEntitlementRef lib (GetAttributeValue entry ''nrfEntitlementRef''))
                    timestampStr timestampStr False w)))"

definition syncResources ::
  "faults \<Rightarrow> 'j codec \<Rightarrow> string + Entry list \<Rightarrow> time \<Rightarrow> db \<Rightarrow> sync_error option \<times> db" where
  "syncResources F lib search syncStartTimestamp d =
     (case search of
        Inl err \<Rightarrow> (Some SearchFailed, d)
      | Inr entries \<Rightarrow>
          if F (Begin Resources) then (Some BeginFailed, d)
          else if F (Prepare Resources) then (Some PrepareFailed, d)
          else
            (case syncResources_loop F lib (Format_RFC3339 syncStartTimestamp) 0 entries d of
               Inl e \<Rightarrow> (Some e, d)
             | Inr w \<Rightarrow> (None, if F (Commit Resources) then d else w)))"

subsection \<open>Associations\<close>

fun syncAssociations_loop ::
  "faults \<Rightarrow> 'j codec \<Rightarrow> time \<Rightarrow> nat \<Rightarrow> Entry list \<Rightarrow> db \<Rightarrow> sync_error + db" where
  "syncAssociations_loop F lib timestampStr i [] w = Inr w"
| "syncAssociations_loop F lib timestampStr i (entry # entries) w =
     (if F (Upsert Associations i) then Inl (RowFailed i)
      else syncAssociations_loop F lib timestampStr (Suc i) entries
             (upsert_viz_roles_resources (DN entry)
                (GetAttributeValue entry ''nrfRole'')
                (GetAttributeValue entry ''nrfResource'')
                (GetAttributeValue entry ''nrfDynamicParmVals'')
                (decodeDynamicParmVals lib (GetAttributeValue entry ''nrfDynamicParmVals''))
                (GetAttributeValue entry ''nrfStatus'')
                (GetAttributeValue entry ''createTimestamp'')
                (GetAttributeValue entry ''modifyTimestamp'')
                timestampStr timestampStr False w))"

definition syncAssociations ::
  "faults \<Rightarrow> 'j codec \<Rightarrow> string + Entry list \<Rightarrow> time \<Rightarrow> db \<Rightarrow> sync_error option \<times> db" where
  "syncAssociations F lib search syncStartTimestamp d =
     (case search of
        Inl err \<Rightarrow> (Some SearchFailed, d)
      | Inr entries \<Rightarrow>
          if F (Begin Associations) then (Some BeginFailed, d)
          else if F (Prepare Associations) then (Some PrepareFailed, d)
          else
            (case syncAssociations_loop F lib (Format_RFC3339 syncStartTimestamp) 0 entries d of
               Inl e \<Rightarrow> (Some e, d)
             | Inr w \<Rightarrow> (None, if F (Commit Associations) then d else w)))"

section \<open>The lifecycle pass\<close>

text \<open>
  Both loops of \<open>markAndPurge\<close> go over the same three table names, the first one
  marking and the second one deleting; a statement that comes back with an error is
  logged and the loop goes on to the next table. The location is that of the run's
  timestamp.
\<close>

definition tables :: "table list" where
  "tables = [Roles, Resources, Associations]"

definition markAndPurge_mark :: "faults \<Rightarrow> time \<Rightarrow> db \<Rightarrow> db" where
  "markAndPurge_mark F timestampStr d =
     fold (\<lambda>table d'. if F (Mark table) then d' else exec_mark table timestampStr d') tables d"

definition markAndPurge_purge :: "faults \<Rightarrow> time \<Rightarrow> db \<Rightarrow> db" where
  "markAndPurge_purge F purgeTimestamp d =
     fold (\<lambda>table d'. if F (Purge table) then d' else exec_purge table purgeTimestamp d') tables d"

definition markAndPurge :: "faults \<Rightarrow> Location \<Rightarrow> db \<Rightarrow> time \<Rightarrow> int \<Rightarrow> db" where
  "markAndPurge F loc d syncStartTimestamp purgeAgeInDays =
     (let timestampStr = Format_RFC3339 syncStartTimestamp;
          marked = markAndPurge_mark F timestampStr d;
          purgeTimestamp =
            Format_RFC3339 (AddDate_days loc syncStartTimestamp (- purgeAgeInDays))
      in markAndPurge_purge F purgeTimestamp marked)"

section \<open>One run\<close>

text \<open>
  The part of \<open>main\<close> that writes: the three synchronizers, each on the result of its
  own search, then the lifecycle pass, all with the one timestamp taken at the start.
  A panic ends the process where it happens.
\<close>

record searches =
  roles_search :: "string + Entry list"
  resources_search :: "string + Entry list"
  associations_search :: "string + Entry list"

definition run ::
  "faults \<Rightarrow> 'j codec \<Rightarrow> Location \<Rightarrow> searches \<Rightarrow> time \<Rightarrow> int \<Rightarrow> db \<Rightarrow> db" where
  "run F lib loc ldap syncStartTimestamp purgeAgeInDays d =
     (let (log1, d1) = syncRoles F lib (roles_search ldap) syncStartTimestamp d in
      if log1 = Some Panicked then d1
      else
        let (log2, d2) = syncResources F lib (resources_search ldap) syncStartTimestamp d1 in
        if log2 = Some Panicked then d2
        else
          let (log3, d3) =
                syncAssociations F lib (associations_search ldap) syncStartTimestamp d2 in
          if log3 = Some Panicked then d3
          else markAndPurge F loc d3 syncStartTimestamp purgeAgeInDays)"

section \<open>Notions for stating what the synchronizers do\<close>

text \<open>
  The columns that the upsert of a role entry overwrites in a row (\<open>role_update\<close>),
  the effect of that upsert on the store (\<open>role_entry_upsert\<close>, a new row being the
  values of the \<open>INSERT\<close> with the same columns written), and the upserts that the
  resource and the association synchronizer send for an entry.
\<close>

definition role_update :: "'j codec \<Rightarrow> time \<Rightarrow> Entry \<Rightarrow> role_row \<Rightarrow> role_row" where
  "role_update lib t entry r =
     r\<lparr>nrfRoleLevel := GetAttributeValue entry ''nrfRoleLevel'',
       nrfLocalizedNames :=
         json_Marshal_map lib (localized_spec (GetAttributeValue entry ''nrfLocalizedNames'')),
       nrfLocalizedDescrs :=
         json_Marshal_map lib (localized_spec (GetAttributeValue entry ''nrfLocalizedDescrs'')),
       nrfRoleCategoryKey := roleCategoryKey entry,
       updated_at := t, is_deleted := False\<rparr>"

definition role_entry_upsert :: "'j codec \<Rightarrow> time \<Rightarrow> Entry \<Rightarrow> db \<Rightarrow> db" where
  "role_entry_upsert lib t entry w =
     w\<lparr>viz_roles := (viz_roles w)(DN entry \<mapsto>
        role_update lib t entry
          (case viz_roles w (DN entry) of
             None \<Rightarrow> \<lparr>created_at = t, updated_at = t, is_deleted = False,
                        nrfRoleLevel = [], nrfLocalizedNames = [], nrfLocalizedDescrs = [],
                        nrfRoleCategoryKey = []\<rparr>
           | Some r \<Rightarrow> r))\<rparr>"

definition resource_entry_upsert :: "'j codec \<Rightarrow> time \<Rightarrow> Entry \<Rightarrow> db \<Rightarrow> db" where
  "resource_entry_upsert lib t entry w =
     upsert_viz_resources (DN entry)
       (json_Marshal_map lib (localized_spec (GetAttributeValue entry ''nrfLocalizedNames'')))
       (json_Marshal_map lib (localized_spec (GetAttributeValue entry ''nrfLocalizedDescrs'')))
       (GetAttributeValue entry ''nrfCategoryKey'')
       (GetAttributeValue entry ''nrfAllowMulti'')
       (decodeEntitlementRef lib (GetAttributeValue entry ''nrfEntitlementRef''))
       t t False w"

definition association_entry_upsert :: "'j codec \<Rightarrow> time \<Rightarrow> Entry \<Rightarrow> db \<Rightarrow> db" where
  "association_entry_upsert lib t entry w =
     upsert_viz_roles_resources (DN entry)
       (GetAttributeValue entry ''nrfRole'')
       (GetAttributeValue entry ''nrfResource'')
       (GetAttributeValue entry ''nrfDynamicParmVals'')
       (decodeDynamicParmVals lib (GetAttributeValue entry ''nrfDynamicParmVals''))
       (GetAttributeValue entry ''nrfStatus'')
       (GetAttributeValue entry ''createTimestamp'')
       (GetAttributeValue entry ''modifyTimestamp'')
       t t False w"

text \<open>
  The pairs that the second phase of the role synchronizer inserts for a list of
  entries. Every one of them names two keys of \<open>viz_roles\<close>; no insertion of a pair
  comes back with an error; the pairs of a store name keys of its \<open>viz_roles\<close>.
\<close>

definition parent_pairs :: "Entry list \<Rightarrow> (string \<times> string) set" where
  "parent_pairs entries =
     (\<Union>entry \<in> set entries. Pair (DN entry) ` set (GetAttributeValues entry ''nrfParentRoles''))"

definition foreign_keys_ok :: "Entry list \<Rightarrow> db \<Rightarrow> bool" where
  "foreign_keys_ok entries w \<longleftrightarrow>
     (\<forall>x\<in>parent_pairs entries. viz_roles w (fst x) \<noteq> None \<and> viz_roles w (snd x) \<noteq> None)"

definition inserts_ok :: "faults \<Rightarrow> Entry list \<Rightarrow> bool" where
  "inserts_ok F entries \<longleftrightarrow>
     (\<forall>k<length entries. \<forall>j<length (GetAttributeValues (entries ! k) ''nrfParentRoles'').
        \<not> F (InsertParent k j))"

definition foreign_keys_hold :: "db \<Rightarrow> bool" where
  "foreign_keys_hold d \<longleftrightarrow>
     (\<forall>x\<in>viz_roles_parents d. viz_roles d (fst x) \<noteq> None \<and> viz_roles d (snd x) \<noteq> None)"

text \<open>
  A row statement of the role synchronizer fails: an upsert or an insertion comes back
  with an error, or a pair names a parent that is neither in \<open>viz_roles\<close> nor among
  the entries.
\<close>

definition roles_statement_fails :: "faults \<Rightarrow> Entry list \<Rightarrow> db \<Rightarrow> bool" where
  "roles_statement_fails F entries d \<longleftrightarrow>
     (\<exists>i<length entries. F (Upsert Roles i)) \<or> \<not> inserts_ok F entries
     \<or> (\<exists>x\<in>parent_pairs entries. viz_roles d (snd x) = None \<and> snd x \<notin> DN ` set entries)"

text \<open>
  Two stores differ at most in the \<open>updated_at\<close> of role rows. Every row of a table
  is older than an instant. In a table, the rows that carry an instant as
  \<open>updated_at\<close> are exactly the rows whose \<open>dn\<close> is among the entries.
\<close>

definition same_except_updated_at :: "db \<Rightarrow> db \<Rightarrow> bool" where
  "same_except_updated_at d d' \<longleftrightarrow>
     viz_roles_parents d' = viz_roles_parents d
     \<and> (\<forall>dn. rel_option (\<lambda>r r'. r' = r\<lparr>updated_at := updated_at r'\<rparr>)
               (viz_roles d dn) (viz_roles d' dn))"

definition rows_older :: "time \<Rightarrow> (string \<rightharpoonup> 'a lifecycle_scheme) \<Rightarrow> bool" where
  "rows_older t rows \<longleftrightarrow> (\<forall>dn r. rows dn = Some r \<longrightarrow> updated_at r < t)"

definition stamped_iff_observed ::
  "time \<Rightarrow> (string \<rightharpoonup> 'a lifecycle_scheme) \<Rightarrow> Entry list \<Rightarrow> bool" where
  "stamped_iff_observed t rows entries \<longleftrightarrow>
     (\<forall>dn r. rows dn = Some r \<longrightarrow> (updated_at r = t \<longleftrightarrow> dn \<in> DN ` set entries))"

text \<open>
  No zone of a location is more than a day away from UTC (the zones of the time zone
  database lie between twelve hours behind and fourteen hours ahead).
\<close>

definition offsets_within_a_day :: "Location \<Rightarrow> bool" where
  "offsets_within_a_day loc \<longleftrightarrow> (\<forall>sec. \<bar>zone_offset (loc sec)\<bar> \<le> 86400)"

section \<open>Sample data\<close>

text \<open>
  The codec of the samples follows Go's library: the six calls of the source, with the
  structs and the tags that it declares. Then a parameter element whose value is
  escaped once, as XML wants it, one whose value is escaped twice, one whose value has
  an \<open>&\<close> inside a string, and one with an entity that XML does not know; an
  association entry that carries the second of them; an empty store and a row of
  each table.
\<close>

definition sample_codec :: "json codec" where
  "sample_codec =
     \<lparr>json_Marshal_map = json_Marshal_string_map,
      xml_Unmarshal_ref =
        (\<lambda>s. map_option (\<lambda>v. \<lparr>Src = v ''src'', ID = v ''id'', Param = v ''param''\<rparr>)
               (xml_Unmarshal ''ref'' [''src'', ''id'', ''param''] s)),
      json_Unmarshal_param =
        (\<lambda>s. map_option
               (\<lambda>v. \<lparr>ParamID = v ''ID'', ParamID2 = v ''ID2'', ParamID3 = v ''ID3''\<rparr>)
               (json_Unmarshal_struct [''ID'', ''ID2'', ''ID3''] s)),
      xml_Unmarshal_parameter =
        (\<lambda>s. map_option (\<lambda>v. \<lparr>Value = v ''value''\<rparr>)
               (xml_Unmarshal ''parameter'' [''value''] s)),
      json_Unmarshal = json_parse,
      json_Marshal = (\<lambda>j. Some (json_encode j))\<rparr>"






definition empty_db :: db where
  "empty_db =
     \<lparr>viz_roles = Map.empty, viz_roles_parents = {},
      viz_resources = Map.empty, viz_roles_resources = Map.empty\<rparr>"

definition sample_role :: "time \<Rightarrow> time \<Rightarrow> bool \<Rightarrow> role_row" where
  "sample_role created updated deleted =
     \<lparr>created_at = created, updated_at = updated, is_deleted = deleted,
      nrfRoleLevel = ''10'', nrfLocalizedNames = ''{}'', nrfLocalizedDescrs = ''{}'',
      nrfRoleCategoryKey = []\<rparr>"

definition sample_resource :: "time \<Rightarrow> time \<Rightarrow> bool \<Rightarrow> resource_row" where
  "sample_resource created updated deleted =
     \<lparr>created_at = created, updated_at = updated, is_deleted = deleted,
      res_nrfLocalizedNames = ''{}'', res_nrfLocalizedDescrs = ''{}'',
      nrfCategoryKey = [], nrfAllowMulti = ''TRUE'',
      entitlement_driver = [], entitlement_status = [], entitlement_xml = [],
      entitlement_xml_src = [], entitlement_xml_id = [], entitlement_xml_param_id = [],
      entitlement_xml_param_id2 = [], entitlement_xml_param_id3 = []\<rparr>"

definition sample_association :: "time \<Rightarrow> time \<Rightarrow> bool \<Rightarrow> association_row" where
  "sample_association created updated deleted =
     \<lparr>created_at = created, updated_at = updated, is_deleted = deleted,
      nrfRole = ''R1'', nrfResource = ''S1'', nrfDynamicParmVals = [],
      nrfdynamicparmvals_value_json = [], nrfStatus = ''50'',
      createTimestamp = ''20240101000000Z'', modifyTimestamp = ''20240101000000Z''\<rparr>"

text \<open>
  Two locations: UTC, one zone without beginning or end, as Go has it; and a location
  with the clock change of central Europe on 27 October 2024, two hours ahead of UTC
  from 31 March 2024, 01:00 UTC, and one hour ahead from 27 October 2024, 01:00 UTC,
  to 30 March 2025, 01:00 UTC.
\<close>

definition UTC :: Location where
  "UTC = (\<lambda>sec. \<lparr>zone_offset = 0, zone_start = - 9223372036854775808,
                    zone_end = 9223372036854775807\<rparr>)"

definition sample_location :: Location where
  "sample_location =
     (\<lambda>sec. if sec < 1729990800
            then \<lparr>zone_offset = 7200, zone_start = 1711846800, zone_end = 1729990800\<rparr>
            else \<lparr>zone_offset = 3600, zone_start = 1729990800, zone_end = 1743296400\<rparr>)"

text \<open>
  A store in which a role, a resource and an association named \<open>R1\<close> are
  soft-deleted rows of an earlier run. A store with a role \<open>R1\<close> last upserted ten
  days before 1730000000 seconds after the epoch, a role \<open>R2\<close> upserted at that
  time, and the pair that makes \<open>R2\<close> the parent of \<open>R1\<close>.
\<close>

definition old_db :: db where
  "old_db =
     \<lparr>viz_roles = [''R1'' \<mapsto> sample_role 1000000000 2000000000 True],
      viz_roles_parents = {},
      viz_resources = [''R1'' \<mapsto> sample_resource 1000000000 2000000000 True],
      viz_roles_resources = [''R1'' \<mapsto> sample_association 1000000000 2000000000 True]\<rparr>"

definition stale_db :: db where
  "stale_db =
     empty_db\<lparr>viz_roles :=
                [''R1'' \<mapsto> sample_role 1729136000000000000 1729136000000000000 False,
                 ''R2'' \<mapsto> sample_role 1729136000000000000 1730000000000000000 False],
              viz_roles_parents := {(''R1'', ''R2'')}\<rparr>"

text \<open>
  Two role entries, the second a child of the first, and a role entry whose one parent
  reference names a role that is not an entry; the searches of a run that returns the
  first two for every table, and of a run that returns the third; and a store that
  refuses three of the upserts.
\<close>

definition two_roles :: "Entry list" where
  "two_roles =
     [\<lparr>DN = ''R1'', Attributes = []\<rparr>,
      \<lparr>DN = ''R2'', Attributes = [(''nrfParentRoles'', [''R1''])]\<rparr>]"

definition orphan_entry :: Entry where
  "orphan_entry = \<lparr>DN = ''R1'', Attributes = [(''nrfParentRoles'', [''R2''])]\<rparr>"

definition sample_searches :: searches where
  "sample_searches =
     \<lparr>roles_search = Inr two_roles, resources_search = Inr two_roles,
      associations_search = Inr two_roles\<rparr>"

definition orphan_searches :: searches where
  "orphan_searches =
     \<lparr>roles_search = Inr [orphan_entry], resources_search = Inr [],
      associations_search = Inr []\<rparr>"

definition sample_faults :: faults where
  "sample_faults s \<longleftrightarrow> s = Upsert Roles 1 \<or> s = Upsert Resources 0 \<or> s = Upsert Associations 1"

section \<open>Properties of the string functions\<close>

lemma strings_Cut_None: "strings_Cut s sep = None \<longleftrightarrow> sep \<notin> set s"
  by (induction s) (auto split: option.splits)

lemma strings_Cut_Some:
  "strings_Cut s sep = Some (before, after) \<Longrightarrow> s = before @ sep # after \<and> sep \<notin> set before"
  by (induction s arbitrary: before) (auto split: if_splits option.splits)

lemma strings_Split_not_Nil: "strings_Split s sep \<noteq> []"
  by (induction s) (auto split: list.splits)

lemma strings_Split_no_sep: "p \<in> set (strings_Split s sep) \<Longrightarrow> sep \<notin> set p"
  by (induction s arbitrary: p) (auto split: if_splits list.splits)

lemma strings_Split_Join: "strings_Join (strings_Split s sep) [sep] = s"
proof (induction s)
  case Nil
  show ?case by simp
next
  case (Cons c cs)
  obtain p ps where ps: "strings_Split cs sep = p # ps"
    using strings_Split_not_Nil [of cs sep] by (cases "strings_Split cs sep") auto
  with Cons show ?case
    by (cases ps) auto
qed

lemma strings_SplitN_2:
  "strings_SplitN s sep 2 =
     (case strings_Cut s sep of None \<Rightarrow> [s] | Some (before, after) \<Rightarrow> [before, after])"
  by (simp add: numeral_2_eq_2 split: option.splits)

section \<open>The localized-text decoder meets its specification\<close>

lemma parseLocalizedAttributes_loop_spec:
  "parseLocalizedAttributes_loop parts result =
     Inr (result ++ map_of (rev (List.map_filter (\<lambda>segment. strings_Cut segment CHR ''~'') parts)))"
proof (induction parts arbitrary: result)
  case Nil
  show ?case by simp
next
  case (Cons part parts)
  show ?case
  proof (cases "strings_Cut part CHR ''~''")
    case None
    then have "\<not> strings_Contains part CHR ''~''"
      by (simp add: strings_Contains_def strings_Cut_None)
    with None Cons show ?thesis
      by simp
  next
    case (Some ba)
    obtain before after where ba: "ba = (before, after)"
      by (cases ba)
    from Some have "strings_Contains part CHR ''~''"
      using strings_Cut_None [of part "CHR ''~''"] by (simp add: strings_Contains_def)
    with Some ba Cons show ?thesis
      by (simp add: strings_SplitN_2 map_add_def fun_eq_iff
          split: option.splits)
  qed
qed

lemma parseLocalizedAttributes_total: "parseLocalizedAttributes s = Inr (localized_spec s)"
  by (simp add: parseLocalizedAttributes_def parseLocalizedAttributes_loop_spec
        localized_spec_def localized_pairs_def)

text \<open>
  C6. For every input string the localized-text decoder returns, without a panic, the
  mapping that the specification describes: the string is split on \<open>|\<close>, each segment
  is cut at its first \<open>~\<close>, segments without \<open>~\<close> are dropped, and the last occurrence
  of a language code wins. The empty string gives the empty mapping, and
  \<open>en~Hello|de~Hallo\<close> gives \<open>{en: Hello, de: Hallo}\<close>.
\<close>

theorem parseLocalizedAttributes_spec:
  "parseLocalizedAttributes s = Inr (localized_spec s)
   \<and> parseLocalizedAttributes [] = Inr Map.empty
   \<and> parseLocalizedAttributes ''en~Hello|de~Hallo''
       = Inr [''en'' \<mapsto> ''Hello'', ''de'' \<mapsto> ''Hallo'']"
proof -
  have "parseLocalizedAttributes s = Inr (localized_spec s)"
    by (rule parseLocalizedAttributes_total)
  moreover have "parseLocalizedAttributes [] = Inr Map.empty"
    by (simp add: parseLocalizedAttributes_def)
  moreover have "parseLocalizedAttributes ''en~Hello|de~Hallo''
       = Inr [''en'' \<mapsto> ''Hello'', ''de'' \<mapsto> ''Hallo'']"
    by (simp add: parseLocalizedAttributes_def strings_Contains_def numeral_2_eq_2)
  ultimately show ?thesis by simp
qed

theorem parseLocalizedAttributes_spec_witness:
  "parseLocalizedAttributes ''en~Hello|de~Hallo|en~Hi|xx'' = Inr [''de'' \<mapsto> ''Hallo'', ''en'' \<mapsto> ''Hi'']"
proof -
  have "localized_spec ''en~Hello|de~Hallo|en~Hi|xx'' = [''de'' \<mapsto> ''Hallo'', ''en'' \<mapsto> ''Hi'']"
    by (simp add: localized_spec_def localized_pairs_def fun_eq_iff)
  with parseLocalizedAttributes_spec [of "''en~Hello|de~Hallo|en~Hi|xx''"] show ?thesis
    by simp
qed

section \<open>The entitlement-reference decoder on short references\<close>

lemma strings_Cut_takeWhile:
  "strings_Cut s sep =
     (if sep \<in> set s
      then Some (takeWhile (\<lambda>c. c \<noteq> sep) s,
                 drop (Suc (length (takeWhile (\<lambda>c. c \<noteq> sep) s))) s)
      else None)"
  by (induction s) auto

lemma takeWhile_no_sep: "sep \<notin> set s \<Longrightarrow> takeWhile (\<lambda>c. c \<noteq> sep) s = s"
  by (induction s) auto

lemma count_list_0: "count_list s c = 0 \<longleftrightarrow> c \<notin> set s"
  by (induction s) auto

lemma strings_SplitN_3_few:
  assumes "count_list s sep < 2"
  shows "strings_SplitN s sep 3 =
     (case strings_Cut s sep of None \<Rightarrow> [s] | Some (before, after) \<Rightarrow> [before, after])"
proof (cases "strings_Cut s sep")
  case None
  then show ?thesis by (simp add: numeral_3_eq_3)
next
  case (Some ba)
  obtain before after where ba: "ba = (before, after)" by (cases ba)
  from Some ba have s: "s = before @ sep # after" and nb: "sep \<notin> set before"
    using strings_Cut_Some by auto
  from nb have "count_list before sep = 0" by (simp add: count_list_0)
  with assms s have "count_list after sep = 0" by simp
  then have "strings_Cut after sep = None"
    by (simp add: count_list_0 strings_Cut_None)
  with Some ba show ?thesis by (simp add: numeral_3_eq_3)
qed

lemma strings_SplitN_length: "length (strings_SplitN s sep n) \<le> n"
  by (induction s sep n rule: strings_SplitN.induct) (auto split: option.splits)

text \<open>
  C7. An entitlement reference with fewer than two \<open>#\<close> is decoded without an error
  (the decoder has no failing branch: every index is guarded by a length test). The
  split gives at most three parts, the driver is the text before the first \<open>#\<close> (the
  whole string when there is none), the status is the text after it (empty when there
  is none), and the XML fragment and the five fields derived from it stay empty.
\<close>

theorem entitlement_few_delimiters:
  assumes "count_list s CHR ''#'' < 2"
  shows "length (strings_SplitN s CHR ''#'' 3) \<le> 3
    \<and> entitlementDriver (decodeEntitlementRef lib s) = takeWhile (\<lambda>c. c \<noteq> CHR ''#'') s
    \<and> entitlementStatus (decodeEntitlementRef lib s)
        = drop (Suc (length (takeWhile (\<lambda>c. c \<noteq> CHR ''#'') s))) s
    \<and> entitlementXML (decodeEntitlementRef lib s) = []
    \<and> entitlementXMLSrc (decodeEntitlementRef lib s) = []
    \<and> entitlementXMLID (decodeEntitlementRef lib s) = []
    \<and> entitlementXMLParamID (decodeEntitlementRef lib s) = []
    \<and> entitlementXMLParamID2 (decodeEntitlementRef lib s) = []
    \<and> entitlementXMLParamID3 (decodeEntitlementRef lib s) = []"
  using assms strings_SplitN_length [of s "CHR ''#''" 3]
  by (auto simp: decodeEntitlementRef_def entitlement_block_def entitlement_parts_def
      strings_SplitN_3_few strings_Cut_takeWhile Let_def takeWhile_no_sep)

theorem entitlement_few_delimiters_witness:
  "count_list ''driverOnly'' CHR ''#'' < 2
   \<and> entitlementDriver (decodeEntitlementRef sample_codec ''driverOnly'') = ''driverOnly''
   \<and> entitlementStatus (decodeEntitlementRef sample_codec ''driverOnly'') = []
   \<and> entitlementXML (decodeEntitlementRef sample_codec ''driverOnly'') = []
   \<and> entitlementXMLSrc (decodeEntitlementRef sample_codec ''driverOnly'') = []
   \<and> entitlementXMLID (decodeEntitlementRef sample_codec ''driverOnly'') = []
   \<and> entitlementXMLParamID (decodeEntitlementRef sample_codec ''driverOnly'') = []
   \<and> entitlementXMLParamID2 (decodeEntitlementRef sample_codec ''driverOnly'') = []
   \<and> entitlementXMLParamID3 (decodeEntitlementRef sample_codec ''driverOnly'') = []"
  using entitlement_few_delimiters [of "''driverOnly''" sample_codec]
  by simp

section \<open>Calendar days\<close>

lemma Format_RFC3339_seconds:
  "0 \<le> nsec \<Longrightarrow> nsec < 1000000000 \<Longrightarrow>
     Format_RFC3339 (sec * 1000000000 + nsec) = sec * 1000000000"
  by (simp add: Format_RFC3339_def)

lemma Format_RFC3339_AddDate_days:
  "Format_RFC3339 (AddDate_days loc t days) =
     Date_unix loc (t div 1000000000 + zone_offset (loc (t div 1000000000)) + days * 86400)
       * 1000000000"
  unfolding AddDate_days_def Let_def
  by (rule Format_RFC3339_seconds) simp_all

lemma Date_unix_UTC [simp]: "Date_unix UTC unix = unix"
  by (simp add: Date_unix_def UTC_def)

lemma AddDate_days_UTC: "AddDate_days UTC t days = t + days * 86400000000000"
proof -
  have "AddDate_days UTC t days
      = (t div 1000000000 + days * 86400) * 1000000000 + t mod 1000000000"
    by (simp add: AddDate_days_def Date_unix_def UTC_def)
  also have "\<dots> = (t div 1000000000 * 1000000000 + t mod 1000000000)
      + days * 86400000000000"
    by (simp add: algebra_simps)
  also have "\<dots> = t + days * 86400000000000"
    by simp
  finally show ?thesis .
qed

lemma offset_bounds:
  assumes "offsets_within_a_day loc"
  shows "- 86400 \<le> zone_offset (loc x)" and "zone_offset (loc x) \<le> 86400"
proof -
  from assms have "\<bar>zone_offset (loc x)\<bar> \<le> 86400"
    by (simp add: offsets_within_a_day_def)
  then show "- 86400 \<le> zone_offset (loc x)" and "zone_offset (loc x) \<le> 86400"
    by simp_all
qed

lemma Date_unix_bounds:
  assumes "offsets_within_a_day loc"
  shows "unix - 86400 \<le> Date_unix loc unix" and "Date_unix loc unix \<le> unix + 86400"
proof -
  from offset_bounds [OF assms, of unix]
    offset_bounds [OF assms, of "unix - zone_offset (loc unix)"]
  show "unix - 86400 \<le> Date_unix loc unix" and "Date_unix loc unix \<le> unix + 86400"
    by (auto simp: Date_unix_def Let_def)
qed

lemma purge_timestamp_bounds:
  assumes "offsets_within_a_day loc"
  shows "Format_RFC3339 t + (days * 86400 - 172800) * 1000000000
           \<le> Format_RFC3339 (AddDate_days loc t days)"
    and "Format_RFC3339 (AddDate_days loc t days)
           \<le> Format_RFC3339 t + (days * 86400 + 172800) * 1000000000"
proof -
  define sec where "sec = t div 1000000000"
  define wall where "wall = sec + zone_offset (loc sec) + days * 86400"
  from Date_unix_bounds [OF assms, of wall] offset_bounds [OF assms, of sec]
  have "sec + days * 86400 - 172800 \<le> Date_unix loc wall"
    and "Date_unix loc wall \<le> sec + days * 86400 + 172800"
    by (simp_all add: wall_def)
  then show "Format_RFC3339 t + (days * 86400 - 172800) * 1000000000
           \<le> Format_RFC3339 (AddDate_days loc t days)"
    and "Format_RFC3339 (AddDate_days loc t days)
           \<le> Format_RFC3339 t + (days * 86400 + 172800) * 1000000000"
    unfolding Format_RFC3339_AddDate_days wall_def sec_def
    by (simp_all add: Format_RFC3339_def)
qed

section \<open>The lifecycle pass, table by table\<close>

lemma markAndPurge_mark_unfold:
  "markAndPurge_mark F t d =
     (let d1 = (if F (Mark Roles) then d else exec_mark Roles t d);
          d2 = (if F (Mark Resources) then d1 else exec_mark Resources t d1)
      in if F (Mark Associations) then d2 else exec_mark Associations t d2)"
  by (simp add: markAndPurge_mark_def tables_def Let_def)

lemma markAndPurge_purge_unfold:
  "markAndPurge_purge F t d =
     (let d1 = (if F (Purge Roles) then d else exec_purge Roles t d);
          d2 = (if F (Purge Resources) then d1 else exec_purge Resources t d1)
      in if F (Purge Associations) then d2 else exec_purge Associations t d2)"
  by (simp add: markAndPurge_purge_def tables_def Let_def)

lemma mark_tables:
  "viz_roles (markAndPurge_mark F t d) =
     (if F (Mark Roles) then viz_roles d else mark_rows t (viz_roles d))"
  "viz_resources (markAndPurge_mark F t d) =
     (if F (Mark Resources) then viz_resources d else mark_rows t (viz_resources d))"
  "viz_roles_resources (markAndPurge_mark F t d) =
     (if F (Mark Associations) then viz_roles_resources d
      else mark_rows t (viz_roles_resources d))"
  "viz_roles_parents (markAndPurge_mark F t d) = viz_roles_parents d"
  by (simp_all add: markAndPurge_mark_unfold Let_def)

lemma purge_tables:
  "viz_roles (markAndPurge_purge F t d) =
     (if F (Purge Roles) then viz_roles d else purge_rows t (viz_roles d))"
  "viz_resources (markAndPurge_purge F t d) =
     (if F (Purge Resources) then viz_resources d else purge_rows t (viz_resources d))"
  "viz_roles_resources (markAndPurge_purge F t d) =
     (if F (Purge Associations) then viz_roles_resources d
      else purge_rows t (viz_roles_resources d))"
  "viz_roles_parents (markAndPurge_purge F t d) =
     (if F (Purge Roles) then viz_roles_parents d
      else {(child_dn, parent_dn) \<in> viz_roles_parents d.
              \<not> role_purged t d child_dn \<and> \<not> role_purged t d parent_dn})"
  by (simp_all add: markAndPurge_purge_unfold Let_def)

lemma mark_rows_frame:
  "rel_option (\<lambda>r r'. r' = r\<lparr>is_deleted := is_deleted r'\<rparr>) (rows dn) (mark_rows t rows dn)"
  by (cases "rows dn") (simp_all add: mark_rows_def)

lemma mark_rows_updated_at:
  "map_option updated_at (mark_rows t rows dn) = map_option updated_at (rows dn)"
  by (cases "rows dn") (simp_all add: mark_rows_def)

lemma rel_option_frame_refl:
  "rel_option (\<lambda>r r'. r' = r\<lparr>is_deleted := is_deleted r'\<rparr>)
     (x :: ('a lifecycle_scheme) option) x"
  by (cases x) simp_all

lemma lifecycle_row:
  "purge_rows p (mark_rows t rows) dn =
     (case rows dn of
        None \<Rightarrow> None
      | Some r \<Rightarrow>
          if is_deleted r \<or> updated_at r < t
          then (if updated_at r < p then None else Some (r\<lparr>is_deleted := True\<rparr>))
          else Some r)"
  by (cases "rows dn") (auto simp: purge_rows_def mark_rows_def purged_def)

text \<open>
  C10. The marking loop of the lifecycle pass, whichever of its statements fail, leaves
  \<open>viz_roles_parents\<close> alone and changes no column but \<open>is_deleted\<close> in any row of the
  three entity tables; in particular every \<open>updated_at\<close> is as before. So whether the
  pass then deletes a row is decided by the \<open>updated_at\<close> the row had before the pass,
  that is, by when it was last upserted, not by when it was marked.
\<close>

theorem mark_changes_only_is_deleted:
  "viz_roles_parents (markAndPurge_mark F t d) = viz_roles_parents d
   \<and> rel_option (\<lambda>r r'. r' = r\<lparr>is_deleted := is_deleted r'\<rparr>)
        (viz_roles d dn) (viz_roles (markAndPurge_mark F t d) dn)
   \<and> rel_option (\<lambda>r r'. r' = r\<lparr>is_deleted := is_deleted r'\<rparr>)
        (viz_resources d dn) (viz_resources (markAndPurge_mark F t d) dn)
   \<and> rel_option (\<lambda>r r'. r' = r\<lparr>is_deleted := is_deleted r'\<rparr>)
        (viz_roles_resources d dn) (viz_roles_resources (markAndPurge_mark F t d) dn)
   \<and> map_option updated_at (viz_roles (markAndPurge_mark F t d) dn)
        = map_option updated_at (viz_roles d dn)
   \<and> map_option updated_at (viz_resources (markAndPurge_mark F t d) dn)
        = map_option updated_at (viz_resources d dn)
   \<and> map_option updated_at (viz_roles_resources (markAndPurge_mark F t d) dn)
        = map_option updated_at (viz_roles_resources d dn)
   \<and> viz_roles (markAndPurge no_faults loc d ts days) dn =
       (case viz_roles d dn of
          None \<Rightarrow> None
        | Some r \<Rightarrow>
            if is_deleted r \<or> updated_at r < Format_RFC3339 ts
            then (if updated_at r < Format_RFC3339 (AddDate_days loc ts (- days)) then None
                  else Some (r\<lparr>is_deleted := True\<rparr>))
            else Some r)"
  by (simp add: mark_tables purge_tables mark_rows_frame mark_rows_updated_at
      rel_option_frame_refl markAndPurge_def lifecycle_row no_faults_def)

theorem mark_changes_only_is_deleted_witness:
  "viz_roles (markAndPurge_mark no_faults 5000000000
       (empty_db\<lparr>viz_roles := [''R1'' \<mapsto> sample_role 0 1000000000 False]\<rparr>)) ''R1''
     = Some (sample_role 0 1000000000 True)
   \<and> viz_roles (markAndPurge no_faults UTC
       (empty_db\<lparr>viz_roles := [''R1'' \<mapsto> sample_role 0 1000000000 False]\<rparr>) 5000000000 7) ''R1''
     = Some (sample_role 0 1000000000 True)"
  using mark_changes_only_is_deleted [where F = no_faults and t = 5000000000
      and d = "empty_db\<lparr>viz_roles := [''R1'' \<mapsto> sample_role 0 1000000000 False]\<rparr>"
      and dn = "''R1''" and loc = UTC and ts = 5000000000 and days = 7]
  by (simp add: sample_role_def Format_RFC3339_def AddDate_days_UTC mark_tables
      mark_rows_def no_faults_def)

section \<open>The role synchronizer, loop by loop\<close>

lemma localizedJSON_total:
  "localizedJSON lib s = Inr (json_Marshal_map lib (localized_spec s))"
  by (simp add: localizedJSON_def parseLocalizedAttributes_total)

lemma syncRoles_phase1_Cons:
  "syncRoles_phase1 F lib t i (entry # entries) w =
     (if F (Upsert Roles i) then Inl (RowFailed i)
      else syncRoles_phase1 F lib t (Suc i) entries (role_entry_upsert lib t entry w))"
  by (simp add: localizedJSON_total role_entry_upsert_def upsert_viz_roles_def role_update_def
      split: option.splits)

declare syncRoles_phase1.simps(2) [simp del]

lemma role_update_absorb [simp]:
  "role_update lib t e (role_update lib t' e' r) = role_update lib t e r"
  by (simp add: role_update_def)

lemma role_update_lifecycle [simp]:
  "created_at (role_update lib t e r) = created_at r"
  "updated_at (role_update lib t e r) = t"
  "is_deleted (role_update lib t e r) = False"
  by (simp_all add: role_update_def)

lemma role_update_restamp:
  "(role_update lib t e r)\<lparr>updated_at := t'\<rparr> = role_update lib t' e r"
  by (simp add: role_update_def)

lemma role_entry_upsert_tables [simp]:
  "viz_roles_parents (role_entry_upsert lib t e w) = viz_roles_parents w"
  "viz_resources (role_entry_upsert lib t e w) = viz_resources w"
  "viz_roles_resources (role_entry_upsert lib t e w) = viz_roles_resources w"
  by (simp_all add: role_entry_upsert_def)

lemma role_entry_upsert_other:
  "dn \<noteq> DN e \<Longrightarrow> viz_roles (role_entry_upsert lib t e w) dn = viz_roles w dn"
  by (simp add: role_entry_upsert_def)

lemma role_entry_upsert_same:
  "\<exists>r0. viz_roles (role_entry_upsert lib t e w) (DN e) = Some (role_update lib t e r0)
     \<and> created_at r0 = (case viz_roles w (DN e) of None \<Rightarrow> t | Some r \<Rightarrow> created_at r)"
  by (cases "viz_roles w (DN e)") (auto simp: role_entry_upsert_def)

lemma role_entry_upsert_absorb:
  "viz_roles w (DN e) = Some (role_update lib ta ea r0) \<Longrightarrow>
   viz_roles (role_entry_upsert lib t e w) (DN e) = Some (role_update lib t e r0)"
  by (simp add: role_entry_upsert_def)

lemma syncRoles_phase1_fault:
  "k < length es \<Longrightarrow> F (Upsert Roles (i + k)) \<Longrightarrow> \<exists>e. syncRoles_phase1 F lib t i es w = Inl e"
proof (induction es arbitrary: i k w)
  case Nil
  then show ?case by simp
next
  case (Cons a es)
  show ?case
  proof (cases k)
    case 0
    with Cons.prems show ?thesis by (simp add: syncRoles_phase1_Cons)
  next
    case (Suc k')
    with Cons.prems have "k' < length es" "F (Upsert Roles (Suc i + k'))" by simp_all
    from Cons.IH [OF this] show ?thesis by (simp add: syncRoles_phase1_Cons)
  qed
qed

lemma syncRoles_phase1_no_fault:
  "(\<forall>k<length es. \<not> F (Upsert Roles (i + k))) \<Longrightarrow> \<exists>w'. syncRoles_phase1 F lib t i es w = Inr w'"
proof (induction es arbitrary: i w)
  case Nil
  then show ?case by simp
next
  case (Cons a es)
  from Cons.prems have "\<not> F (Upsert Roles i)" by force
  moreover from Cons.prems have "\<forall>k<length es. \<not> F (Upsert Roles (Suc i + k))" by force
  ultimately show ?case using Cons.IH by (simp add: syncRoles_phase1_Cons)
qed

lemma syncRoles_phase1_frame:
  "syncRoles_phase1 F lib t i es w = Inr w' \<Longrightarrow>
     viz_roles_parents w' = viz_roles_parents w \<and> viz_resources w' = viz_resources w
     \<and> viz_roles_resources w' = viz_roles_resources w
     \<and> (dn \<notin> DN ` set es \<longrightarrow> viz_roles w' dn = viz_roles w dn)"
proof (induction es arbitrary: i w)
  case Nil
  then show ?case by simp
next
  case (Cons a es)
  then show ?case
    by (auto simp: syncRoles_phase1_Cons role_entry_upsert_other split: if_splits)
qed

lemma syncRoles_phase1_absorb:
  "syncRoles_phase1 F lib t i es w = Inr w' \<Longrightarrow> dn \<in> DN ` set es \<Longrightarrow>
   viz_roles w dn = Some (role_update lib ta ea r0) \<Longrightarrow>
   viz_roles w' dn = Some (role_update lib t (last (filter (\<lambda>e. DN e = dn) es)) r0)"
proof (induction es arbitrary: i w ta ea)
  case Nil
  then show ?case by simp
next
  case (Cons a es)
  from Cons.prems(1) have nf: "\<not> F (Upsert Roles i)"
    and rest: "syncRoles_phase1 F lib t (Suc i) es (role_entry_upsert lib t a w) = Inr w'"
    by (auto simp: syncRoles_phase1_Cons split: if_splits)
  show ?case
  proof (cases "DN a = dn")
    case True
    with Cons.prems(3)
    have w1: "viz_roles (role_entry_upsert lib t a w) dn = Some (role_update lib t a r0)"
      using role_entry_upsert_absorb [of w a lib ta ea r0 t] by simp
    show ?thesis
    proof (cases "dn \<in> DN ` set es")
      case in_es: True
      then have "filter (\<lambda>e. DN e = dn) es \<noteq> []"
        by (auto simp: filter_empty_conv)
      with Cons.IH [OF rest in_es w1] True show ?thesis by simp
    next
      case False
      then have "filter (\<lambda>e. DN e = dn) es = []"
        by (auto simp: filter_empty_conv)
      moreover from syncRoles_phase1_frame [OF rest, of dn] False
      have "viz_roles w' dn = viz_roles (role_entry_upsert lib t a w) dn" by simp
      ultimately show ?thesis using w1 True by simp
    qed
  next
    case False
    with Cons.prems(2) have in_es: "dn \<in> DN ` set es" by auto
    from False Cons.prems(3)
    have w1: "viz_roles (role_entry_upsert lib t a w) dn = Some (role_update lib ta ea r0)"
      by (simp add: role_entry_upsert_other)
    from Cons.IH [OF rest in_es w1] False show ?thesis by simp
  qed
qed

lemma syncRoles_phase1_observed:
  "syncRoles_phase1 F lib t i es w = Inr w' \<Longrightarrow> dn \<in> DN ` set es \<Longrightarrow>
   \<exists>r0. viz_roles w' dn = Some (role_update lib t (last (filter (\<lambda>e. DN e = dn) es)) r0)
      \<and> created_at r0 = (case viz_roles w dn of None \<Rightarrow> t | Some r \<Rightarrow> created_at r)"
proof (induction es arbitrary: i w)
  case Nil
  then show ?case by simp
next
  case (Cons a es)
  from Cons.prems(1) have nf: "\<not> F (Upsert Roles i)"
    and rest: "syncRoles_phase1 F lib t (Suc i) es (role_entry_upsert lib t a w) = Inr w'"
    by (auto simp: syncRoles_phase1_Cons split: if_splits)
  show ?case
  proof (cases "DN a = dn")
    case True
    from role_entry_upsert_same [of lib t a w] True obtain r0 where
      w1: "viz_roles (role_entry_upsert lib t a w) dn = Some (role_update lib t a r0)"
      and c0: "created_at r0 = (case viz_roles w dn of None \<Rightarrow> t | Some r \<Rightarrow> created_at r)"
      by auto
    show ?thesis
    proof (cases "dn \<in> DN ` set es")
      case in_es: True
      then have "filter (\<lambda>e. DN e = dn) es \<noteq> []"
        by (auto simp: filter_empty_conv)
      with syncRoles_phase1_absorb [OF rest in_es w1] True c0 show ?thesis by auto
    next
      case False
      then have "filter (\<lambda>e. DN e = dn) es = []"
        by (auto simp: filter_empty_conv)
      moreover from syncRoles_phase1_frame [OF rest, of dn] False
      have "viz_roles w' dn = viz_roles (role_entry_upsert lib t a w) dn" by simp
      ultimately show ?thesis using w1 True c0 by auto
    qed
  next
    case False
    with Cons.prems(2) have in_es: "dn \<in> DN ` set es" by auto
    from Cons.IH [OF rest in_es] False show ?thesis
      by (simp add: role_entry_upsert_other)
  qed
qed

subsection \<open>The rebuild of the parent relation\<close>

lemma insert_parents_Inr:
  "insert_parents F child i j ps w = Inr w' \<Longrightarrow>
     w' = w\<lparr>viz_roles_parents := viz_roles_parents w \<union> Pair child ` set ps\<rparr>
     \<and> (\<forall>k<length ps. \<not> F (InsertParent i (j + k)))
     \<and> (\<forall>p\<in>set ps. viz_roles w child \<noteq> None \<and> viz_roles w p \<noteq> None)"
proof (induction ps arbitrary: j w)
  case Nil
  then show ?case by simp
next
  case (Cons p ps)
  from Cons.prems have nf: "\<not> F (InsertParent i j)"
    and fk: "viz_roles w child \<noteq> None" "viz_roles w p \<noteq> None"
    by (auto simp: insert_viz_roles_parents_def split: if_splits option.splits)
  define w1 where "w1 = w\<lparr>viz_roles_parents := insert (child, p) (viz_roles_parents w)\<rparr>"
  from Cons.prems nf fk have rest: "insert_parents F child i (Suc j) ps w1 = Inr w'"
    by (simp add: insert_viz_roles_parents_def w1_def)
  from Cons.IH [OF rest]
  have 1: "w' = w1\<lparr>viz_roles_parents := viz_roles_parents w1 \<union> Pair child ` set ps\<rparr>"
    and 2: "\<forall>k<length ps. \<not> F (InsertParent i (Suc j + k))"
    and 3: "\<forall>p\<in>set ps. viz_roles w1 child \<noteq> None \<and> viz_roles w1 p \<noteq> None"
    by auto
  have "\<forall>k<length (p # ps). \<not> F (InsertParent i (j + k))"
  proof (intro allI impI)
    fix k assume "k < length (p # ps)"
    then show "\<not> F (InsertParent i (j + k))"
      using nf 2 by (cases k) auto
  qed
  moreover from 1 have "w' = w\<lparr>viz_roles_parents := viz_roles_parents w \<union> Pair child ` set (p # ps)\<rparr>"
    by (simp add: w1_def)
  moreover from 3 fk have "\<forall>q\<in>set (p # ps). viz_roles w child \<noteq> None \<and> viz_roles w q \<noteq> None"
    by (simp add: w1_def)
  ultimately show ?case by blast
qed

lemma insert_parents_ok:
  "(\<forall>k<length ps. \<not> F (InsertParent i (j + k))) \<Longrightarrow>
   (\<forall>p\<in>set ps. viz_roles w child \<noteq> None \<and> viz_roles w p \<noteq> None) \<Longrightarrow>
   insert_parents F child i j ps w
     = Inr (w\<lparr>viz_roles_parents := viz_roles_parents w \<union> Pair child ` set ps\<rparr>)"
proof (induction ps arbitrary: j w)
  case Nil
  then show ?case by simp
next
  case (Cons p ps)
  from Cons.prems(1) have nf: "\<not> F (InsertParent i j)" by force
  from Cons.prems(1) have nfs: "\<forall>k<length ps. \<not> F (InsertParent i (Suc j + k))" by force
  define w1 where "w1 = w\<lparr>viz_roles_parents := insert (child, p) (viz_roles_parents w)\<rparr>"
  from Cons.prems(2) have fk: "\<forall>q\<in>set ps. viz_roles w1 child \<noteq> None \<and> viz_roles w1 q \<noteq> None"
    by (simp add: w1_def)
  from Cons.IH [OF nfs fk] nf Cons.prems(2) show ?case
    by (simp add: insert_viz_roles_parents_def w1_def)
qed

lemma parent_pairs_Cons:
  "parent_pairs (e # es) =
     Pair (DN e) ` set (GetAttributeValues e ''nrfParentRoles'') \<union> parent_pairs es"
  by (simp add: parent_pairs_def)

lemma syncRoles_phase2_Inr:
  "syncRoles_phase2 F i es w = Inr w' \<Longrightarrow>
     w' = w\<lparr>viz_roles_parents := viz_roles_parents w \<union> parent_pairs es\<rparr>
     \<and> (\<forall>k<length es. \<forall>j<length (GetAttributeValues (es ! k) ''nrfParentRoles'').
            \<not> F (InsertParent (i + k) j))
     \<and> (\<forall>x\<in>parent_pairs es. viz_roles w (fst x) \<noteq> None \<and> viz_roles w (snd x) \<noteq> None)"
proof (induction es arbitrary: i w)
  case Nil
  then show ?case by (simp add: parent_pairs_def)
next
  case (Cons e es)
  from Cons.prems obtain w1 where
    first: "insert_parents F (DN e) i 0 (GetAttributeValues e ''nrfParentRoles'') w = Inr w1"
    and rest: "syncRoles_phase2 F (Suc i) es w1 = Inr w'"
    by (auto split: sum.splits)
  from insert_parents_Inr [OF first]
  have a1: "w1 = w\<lparr>viz_roles_parents :=
               viz_roles_parents w \<union> Pair (DN e) ` set (GetAttributeValues e ''nrfParentRoles'')\<rparr>"
    and a2: "\<forall>k<length (GetAttributeValues e ''nrfParentRoles''). \<not> F (InsertParent i k)"
    and a3: "\<forall>p\<in>set (GetAttributeValues e ''nrfParentRoles'').
               viz_roles w (DN e) \<noteq> None \<and> viz_roles w p \<noteq> None"
    by auto
  from Cons.IH [OF rest]
  have b1: "w' = w1\<lparr>viz_roles_parents := viz_roles_parents w1 \<union> parent_pairs es\<rparr>"
    and b2: "\<forall>k<length es. \<forall>j<length (GetAttributeValues (es ! k) ''nrfParentRoles'').
            \<not> F (InsertParent (Suc i + k) j)"
    and b3: "\<forall>x\<in>parent_pairs es. viz_roles w1 (fst x) \<noteq> None \<and> viz_roles w1 (snd x) \<noteq> None"
    by auto
  have "w' = w\<lparr>viz_roles_parents := viz_roles_parents w \<union> parent_pairs (e # es)\<rparr>"
    using a1 b1 by (simp add: parent_pairs_Cons Un_assoc)
  moreover have "\<forall>k<length (e # es). \<forall>j<length (GetAttributeValues ((e # es) ! k) ''nrfParentRoles'').
            \<not> F (InsertParent (i + k) j)"
  proof (intro allI impI)
    fix k j assume "k < length (e # es)"
      and "j < length (GetAttributeValues ((e # es) ! k) ''nrfParentRoles'')"
    then show "\<not> F (InsertParent (i + k) j)"
      using a2 b2 by (cases k) auto
  qed
  moreover have "\<forall>x\<in>parent_pairs (e # es). viz_roles w (fst x) \<noteq> None \<and> viz_roles w (snd x) \<noteq> None"
    using a3 b3 a1 by (auto simp: parent_pairs_Cons)
  ultimately show ?case by blast
qed

lemma syncRoles_phase2_ok:
  "(\<forall>k<length es. \<forall>j<length (GetAttributeValues (es ! k) ''nrfParentRoles'').
            \<not> F (InsertParent (i + k) j)) \<Longrightarrow>
   (\<forall>x\<in>parent_pairs es. viz_roles w (fst x) \<noteq> None \<and> viz_roles w (snd x) \<noteq> None) \<Longrightarrow>
   syncRoles_phase2 F i es w = Inr (w\<lparr>viz_roles_parents := viz_roles_parents w \<union> parent_pairs es\<rparr>)"
proof (induction es arbitrary: i w)
  case Nil
  then show ?case by (simp add: parent_pairs_def)
next
  case (Cons e es)
  define w1 where "w1 = w\<lparr>viz_roles_parents :=
               viz_roles_parents w \<union> Pair (DN e) ` set (GetAttributeValues e ''nrfParentRoles'')\<rparr>"
  from Cons.prems(1) have "\<forall>k<length (GetAttributeValues e ''nrfParentRoles''). \<not> F (InsertParent i (0 + k))"
    by force
  moreover have "\<forall>p\<in>set (GetAttributeValues e ''nrfParentRoles'').
               viz_roles w (DN e) \<noteq> None \<and> viz_roles w p \<noteq> None"
  proof
    fix p assume "p \<in> set (GetAttributeValues e ''nrfParentRoles'')"
    then have "(DN e, p) \<in> parent_pairs (e # es)"
      by (simp add: parent_pairs_Cons)
    with Cons.prems(2) show "viz_roles w (DN e) \<noteq> None \<and> viz_roles w p \<noteq> None"
      by (metis fst_conv snd_conv)
  qed
  ultimately have first:
    "insert_parents F (DN e) i 0 (GetAttributeValues e ''nrfParentRoles'') w = Inr w1"
    unfolding w1_def by (rule insert_parents_ok)
  from Cons.prems(1)
  have "\<forall>k<length es. \<forall>j<length (GetAttributeValues (es ! k) ''nrfParentRoles'').
            \<not> F (InsertParent (Suc i + k) j)"
    by force
  moreover from Cons.prems(2)
  have "\<forall>x\<in>parent_pairs es. viz_roles w1 (fst x) \<noteq> None \<and> viz_roles w1 (snd x) \<noteq> None"
    by (auto simp: parent_pairs_Cons w1_def)
  ultimately have "syncRoles_phase2 F (Suc i) es w1
      = Inr (w1\<lparr>viz_roles_parents := viz_roles_parents w1 \<union> parent_pairs es\<rparr>)"
    by (rule Cons.IH)
  with first show ?case
    by (simp add: w1_def parent_pairs_Cons Un_assoc)
qed

subsection \<open>The transaction as a whole\<close>

lemma syncRoles_phase1_error:
  "syncRoles_phase1 F lib t i es w = Inl e \<Longrightarrow> \<exists>k<length es. e = RowFailed (i + k) \<and> F (Upsert Roles (i + k))"
proof (induction es arbitrary: i w)
  case Nil
  then show ?case by simp
next
  case (Cons a es)
  show ?case
  proof (cases "F (Upsert Roles i)")
    case True
    with Cons.prems show ?thesis by (auto simp: syncRoles_phase1_Cons)
  next
    case False
    with Cons.prems have "syncRoles_phase1 F lib t (Suc i) es (role_entry_upsert lib t a w) = Inl e"
      by (simp add: syncRoles_phase1_Cons)
    from Cons.IH [OF this] obtain k where "k < length es" "e = RowFailed (Suc i + k)"
      "F (Upsert Roles (Suc i + k))" by auto
    then have "Suc k < length (a # es) \<and> e = RowFailed (i + Suc k) \<and> F (Upsert Roles (i + Suc k))"
      by simp
    then show ?thesis by blast
  qed
qed

lemma insert_parents_error:
  "insert_parents F child i j ps w = Inl e \<Longrightarrow> \<exists>k. e = ParentFailed i k"
  by (induction ps arbitrary: j w) (auto split: if_splits option.splits)

lemma syncRoles_phase2_error:
  "syncRoles_phase2 F i es w = Inl e \<Longrightarrow> \<exists>k<length es. \<exists>j. e = ParentFailed (i + k) j"
proof (induction es arbitrary: i w)
  case Nil
  then show ?case by simp
next
  case (Cons a es)
  show ?case
  proof (cases "insert_parents F (DN a) i 0 (GetAttributeValues a ''nrfParentRoles'') w")
    case (Inl e')
    with Cons.prems have "e' = e" by simp
    with Inl insert_parents_error [of F "DN a" i 0 _ w e] obtain j where "e = ParentFailed i j"
      by auto
    then have "0 < length (a # es) \<and> e = ParentFailed (i + 0) j" by simp
    then show ?thesis by blast
  next
    case (Inr w1)
    with Cons.prems have "syncRoles_phase2 F (Suc i) es w1 = Inl e" by simp
    from Cons.IH [OF this] obtain k j where "k < length es" "e = ParentFailed (Suc i + k) j"
      by auto
    then have "Suc k < length (a # es) \<and> e = ParentFailed (i + Suc k) j" by simp
    then show ?thesis by blast
  qed
qed

lemma syncRoles_result:
  assumes "syncRoles F lib (Inr es) ts d = (log, d')"
  shows "(log \<noteq> None \<and> log \<noteq> Some Panicked \<and> d' = d)
     \<or> (log = None \<and> \<not> F (Begin Roles) \<and> \<not> F (Prepare Roles) \<and> \<not> F DeleteParents \<and> \<not> F PrepareParents
        \<and> (\<exists>w1. syncRoles_phase1 F lib (Format_RFC3339 ts) 0 es d = Inr w1
              \<and> inserts_ok F es \<and> foreign_keys_ok es w1
              \<and> d' = (if F (Commit Roles) then d else w1\<lparr>viz_roles_parents := parent_pairs es\<rparr>)))"
proof (cases "syncRoles_phase1 F lib (Format_RFC3339 ts) 0 es d")
  case (Inl e)
  from syncRoles_phase1_error [OF Inl] have "e \<noteq> Panicked" by auto
  with assms Inl show ?thesis
    by (auto simp: syncRoles_def split: if_splits)
next
  case (Inr w1)
  show ?thesis
  proof (cases "syncRoles_phase2 F 0 es (delete_viz_roles_parents w1)")
    case (Inl e)
    from syncRoles_phase2_error [OF Inl] have "e \<noteq> Panicked" by auto
    with assms Inr Inl show ?thesis
      by (auto simp: syncRoles_def split: if_splits)
  next
    case w2: (Inr w2)
    from syncRoles_phase2_Inr [OF w2]
    have "w2 = w1\<lparr>viz_roles_parents := parent_pairs es\<rparr>" "inserts_ok F es" "foreign_keys_ok es w1"
      by (simp_all add: delete_viz_roles_parents_def inserts_ok_def foreign_keys_ok_def)
    with assms Inr w2 show ?thesis
      by (auto simp: syncRoles_def split: if_splits)
  qed
qed

lemma syncRoles_commits:
  assumes "\<not> F (Begin Roles)" "\<not> F (Prepare Roles)" "\<not> F DeleteParents" "\<not> F PrepareParents"
    and "syncRoles_phase1 F lib (Format_RFC3339 ts) 0 es d = Inr w1"
    and "inserts_ok F es" "foreign_keys_ok es w1"
  shows "syncRoles F lib (Inr es) ts d
     = (None, if F (Commit Roles) then d else w1\<lparr>viz_roles_parents := parent_pairs es\<rparr>)"
proof -
  have "syncRoles_phase2 F 0 es (delete_viz_roles_parents w1)
     = Inr ((delete_viz_roles_parents w1)\<lparr>viz_roles_parents :=
          viz_roles_parents (delete_viz_roles_parents w1) \<union> parent_pairs es\<rparr>)"
    using assms(6,7)
    by (intro syncRoles_phase2_ok)
       (simp_all add: inserts_ok_def foreign_keys_ok_def delete_viz_roles_parents_def)
  with assms show ?thesis
    by (simp add: syncRoles_def delete_viz_roles_parents_def)
qed

lemma syncRoles_phase1_dom:
  assumes "syncRoles_phase1 F lib t i es w = Inr w'"
  shows "viz_roles w' dn \<noteq> None \<longleftrightarrow> viz_roles w dn \<noteq> None \<or> dn \<in> DN ` set es"
proof (cases "dn \<in> DN ` set es")
  case True
  with syncRoles_phase1_observed [OF assms True] show ?thesis by auto
next
  case False
  with syncRoles_phase1_frame [OF assms, of dn] show ?thesis by simp
qed

section \<open>Running the role synchronizer twice\<close>

lemma same_except_updated_at_refl: "same_except_updated_at d d"
  unfolding same_except_updated_at_def
proof (intro conjI allI)
  fix dn show "rel_option (\<lambda>r r'. r' = r\<lparr>updated_at := updated_at r'\<rparr>) (viz_roles d dn) (viz_roles d dn)"
    by (cases "viz_roles d dn") simp_all
qed simp

lemma foreign_keys_ok_dom:
  "(\<And>dn. viz_roles w dn \<noteq> None \<Longrightarrow> viz_roles w' dn \<noteq> None) \<Longrightarrow>
   foreign_keys_ok es w \<Longrightarrow> foreign_keys_ok es w'"
  unfolding foreign_keys_ok_def by blast

text \<open>
  C4. Take the store after a run of the role synchronizer in which no statement was
  refused for a reason of the store's own, and run the synchronizer again on the same
  search result (with any timestamp, and whatever statements fail this time). The
  second run leaves \<open>viz_roles_parents\<close> as the first run left it, and every row of
  \<open>viz_roles\<close> too, \<open>created_at\<close> and \<open>is_deleted\<close> included, but for \<open>updated_at\<close>;
  it adds and removes no row.
\<close>

theorem syncRoles_twice:
  "same_except_updated_at
     (snd (syncRoles no_faults lib search t1 d))
     (snd (syncRoles F lib search t2 (snd (syncRoles no_faults lib search t1 d))))"
proof (cases search)
  case (Inl err)
  then show ?thesis
    by (simp add: syncRoles_def same_except_updated_at_refl)
next
  case (Inr es)
  define T1 where "T1 = Format_RFC3339 t1"
  define T2 where "T2 = Format_RFC3339 t2"
  define d1 where "d1 = snd (syncRoles no_faults lib search t1 d)"
  define d2 where "d2 = snd (syncRoles F lib search t2 d1)"
  obtain w1 where w1: "syncRoles_phase1 no_faults lib T1 0 es d = Inr w1"
    using syncRoles_phase1_no_fault [of es no_faults 0 lib T1 d] by (auto simp: no_faults_def)
  obtain log2 where r2: "syncRoles F lib (Inr es) t2 d1 = (log2, d2)"
    unfolding d2_def Inr by (cases "syncRoles F lib (Inr es) t2 d1") simp
  obtain log1 where r1: "syncRoles no_faults lib (Inr es) t1 d = (log1, d1)"
    unfolding d1_def Inr by (cases "syncRoles no_faults lib (Inr es) t1 d") simp
  have d1_dom: "viz_roles d1 dn \<noteq> None \<Longrightarrow> viz_roles w1 dn \<noteq> None" for dn
    using syncRoles_result [OF r1] w1 syncRoles_phase1_dom [OF w1, of dn]
    by (auto simp: T1_def no_faults_def)
  show ?thesis
  proof (cases "d2 = d1")
    case True
    then show ?thesis
      unfolding d1_def [symmetric] d2_def [symmetric] by (simp add: same_except_updated_at_refl)
  next
    case False
    with syncRoles_result [OF r2] obtain w2 where
      w2: "syncRoles_phase1 F lib T2 0 es d1 = Inr w2"
      and fk2: "foreign_keys_ok es w2"
      and d2: "d2 = w2\<lparr>viz_roles_parents := parent_pairs es\<rparr>"
      by (auto simp: T2_def split: if_splits)
    have "viz_roles w2 dn \<noteq> None \<Longrightarrow> viz_roles w1 dn \<noteq> None" for dn
      using syncRoles_phase1_dom [OF w2, of dn] syncRoles_phase1_dom [OF w1, of dn] d1_dom [of dn]
      by auto
    with fk2 have fk1: "foreign_keys_ok es w1"
      by (rule foreign_keys_ok_dom [rotated])
    have "syncRoles no_faults lib (Inr es) t1 d = (None, w1\<lparr>viz_roles_parents := parent_pairs es\<rparr>)"
      using syncRoles_commits [of no_faults lib t1 es d w1] w1 fk1
      by (simp add: T1_def no_faults_def inserts_ok_def)
    with r1 have d1: "d1 = w1\<lparr>viz_roles_parents := parent_pairs es\<rparr>" by simp
    have "rel_option (\<lambda>r r'. r' = r\<lparr>updated_at := updated_at r'\<rparr>) (viz_roles d1 dn) (viz_roles d2 dn)"
      for dn
    proof (cases "dn \<in> DN ` set es")
      case True
      from syncRoles_phase1_observed [OF w1 True] obtain r0 where
        "viz_roles w1 dn = Some (role_update lib T1 (last (filter (\<lambda>e. DN e = dn) es)) r0)"
        by auto
      then have a: "viz_roles d1 dn = Some (role_update lib T1 (last (filter (\<lambda>e. DN e = dn) es)) r0)"
        by (simp add: d1)
      from syncRoles_phase1_absorb [OF w2 True a]
      have "viz_roles d2 dn = Some (role_update lib T2 (last (filter (\<lambda>e. DN e = dn) es)) r0)"
        by (simp add: d2)
      with a show ?thesis
        by (simp add: role_update_restamp)
    next
      case False
      with syncRoles_phase1_frame [OF w2, of dn] have "viz_roles d2 dn = viz_roles d1 dn"
        by (simp add: d2)
      then show ?thesis
        by (cases "viz_roles d1 dn") simp_all
    qed
    moreover have "viz_roles_parents d2 = viz_roles_parents d1"
      by (simp add: d1 d2)
    ultimately show ?thesis
      unfolding d1_def [symmetric] d2_def [symmetric] same_except_updated_at_def by simp
  qed
qed

theorem syncRoles_twice_witness:
  "same_except_updated_at
     (snd (syncRoles no_faults sample_codec (Inr two_roles) 5000000000 empty_db))
     (snd (syncRoles no_faults sample_codec (Inr two_roles) 9000000000
        (snd (syncRoles no_faults sample_codec (Inr two_roles) 5000000000 empty_db))))"
  by (rule syncRoles_twice)

section \<open>The resource and the association synchronizer, loop by loop\<close>

subsection \<open>Resources\<close>

lemma syncResources_loop_Cons:
  "syncResources_loop F lib t i (entry # entries) w =
     (if F (Upsert Resources i) then Inl (RowFailed i)
      else syncResources_loop F lib t (Suc i) entries (resource_entry_upsert lib t entry w))"
  by (simp add: localizedJSON_total resource_entry_upsert_def)

declare syncResources_loop.simps(2) [simp del]

lemma resource_entry_upsert_tables [simp]:
  "viz_roles (resource_entry_upsert lib t e w) = viz_roles w"
  "viz_roles_parents (resource_entry_upsert lib t e w) = viz_roles_parents w"
  "viz_roles_resources (resource_entry_upsert lib t e w) = viz_roles_resources w"
  by (simp_all add: resource_entry_upsert_def upsert_viz_resources_def)

lemma upsert_viz_resources_row:
  "\<exists>r'. viz_resources (upsert_viz_resources p1 p2 p3 p4 p5 e p14 p15 p16 d) p1 = Some r'
      \<and> created_at r' = (case viz_resources d p1 of None \<Rightarrow> p14 | Some r \<Rightarrow> created_at r)
      \<and> updated_at r' = p15
      \<and> is_deleted r' = (case viz_resources d p1 of None \<Rightarrow> p16 | Some r \<Rightarrow> False)"
  by (cases "viz_resources d p1") (simp_all add: upsert_viz_resources_def)

lemma resource_entry_upsert_other:
  "dn \<noteq> DN e \<Longrightarrow> viz_resources (resource_entry_upsert lib t e w) dn = viz_resources w dn"
  by (simp add: resource_entry_upsert_def upsert_viz_resources_def)

lemma resource_entry_upsert_same:
  "\<exists>r'. viz_resources (resource_entry_upsert lib t e w) (DN e) = Some r'
      \<and> created_at r' = (case viz_resources w (DN e) of None \<Rightarrow> t | Some r \<Rightarrow> created_at r)
      \<and> updated_at r' = t \<and> \<not> is_deleted r'"
  by (cases "viz_resources w (DN e)")
     (simp_all add: resource_entry_upsert_def upsert_viz_resources_def)

lemma syncResources_loop_error:
  "syncResources_loop F lib t i es w = Inl e \<Longrightarrow>
     \<exists>k<length es. e = RowFailed (i + k) \<and> F (Upsert Resources (i + k))"
proof (induction es arbitrary: i w)
  case Nil
  then show ?case by simp
next
  case (Cons a es)
  show ?case
  proof (cases "F (Upsert Resources i)")
    case True
    with Cons.prems show ?thesis by (auto simp: syncResources_loop_Cons)
  next
    case False
    with Cons.prems
    have "syncResources_loop F lib t (Suc i) es (resource_entry_upsert lib t a w) = Inl e"
      by (simp add: syncResources_loop_Cons)
    from Cons.IH [OF this] obtain k where "k < length es" "e = RowFailed (Suc i + k)"
      "F (Upsert Resources (Suc i + k))" by auto
    then have "Suc k < length (a # es) \<and> e = RowFailed (i + Suc k)
        \<and> F (Upsert Resources (i + Suc k))"
      by simp
    then show ?thesis by blast
  qed
qed

lemma syncResources_loop_fault:
  "k < length es \<Longrightarrow> F (Upsert Resources (i + k)) \<Longrightarrow>
     \<exists>e. syncResources_loop F lib t i es w = Inl e"
proof (induction es arbitrary: i k w)
  case Nil
  then show ?case by simp
next
  case (Cons a es)
  show ?case
  proof (cases k)
    case 0
    with Cons.prems show ?thesis by (simp add: syncResources_loop_Cons)
  next
    case (Suc k')
    with Cons.prems have "k' < length es" "F (Upsert Resources (Suc i + k'))" by simp_all
    from Cons.IH [OF this] show ?thesis by (simp add: syncResources_loop_Cons)
  qed
qed

lemma syncResources_loop_no_fault:
  "(\<forall>k<length es. \<not> F (Upsert Resources (i + k))) \<Longrightarrow>
     \<exists>w'. syncResources_loop F lib t i es w = Inr w'"
proof (induction es arbitrary: i w)
  case Nil
  then show ?case by simp
next
  case (Cons a es)
  from Cons.prems have "\<not> F (Upsert Resources i)" by force
  moreover from Cons.prems have "\<forall>k<length es. \<not> F (Upsert Resources (Suc i + k))" by force
  ultimately show ?case using Cons.IH by (simp add: syncResources_loop_Cons)
qed

lemma syncResources_loop_rows:
  "syncResources_loop F lib t i es w = Inr w' \<Longrightarrow>
     viz_roles w' = viz_roles w \<and> viz_roles_parents w' = viz_roles_parents w
     \<and> viz_roles_resources w' = viz_roles_resources w
     \<and> (if dn \<in> DN ` set es
        then \<exists>r'. viz_resources w' dn = Some r'
               \<and> created_at r' = (case viz_resources w dn of None \<Rightarrow> t | Some r \<Rightarrow> created_at r)
               \<and> updated_at r' = t \<and> \<not> is_deleted r'
        else viz_resources w' dn = viz_resources w dn)"
proof (induction es arbitrary: i w)
  case Nil
  then show ?case by simp
next
  case (Cons a es)
  from Cons.prems
  have rest: "syncResources_loop F lib t (Suc i) es (resource_entry_upsert lib t a w) = Inr w'"
    by (auto simp: syncResources_loop_Cons split: if_splits)
  note IH = Cons.IH [OF rest]
  show ?case
  proof (cases "DN a = dn")
    case True
    from resource_entry_upsert_same [of lib t a w] True obtain r1 where
      r1: "viz_resources (resource_entry_upsert lib t a w) dn = Some r1"
        "created_at r1 = (case viz_resources w dn of None \<Rightarrow> t | Some r \<Rightarrow> created_at r)"
        "updated_at r1 = t" "\<not> is_deleted r1"
      by auto
    with IH True show ?thesis
      by (cases "dn \<in> DN ` set es") auto
  next
    case False
    with IH show ?thesis
      by (auto simp: resource_entry_upsert_other)
  qed
qed

lemma syncResources_result:
  assumes "syncResources F lib (Inr es) ts d = (log, d')"
  shows "(log \<noteq> None \<and> log \<noteq> Some Panicked \<and> d' = d)
     \<or> (log = None \<and> \<not> F (Begin Resources) \<and> \<not> F (Prepare Resources)
        \<and> (\<exists>w. syncResources_loop F lib (Format_RFC3339 ts) 0 es d = Inr w
              \<and> d' = (if F (Commit Resources) then d else w)))"
proof (cases "syncResources_loop F lib (Format_RFC3339 ts) 0 es d")
  case (Inl e)
  from syncResources_loop_error [OF Inl] have "e \<noteq> Panicked" by auto
  with assms Inl show ?thesis
    by (auto simp: syncResources_def split: if_splits)
next
  case (Inr w)
  with assms show ?thesis
    by (auto simp: syncResources_def split: if_splits)
qed

subsection \<open>Associations\<close>

lemma syncAssociations_loop_Cons:
  "syncAssociations_loop F lib t i (entry # entries) w =
     (if F (Upsert Associations i) then Inl (RowFailed i)
      else syncAssociations_loop F lib t (Suc i) entries (association_entry_upsert lib t entry w))"
  by (simp add: association_entry_upsert_def)

declare syncAssociations_loop.simps(2) [simp del]

lemma association_entry_upsert_tables [simp]:
  "viz_roles (association_entry_upsert lib t e w) = viz_roles w"
  "viz_roles_parents (association_entry_upsert lib t e w) = viz_roles_parents w"
  "viz_resources (association_entry_upsert lib t e w) = viz_resources w"
  by (simp_all add: association_entry_upsert_def upsert_viz_roles_resources_def)

lemma upsert_viz_roles_resources_row:
  "\<exists>r'. viz_roles_resources (upsert_viz_roles_resources p1 p2 p3 p4 p5 p6 p7 p8 p9 p10 p11 d) p1
        = Some r'
      \<and> created_at r' = (case viz_roles_resources d p1 of None \<Rightarrow> p9 | Some r \<Rightarrow> created_at r)
      \<and> updated_at r' = p10
      \<and> is_deleted r' = (case viz_roles_resources d p1 of None \<Rightarrow> p11 | Some r \<Rightarrow> False)
      \<and> nrfDynamicParmVals r' = p4 \<and> nrfdynamicparmvals_value_json r' = p5"
  by (cases "viz_roles_resources d p1") (simp_all add: upsert_viz_roles_resources_def)

lemma association_entry_upsert_other:
  "dn \<noteq> DN e \<Longrightarrow>
     viz_roles_resources (association_entry_upsert lib t e w) dn = viz_roles_resources w dn"
  by (simp add: association_entry_upsert_def upsert_viz_roles_resources_def)

lemma association_entry_upsert_same:
  "\<exists>r'. viz_roles_resources (association_entry_upsert lib t e w) (DN e) = Some r'
      \<and> created_at r' = (case viz_roles_resources w (DN e) of None \<Rightarrow> t | Some r \<Rightarrow> created_at r)
      \<and> updated_at r' = t \<and> \<not> is_deleted r'"
  by (cases "viz_roles_resources w (DN e)")
     (simp_all add: association_entry_upsert_def upsert_viz_roles_resources_def)

lemma syncAssociations_loop_error:
  "syncAssociations_loop F lib t i es w = Inl e \<Longrightarrow>
     \<exists>k<length es. e = RowFailed (i + k) \<and> F (Upsert Associations (i + k))"
proof (induction es arbitrary: i w)
  case Nil
  then show ?case by simp
next
  case (Cons a es)
  show ?case
  proof (cases "F (Upsert Associations i)")
    case True
    with Cons.prems show ?thesis by (auto simp: syncAssociations_loop_Cons)
  next
    case False
    with Cons.prems
    have "syncAssociations_loop F lib t (Suc i) es (association_entry_upsert lib t a w) = Inl e"
      by (simp add: syncAssociations_loop_Cons)
    from Cons.IH [OF this] obtain k where "k < length es" "e = RowFailed (Suc i + k)"
      "F (Upsert Associations (Suc i + k))" by auto
    then have "Suc k < length (a # es) \<and> e = RowFailed (i + Suc k)
        \<and> F (Upsert Associations (i + Suc k))"
      by simp
    then show ?thesis by blast
  qed
qed

lemma syncAssociations_loop_fault:
  "k < length es \<Longrightarrow> F (Upsert Associations (i + k)) \<Longrightarrow>
     \<exists>e. syncAssociations_loop F lib t i es w = Inl e"
proof (induction es arbitrary: i k w)
  case Nil
  then show ?case by simp
next
  case (Cons a es)
  show ?case
  proof (cases k)
    case 0
    with Cons.prems show ?thesis by (simp add: syncAssociations_loop_Cons)
  next
    case (Suc k')
    with Cons.prems have "k' < length es" "F (Upsert Associations (Suc i + k'))" by simp_all
    from Cons.IH [OF this] show ?thesis by (simp add: syncAssociations_loop_Cons)
  qed
qed

lemma syncAssociations_loop_no_fault:
  "(\<forall>k<length es. \<not> F (Upsert Associations (i + k))) \<Longrightarrow>
     \<exists>w'. syncAssociations_loop F lib t i es w = Inr w'"
proof (induction es arbitrary: i w)
  case Nil
  then show ?case by simp
next
  case (Cons a es)
  from Cons.prems have "\<not> F (Upsert Associations i)" by force
  moreover from Cons.prems have "\<forall>k<length es. \<not> F (Upsert Associations (Suc i + k))" by force
  ultimately show ?case using Cons.IH by (simp add: syncAssociations_loop_Cons)
qed

lemma syncAssociations_loop_rows:
  "syncAssociations_loop F lib t i es w = Inr w' \<Longrightarrow>
     viz_roles w' = viz_roles w \<and> viz_roles_parents w' = viz_roles_parents w
     \<and> viz_resources w' = viz_resources w
     \<and> (if dn \<in> DN ` set es
        then \<exists>r'. viz_roles_resources w' dn = Some r'
               \<and> created_at r'
                   = (case viz_roles_resources w dn of None \<Rightarrow> t | Some r \<Rightarrow> created_at r)
               \<and> updated_at r' = t \<and> \<not> is_deleted r'
        else viz_roles_resources w' dn = viz_roles_resources w dn)"
proof (induction es arbitrary: i w)
  case Nil
  then show ?case by simp
next
  case (Cons a es)
  from Cons.prems
  have rest: "syncAssociations_loop F lib t (Suc i) es (association_entry_upsert lib t a w) = Inr w'"
    by (auto simp: syncAssociations_loop_Cons split: if_splits)
  note IH = Cons.IH [OF rest]
  show ?case
  proof (cases "DN a = dn")
    case True
    from association_entry_upsert_same [of lib t a w] True obtain r1 where
      r1: "viz_roles_resources (association_entry_upsert lib t a w) dn = Some r1"
        "created_at r1 = (case viz_roles_resources w dn of None \<Rightarrow> t | Some r \<Rightarrow> created_at r)"
        "updated_at r1 = t" "\<not> is_deleted r1"
      by auto
    with IH True show ?thesis
      by (cases "dn \<in> DN ` set es") auto
  next
    case False
    with IH show ?thesis
      by (auto simp: association_entry_upsert_other)
  qed
qed

lemma syncAssociations_result:
  assumes "syncAssociations F lib (Inr es) ts d = (log, d')"
  shows "(log \<noteq> None \<and> log \<noteq> Some Panicked \<and> d' = d)
     \<or> (log = None \<and> \<not> F (Begin Associations) \<and> \<not> F (Prepare Associations)
        \<and> (\<exists>w. syncAssociations_loop F lib (Format_RFC3339 ts) 0 es d = Inr w
              \<and> d' = (if F (Commit Associations) then d else w)))"
proof (cases "syncAssociations_loop F lib (Format_RFC3339 ts) 0 es d")
  case (Inl e)
  from syncAssociations_loop_error [OF Inl] have "e \<noteq> Panicked" by auto
  with assms Inl show ?thesis
    by (auto simp: syncAssociations_def split: if_splits)
next
  case (Inr w)
  with assms show ?thesis
    by (auto simp: syncAssociations_def split: if_splits)
qed

section \<open>A parent reference to a role that is not there\<close>

lemma syncRoles_search_failed:
  "syncRoles F lib (Inl err) ts d = (Some SearchFailed, d)"
  by (simp add: syncRoles_def)

text \<open>
  C3 (as amended). The directory returns one role entry, one of whose parent references
  names a role \<open>R2\<close> that is neither this entry nor a row of \<open>viz_roles\<close>, and the
  store satisfies its foreign keys. Then the role synchronizer, whatever statements
  fail, logs an error and rolls back: the store is exactly as before, so the upsert of
  the entry is undone too, and there is no pair \<open>(R1, R2)\<close> in \<open>viz_roles_parents\<close>.
  When no statement fails for a reason of the store's own, the error is the refused
  insertion of a pair of this entry.
\<close>

theorem missing_parent_rolls_back:
  assumes "R2 \<in> set (GetAttributeValues entry ''nrfParentRoles'')"
    and "R2 \<noteq> DN entry"
    and "viz_roles d R2 = None"
    and "foreign_keys_hold d"
  shows "fst (syncRoles F lib (Inr [entry]) ts d) \<noteq> None
    \<and> snd (syncRoles F lib (Inr [entry]) ts d) = d
    \<and> (DN entry, R2) \<notin> viz_roles_parents (snd (syncRoles F lib (Inr [entry]) ts d))
    \<and> (\<exists>j. fst (syncRoles no_faults lib (Inr [entry]) ts d) = Some (ParentFailed 0 j))"
proof -
  have pair: "(DN entry, R2) \<in> parent_pairs [entry]"
    using assms(1) by (simp add: parent_pairs_def)
  have rolled_back: "log \<noteq> None \<and> d' = d"
    if run: "syncRoles G lib (Inr [entry]) ts d = (log, d')" for G log d'
  proof (rule ccontr)
    assume "\<not> (log \<noteq> None \<and> d' = d)"
    with syncRoles_result [OF run] obtain w1 where
      w1: "syncRoles_phase1 G lib (Format_RFC3339 ts) 0 [entry] d = Inr w1"
      and fk: "foreign_keys_ok [entry] w1"
      by auto
    from syncRoles_phase1_frame [OF w1, of R2] assms(2,3) have "viz_roles w1 R2 = None"
      by simp
    with fk pair show False
      by (auto simp: foreign_keys_ok_def)
  qed
  have 1: "fst (syncRoles F lib (Inr [entry]) ts d) \<noteq> None
      \<and> snd (syncRoles F lib (Inr [entry]) ts d) = d"
    using rolled_back [of F "fst (syncRoles F lib (Inr [entry]) ts d)"
        "snd (syncRoles F lib (Inr [entry]) ts d)"]
    by simp
  have 2: "(DN entry, R2) \<notin> viz_roles_parents d"
    using assms(3,4) by (auto simp: foreign_keys_hold_def)
  obtain w1 where w1: "syncRoles_phase1 no_faults lib (Format_RFC3339 ts) 0 [entry] d = Inr w1"
    using syncRoles_phase1_no_fault [of "[entry]" no_faults 0 lib "Format_RFC3339 ts" d]
    by (auto simp: no_faults_def)
  have 3: "\<exists>j. fst (syncRoles no_faults lib (Inr [entry]) ts d) = Some (ParentFailed 0 j)"
  proof (cases "syncRoles_phase2 no_faults 0 [entry] (delete_viz_roles_parents w1)")
    case (Inl e)
    from syncRoles_phase2_error [OF Inl] obtain j where "e = ParentFailed 0 j" by auto
    with Inl w1 show ?thesis
      by (simp add: syncRoles_def no_faults_def)
  next
    case (Inr w2)
    with w1 have "syncRoles no_faults lib (Inr [entry]) ts d = (None, w2)"
      by (simp add: syncRoles_def no_faults_def)
    from rolled_back [OF this] show ?thesis by simp
  qed
  from 1 2 3 show ?thesis by simp
qed

lemma orphan_parents [simp]:
  "GetAttributeValues orphan_entry ''nrfParentRoles'' = [''R2'']"
  by (simp add: orphan_entry_def GetAttributeValues_def)

theorem missing_parent_rolls_back_witness:
  "''R2'' \<in> set (GetAttributeValues orphan_entry ''nrfParentRoles'')
   \<and> ''R2'' \<noteq> DN orphan_entry
   \<and> viz_roles empty_db ''R2'' = None
   \<and> foreign_keys_hold empty_db
   \<and> fst (syncRoles no_faults sample_codec (Inr [orphan_entry]) 5000000000 empty_db) \<noteq> None
   \<and> snd (syncRoles no_faults sample_codec (Inr [orphan_entry]) 5000000000 empty_db) = empty_db
   \<and> (''R1'', ''R2'') \<notin> viz_roles_parents
        (snd (syncRoles no_faults sample_codec (Inr [orphan_entry]) 5000000000 empty_db))"
proof -
  have h: "''R2'' \<in> set (GetAttributeValues orphan_entry ''nrfParentRoles'')"
    "''R2'' \<noteq> DN orphan_entry" "viz_roles empty_db ''R2'' = None" "foreign_keys_hold empty_db"
    by (simp_all add: orphan_entry_def empty_db_def foreign_keys_hold_def GetAttributeValues_def)
  have dn: "DN orphan_entry = ''R1''"
    by (simp add: orphan_entry_def)
  from missing_parent_rolls_back [OF h, of no_faults sample_codec 5000000000] h
  show ?thesis unfolding dn by blast
qed

text \<open>
  C3 as stated fails: on an empty store, with the one entry \<open>R1\<close> whose parent
  reference is \<open>R2\<close>, \<open>viz_roles\<close> has no row \<open>R1\<close> after the synchronizer.
\<close>

theorem orphan_role_not_stored:
  "DN orphan_entry = ''R1''
   \<and> GetAttributeValues orphan_entry ''nrfParentRoles'' = [''R2'']
   \<and> viz_roles (snd (syncRoles no_faults sample_codec (Inr [orphan_entry]) 5000000000 empty_db))
       ''R1'' = None"
  by (simp add: syncRoles_def no_faults_def syncRoles_phase1_Cons role_entry_upsert_def
      delete_viz_roles_parents_def insert_viz_roles_parents_def empty_db_def orphan_entry_def
      GetAttributeValues_def)

section \<open>Each synchronizer is one transaction\<close>

lemma syncRoles_unchanged_or_committed:
  assumes "snd (syncRoles F lib search ts d) \<noteq> d"
  shows "fst (syncRoles F lib search ts d) = None \<and> \<not> F (Commit Roles)
     \<and> (\<exists>es. search = Inr es \<and> \<not> roles_statement_fails F es d)"
proof (cases search)
  case (Inl err)
  with assms show ?thesis by (simp add: syncRoles_def)
next
  case (Inr es)
  obtain log d' where run: "syncRoles F lib (Inr es) ts d = (log, d')"
    by (cases "syncRoles F lib (Inr es) ts d")
  with assms Inr have ne: "d' \<noteq> d" by simp
  with syncRoles_result [OF run] obtain w1 where
    log: "log = None" and c: "\<not> F (Commit Roles)"
    and w1: "syncRoles_phase1 F lib (Format_RFC3339 ts) 0 es d = Inr w1"
    and ins: "inserts_ok F es" and fk: "foreign_keys_ok es w1"
    by (auto split: if_splits)
  have "\<not> (\<exists>i<length es. F (Upsert Roles i))"
    using syncRoles_phase1_fault [of _ es F 0 lib "Format_RFC3339 ts" d] w1 by auto
  moreover have "\<not> (\<exists>x\<in>parent_pairs es. viz_roles d (snd x) = None \<and> snd x \<notin> DN ` set es)"
    using fk syncRoles_phase1_dom [OF w1] by (auto simp: foreign_keys_ok_def)
  ultimately have "\<not> roles_statement_fails F es d"
    using ins unfolding roles_statement_fails_def by blast
  with log c run Inr show ?thesis by simp
qed

lemma syncRoles_logged_unchanged:
  assumes "fst (syncRoles F lib search ts d) \<noteq> None"
  shows "snd (syncRoles F lib search ts d) = d"
proof (cases search)
  case (Inl err)
  then show ?thesis by (simp add: syncRoles_def)
next
  case (Inr es)
  obtain log d' where run: "syncRoles F lib (Inr es) ts d = (log, d')"
    by (cases "syncRoles F lib (Inr es) ts d")
  with syncRoles_result [OF run] assms Inr show ?thesis by auto
qed

lemma syncRoles_failure:
  assumes "roles_statement_fails F es d"
  shows "fst (syncRoles F lib (Inr es) ts d) \<noteq> None \<and> snd (syncRoles F lib (Inr es) ts d) = d"
proof -
  obtain log d' where run: "syncRoles F lib (Inr es) ts d = (log, d')"
    by (cases "syncRoles F lib (Inr es) ts d")
  have "log \<noteq> None"
  proof
    assume "log = None"
    with syncRoles_result [OF run] obtain w1 where
      w1: "syncRoles_phase1 F lib (Format_RFC3339 ts) 0 es d = Inr w1"
      and ins: "inserts_ok F es" and fk: "foreign_keys_ok es w1"
      by auto
    have "\<not> (\<exists>i<length es. F (Upsert Roles i))"
      using syncRoles_phase1_fault [of _ es F 0 lib "Format_RFC3339 ts" d] w1 by auto
    moreover have "\<not> (\<exists>x\<in>parent_pairs es. viz_roles d (snd x) = None \<and> snd x \<notin> DN ` set es)"
      using fk syncRoles_phase1_dom [OF w1] by (auto simp: foreign_keys_ok_def)
    ultimately show False
      using ins assms unfolding roles_statement_fails_def by blast
  qed
  with syncRoles_logged_unchanged [of F lib "Inr es" ts d] run show ?thesis by simp
qed

lemma syncResources_logged_unchanged:
  assumes "fst (syncResources F lib search ts d) \<noteq> None"
  shows "snd (syncResources F lib search ts d) = d"
proof (cases search)
  case (Inl err)
  then show ?thesis by (simp add: syncResources_def)
next
  case (Inr es)
  obtain log d' where run: "syncResources F lib (Inr es) ts d = (log, d')"
    by (cases "syncResources F lib (Inr es) ts d")
  with syncResources_result [OF run] assms Inr show ?thesis by auto
qed

lemma syncResources_failure:
  assumes "\<exists>i<length es. F (Upsert Resources i)"
  shows "fst (syncResources F lib (Inr es) ts d) \<noteq> None
     \<and> snd (syncResources F lib (Inr es) ts d) = d"
proof -
  obtain log d' where run: "syncResources F lib (Inr es) ts d = (log, d')"
    by (cases "syncResources F lib (Inr es) ts d")
  have "log \<noteq> None"
  proof
    assume "log = None"
    with syncResources_result [OF run] obtain w where
      "syncResources_loop F lib (Format_RFC3339 ts) 0 es d = Inr w"
      by auto
    with assms syncResources_loop_fault [of _ es F 0 lib "Format_RFC3339 ts" d]
    show False by auto
  qed
  with syncResources_logged_unchanged [of F lib "Inr es" ts d] run show ?thesis by simp
qed

lemma syncResources_unchanged_or_committed:
  assumes "snd (syncResources F lib search ts d) \<noteq> d"
  shows "fst (syncResources F lib search ts d) = None \<and> \<not> F (Commit Resources)
     \<and> (\<exists>es. search = Inr es \<and> (\<forall>i<length es. \<not> F (Upsert Resources i)))"
proof (cases search)
  case (Inl err)
  with assms show ?thesis by (simp add: syncResources_def)
next
  case (Inr es)
  from syncResources_failure [of es F lib ts d] assms Inr
  have nf: "\<forall>i<length es. \<not> F (Upsert Resources i)" by auto
  obtain log d' where run: "syncResources F lib (Inr es) ts d = (log, d')"
    by (cases "syncResources F lib (Inr es) ts d")
  with syncResources_result [OF run] assms Inr nf show ?thesis
    by (auto split: if_splits)
qed

lemma syncAssociations_logged_unchanged:
  assumes "fst (syncAssociations F lib search ts d) \<noteq> None"
  shows "snd (syncAssociations F lib search ts d) = d"
proof (cases search)
  case (Inl err)
  then show ?thesis by (simp add: syncAssociations_def)
next
  case (Inr es)
  obtain log d' where run: "syncAssociations F lib (Inr es) ts d = (log, d')"
    by (cases "syncAssociations F lib (Inr es) ts d")
  with syncAssociations_result [OF run] assms Inr show ?thesis by auto
qed

lemma syncAssociations_failure:
  assumes "\<exists>i<length es. F (Upsert Associations i)"
  shows "fst (syncAssociations F lib (Inr es) ts d) \<noteq> None
     \<and> snd (syncAssociations F lib (Inr es) ts d) = d"
proof -
  obtain log d' where run: "syncAssociations F lib (Inr es) ts d = (log, d')"
    by (cases "syncAssociations F lib (Inr es) ts d")
  have "log \<noteq> None"
  proof
    assume "log = None"
    with syncAssociations_result [OF run] obtain w where
      "syncAssociations_loop F lib (Format_RFC3339 ts) 0 es d = Inr w"
      by auto
    with assms syncAssociations_loop_fault [of _ es F 0 lib "Format_RFC3339 ts" d]
    show False by auto
  qed
  with syncAssociations_logged_unchanged [of F lib "Inr es" ts d] run show ?thesis by simp
qed

lemma syncAssociations_unchanged_or_committed:
  assumes "snd (syncAssociations F lib search ts d) \<noteq> d"
  shows "fst (syncAssociations F lib search ts d) = None \<and> \<not> F (Commit Associations)
     \<and> (\<exists>es. search = Inr es \<and> (\<forall>i<length es. \<not> F (Upsert Associations i)))"
proof (cases search)
  case (Inl err)
  with assms show ?thesis by (simp add: syncAssociations_def)
next
  case (Inr es)
  from syncAssociations_failure [of es F lib ts d] assms Inr
  have nf: "\<forall>i<length es. \<not> F (Upsert Associations i)" by auto
  obtain log d' where run: "syncAssociations F lib (Inr es) ts d = (log, d')"
    by (cases "syncAssociations F lib (Inr es) ts d")
  with syncAssociations_result [OF run] assms Inr nf show ?thesis
    by (auto split: if_splits)
qed

text \<open>
  C5. Each synchronizer is atomic. If a row statement of its run fails (for the role
  synchronizer: an upsert or the insertion of a pair comes back with an error, or a
  pair names a parent that is neither stored nor among the entries), the synchronizer
  logs an error and the store is exactly as before; whenever it logs an error the store
  is as before; and if the store has changed, then nothing was logged, no row
  statement failed and the commit went through.
\<close>

theorem synchronizers_atomic:
  "(roles_statement_fails F es d \<longrightarrow>
      fst (syncRoles F lib (Inr es) ts d) \<noteq> None \<and> snd (syncRoles F lib (Inr es) ts d) = d)
   \<and> (fst (syncRoles F lib search ts d) \<noteq> None \<longrightarrow> snd (syncRoles F lib search ts d) = d)
   \<and> (snd (syncRoles F lib search ts d) \<noteq> d \<longrightarrow>
        fst (syncRoles F lib search ts d) = None \<and> \<not> F (Commit Roles)
        \<and> (\<exists>es. search = Inr es \<and> \<not> roles_statement_fails F es d))
   \<and> ((\<exists>i<length es. F (Upsert Resources i)) \<longrightarrow>
        fst (syncResources F lib (Inr es) ts d) \<noteq> None
        \<and> snd (syncResources F lib (Inr es) ts d) = d)
   \<and> (fst (syncResources F lib search ts d) \<noteq> None \<longrightarrow>
        snd (syncResources F lib search ts d) = d)
   \<and> (snd (syncResources F lib search ts d) \<noteq> d \<longrightarrow>
        fst (syncResources F lib search ts d) = None \<and> \<not> F (Commit Resources)
        \<and> (\<exists>es. search = Inr es \<and> (\<forall>i<length es. \<not> F (Upsert Resources i))))
   \<and> ((\<exists>i<length es. F (Upsert Associations i)) \<longrightarrow>
        fst (syncAssociations F lib (Inr es) ts d) \<noteq> None
        \<and> snd (syncAssociations F lib (Inr es) ts d) = d)
   \<and> (fst (syncAssociations F lib search ts d) \<noteq> None \<longrightarrow>
        snd (syncAssociations F lib search ts d) = d)
   \<and> (snd (syncAssociations F lib search ts d) \<noteq> d \<longrightarrow>
        fst (syncAssociations F lib search ts d) = None \<and> \<not> F (Commit Associations)
        \<and> (\<exists>es. search = Inr es \<and> (\<forall>i<length es. \<not> F (Upsert Associations i))))"
  using syncRoles_failure [of F es d lib ts] syncRoles_logged_unchanged [of F lib search ts d]
    syncRoles_unchanged_or_committed [of F lib search ts d]
    syncResources_failure [of es F lib ts d] syncResources_logged_unchanged [of F lib search ts d]
    syncResources_unchanged_or_committed [of F lib search ts d]
    syncAssociations_failure [of es F lib ts d]
    syncAssociations_logged_unchanged [of F lib search ts d]
    syncAssociations_unchanged_or_committed [of F lib search ts d]
  by blast

lemma two_roles_simps [simp]:
  "length two_roles = 2"
  "DN ` set two_roles = {''R1'', ''R2''}"
  "parent_pairs two_roles = {(''R2'', ''R1'')}"
  by (auto simp: two_roles_def parent_pairs_def GetAttributeValues_def)

theorem synchronizers_atomic_witness:
  "roles_statement_fails sample_faults two_roles empty_db
   \<and> sample_faults (Upsert Resources 0)
   \<and> sample_faults (Upsert Associations 1)
   \<and> snd (syncRoles sample_faults sample_codec (Inr two_roles) 5000000000 empty_db) = empty_db
   \<and> snd (syncResources sample_faults sample_codec (Inr two_roles) 5000000000 empty_db) = empty_db
   \<and> snd (syncAssociations sample_faults sample_codec (Inr two_roles) 5000000000 empty_db)
       = empty_db"
proof -
  have 1: "roles_statement_fails sample_faults two_roles empty_db"
    by (simp add: roles_statement_fails_def sample_faults_def)
  have 2: "\<exists>i<length two_roles. sample_faults (Upsert Resources i)"
    by (simp add: sample_faults_def)
  have 3: "\<exists>i<length two_roles. sample_faults (Upsert Associations i)"
    by (auto simp: sample_faults_def)
  from synchronizers_atomic [of sample_faults two_roles empty_db sample_codec 5000000000] 1 2 3
  show ?thesis by (simp add: sample_faults_def)
qed

section \<open>What an upsert does to a row that is already there\<close>

lemma syncRoles_committed_row:
  assumes "fst (syncRoles F lib (Inr es) ts d) = None" "\<not> F (Commit Roles)"
    and "dn \<in> DN ` set es"
  shows "\<exists>r'. viz_roles (snd (syncRoles F lib (Inr es) ts d)) dn = Some r'
     \<and> created_at r' = (case viz_roles d dn of None \<Rightarrow> Format_RFC3339 ts | Some r \<Rightarrow> created_at r)
     \<and> updated_at r' = Format_RFC3339 ts \<and> \<not> is_deleted r'"
proof -
  obtain log d' where run: "syncRoles F lib (Inr es) ts d = (log, d')"
    by (cases "syncRoles F lib (Inr es) ts d")
  with syncRoles_result [OF run] assms(1,2) obtain w1 where
    w1: "syncRoles_phase1 F lib (Format_RFC3339 ts) 0 es d = Inr w1"
    and d': "d' = w1\<lparr>viz_roles_parents := parent_pairs es\<rparr>"
    by auto
  from syncRoles_phase1_observed [OF w1 assms(3)] run d' show ?thesis
    by auto
qed

lemma syncResources_committed_row:
  assumes "fst (syncResources F lib (Inr es) ts d) = None" "\<not> F (Commit Resources)"
    and "dn \<in> DN ` set es"
  shows "\<exists>r'. viz_resources (snd (syncResources F lib (Inr es) ts d)) dn = Some r'
     \<and> created_at r'
         = (case viz_resources d dn of None \<Rightarrow> Format_RFC3339 ts | Some r \<Rightarrow> created_at r)
     \<and> updated_at r' = Format_RFC3339 ts \<and> \<not> is_deleted r'"
proof -
  obtain log d' where run: "syncResources F lib (Inr es) ts d = (log, d')"
    by (cases "syncResources F lib (Inr es) ts d")
  with syncResources_result [OF run] assms(1,2) obtain w where
    w: "syncResources_loop F lib (Format_RFC3339 ts) 0 es d = Inr w" and d': "d' = w"
    by auto
  from syncResources_loop_rows [OF w, of dn] assms(3) run d' show ?thesis
    by auto
qed

lemma syncAssociations_committed_row:
  assumes "fst (syncAssociations F lib (Inr es) ts d) = None" "\<not> F (Commit Associations)"
    and "dn \<in> DN ` set es"
  shows "\<exists>r'. viz_roles_resources (snd (syncAssociations F lib (Inr es) ts d)) dn = Some r'
     \<and> created_at r'
         = (case viz_roles_resources d dn of None \<Rightarrow> Format_RFC3339 ts | Some r \<Rightarrow> created_at r)
     \<and> updated_at r' = Format_RFC3339 ts \<and> \<not> is_deleted r'"
proof -
  obtain log d' where run: "syncAssociations F lib (Inr es) ts d = (log, d')"
    by (cases "syncAssociations F lib (Inr es) ts d")
  with syncAssociations_result [OF run] assms(1,2) obtain w where
    w: "syncAssociations_loop F lib (Format_RFC3339 ts) 0 es d = Inr w" and d': "d' = w"
    by auto
  from syncAssociations_loop_rows [OF w, of dn] assms(3) run d' show ?thesis
    by auto
qed

lemma upsert_viz_roles_row:
  "\<exists>r'. viz_roles (upsert_viz_roles p1 p2 p3 p4 p5 p6 p7 p8 d) p1 = Some r'
      \<and> created_at r' = (case viz_roles d p1 of None \<Rightarrow> p6 | Some r \<Rightarrow> created_at r)
      \<and> updated_at r' = p7
      \<and> is_deleted r' = (case viz_roles d p1 of None \<Rightarrow> p8 | Some r \<Rightarrow> False)"
  by (cases "viz_roles d p1") (simp_all add: upsert_viz_roles_def)

text \<open>
  C9. For a row that is already in its table, the upsert statement of each of the three
  tables leaves \<open>created_at\<close> as it is, sets \<open>updated_at\<close> to the timestamp given and
  \<open>is_deleted\<close> to false. The same holds of a whole run of a synchronizer that commits:
  a row that was there before and whose \<open>dn\<close> is among the entries keeps its
  \<open>created_at\<close>, has the run's formatted timestamp as \<open>updated_at\<close> and is not deleted.
\<close>

theorem upsert_keeps_created_at:
  "(viz_roles d dn = Some r \<longrightarrow>
      (\<exists>r'. viz_roles (upsert_viz_roles dn p2 p3 p4 p5 p6 p7 p8 d) dn = Some r'
         \<and> created_at r' = created_at r \<and> updated_at r' = p7 \<and> \<not> is_deleted r'))
   \<and> (viz_resources d dn = Some s \<longrightarrow>
      (\<exists>s'. viz_resources (upsert_viz_resources dn q2 q3 q4 q5 e q14 q15 q16 d) dn = Some s'
         \<and> created_at s' = created_at s \<and> updated_at s' = q15 \<and> \<not> is_deleted s'))
   \<and> (viz_roles_resources d dn = Some a \<longrightarrow>
      (\<exists>a'. viz_roles_resources
               (upsert_viz_roles_resources dn u2 u3 u4 u5 u6 u7 u8 u9 u10 u11 d) dn = Some a'
         \<and> created_at a' = created_at a \<and> updated_at a' = u10 \<and> \<not> is_deleted a'))
   \<and> (viz_roles d dn = Some r \<and> dn \<in> DN ` set es
        \<and> fst (syncRoles F lib (Inr es) ts d) = None \<and> \<not> F (Commit Roles) \<longrightarrow>
      (\<exists>r'. viz_roles (snd (syncRoles F lib (Inr es) ts d)) dn = Some r'
         \<and> created_at r' = created_at r \<and> updated_at r' = Format_RFC3339 ts \<and> \<not> is_deleted r'))
   \<and> (viz_resources d dn = Some s \<and> dn \<in> DN ` set es
        \<and> fst (syncResources F lib (Inr es) ts d) = None \<and> \<not> F (Commit Resources) \<longrightarrow>
      (\<exists>s'. viz_resources (snd (syncResources F lib (Inr es) ts d)) dn = Some s'
         \<and> created_at s' = created_at s \<and> updated_at s' = Format_RFC3339 ts \<and> \<not> is_deleted s'))
   \<and> (viz_roles_resources d dn = Some a \<and> dn \<in> DN ` set es
        \<and> fst (syncAssociations F lib (Inr es) ts d) = None \<and> \<not> F (Commit Associations) \<longrightarrow>
      (\<exists>a'. viz_roles_resources (snd (syncAssociations F lib (Inr es) ts d)) dn = Some a'
         \<and> created_at a' = created_at a \<and> updated_at a' = Format_RFC3339 ts \<and> \<not> is_deleted a'))"
  using upsert_viz_roles_row [of dn p2 p3 p4 p5 p6 p7 p8 d]
    upsert_viz_resources_row [of dn q2 q3 q4 q5 e q14 q15 q16 d]
    upsert_viz_roles_resources_row [of dn u2 u3 u4 u5 u6 u7 u8 u9 u10 u11 d]
    syncRoles_committed_row [of F lib es ts d dn]
    syncResources_committed_row [of F lib es ts d dn]
    syncAssociations_committed_row [of F lib es ts d dn]
  by auto

lemma old_db_runs:
  "fst (syncRoles no_faults sample_codec (Inr two_roles) 5000000000 old_db) = None"
  "fst (syncResources no_faults sample_codec (Inr two_roles) 5000000000 old_db) = None"
  "fst (syncAssociations no_faults sample_codec (Inr two_roles) 5000000000 old_db) = None"
  by (simp_all add: syncRoles_def syncResources_def syncAssociations_def no_faults_def
      two_roles_def syncRoles_phase1_Cons syncResources_loop_Cons syncAssociations_loop_Cons
      role_entry_upsert_def delete_viz_roles_parents_def insert_viz_roles_parents_def
      GetAttributeValues_def old_db_def)

theorem upsert_keeps_created_at_witness:
  "viz_roles old_db ''R1'' = Some (sample_role 1000000000 2000000000 True)
   \<and> viz_resources old_db ''R1'' = Some (sample_resource 1000000000 2000000000 True)
   \<and> viz_roles_resources old_db ''R1'' = Some (sample_association 1000000000 2000000000 True)
   \<and> ''R1'' \<in> DN ` set two_roles
   \<and> fst (syncRoles no_faults sample_codec (Inr two_roles) 5000000000 old_db) = None
   \<and> fst (syncResources no_faults sample_codec (Inr two_roles) 5000000000 old_db) = None
   \<and> fst (syncAssociations no_faults sample_codec (Inr two_roles) 5000000000 old_db) = None
   \<and> map_option created_at
        (viz_roles (snd (syncRoles no_faults sample_codec (Inr two_roles) 5000000000 old_db))
           ''R1'') = Some 1000000000
   \<and> map_option updated_at
        (viz_roles (snd (syncRoles no_faults sample_codec (Inr two_roles) 5000000000 old_db))
           ''R1'') = Some 5000000000
   \<and> map_option is_deleted
        (viz_roles (snd (syncRoles no_faults sample_codec (Inr two_roles) 5000000000 old_db))
           ''R1'') = Some False
   \<and> map_option created_at
        (viz_resources
           (snd (syncResources no_faults sample_codec (Inr two_roles) 5000000000 old_db))
           ''R1'') = Some 1000000000
   \<and> map_option created_at
        (viz_roles_resources
           (snd (syncAssociations no_faults sample_codec (Inr two_roles) 5000000000 old_db))
           ''R1'') = Some 1000000000"
proof -
  have h: "viz_roles old_db ''R1'' = Some (sample_role 1000000000 2000000000 True)"
    "viz_resources old_db ''R1'' = Some (sample_resource 1000000000 2000000000 True)"
    "viz_roles_resources old_db ''R1'' = Some (sample_association 1000000000 2000000000 True)"
    "''R1'' \<in> DN ` set two_roles"
    "\<not> no_faults (Commit Roles)" "\<not> no_faults (Commit Resources)"
    "\<not> no_faults (Commit Associations)"
    by (simp_all add: old_db_def no_faults_def)
  have c: "created_at (sample_role 1000000000 2000000000 True) = 1000000000"
    "created_at (sample_resource 1000000000 2000000000 True) = 1000000000"
    "created_at (sample_association 1000000000 2000000000 True) = 1000000000"
    "Format_RFC3339 5000000000 = 5000000000"
    by (simp_all add: sample_role_def sample_resource_def sample_association_def
        Format_RFC3339_def)
  note t = upsert_keeps_created_at [where d = old_db and dn = "''R1''"
      and r = "sample_role 1000000000 2000000000 True"
      and s = "sample_resource 1000000000 2000000000 True"
      and a = "sample_association 1000000000 2000000000 True"
      and ?p2.0 = "[]" and ?p3.0 = "[]" and ?p4.0 = "[]" and ?p5.0 = "[]"
      and ?p6.0 = 0 and ?p7.0 = 0 and ?p8.0 = False
      and ?q2.0 = "[]" and ?q3.0 = "[]" and ?q4.0 = "[]" and ?q5.0 = "[]"
      and e = "entitlement_parts []" and ?q14.0 = 0 and ?q15.0 = 0 and ?q16.0 = False
      and ?u2.0 = "[]" and ?u3.0 = "[]" and ?u4.0 = "[]" and ?u5.0 = "[]" and ?u6.0 = "[]"
      and ?u7.0 = "[]" and ?u8.0 = "[]" and ?u9.0 = 0 and ?u10.0 = 0 and ?u11.0 = False
      and es = two_roles and F = no_faults and lib = sample_codec and ts = 5000000000]
  from t h old_db_runs c
  show ?thesis by auto
qed

section \<open>A role that was last seen ten days ago\<close>

lemma markAndPurge_roles:
  "viz_roles (markAndPurge no_faults loc d ts days) dn =
     (case viz_roles d dn of
        None \<Rightarrow> None
      | Some r \<Rightarrow>
          if is_deleted r \<or> updated_at r < Format_RFC3339 ts
          then (if updated_at r < Format_RFC3339 (AddDate_days loc ts (- days)) then None
                else Some (r\<lparr>is_deleted := True\<rparr>))
          else Some r)"
  by (simp add: mark_tables purge_tables markAndPurge_def lifecycle_row no_faults_def)

lemma markAndPurge_cascade:
  assumes "viz_roles d dn = Some r"
    and "is_deleted r \<or> updated_at r < Format_RFC3339 ts"
    and "updated_at r < Format_RFC3339 (AddDate_days loc ts (- days))"
  shows "(dn, x) \<notin> viz_roles_parents (markAndPurge no_faults loc d ts days)
     \<and> (x, dn) \<notin> viz_roles_parents (markAndPurge no_faults loc d ts days)"
proof -
  have "role_purged (Format_RFC3339 (AddDate_days loc ts (- days)))
          (markAndPurge_mark no_faults (Format_RFC3339 ts) d) dn"
    using assms
    by (auto simp: role_purged_def mark_tables no_faults_def mark_rows_def purged_def)
  then show ?thesis
    by (simp add: markAndPurge_def purge_tables no_faults_def)
qed

lemma ten_days_stale:
  assumes "offsets_within_a_day loc"
    and "u = Format_RFC3339 ts - 10 * 86400000000000
       \<or> u = Format_RFC3339 (AddDate_days loc ts (- 10))"
  shows "u < Format_RFC3339 ts" and "u < Format_RFC3339 (AddDate_days loc ts (- 7))"
proof -
  define wall where "wall = ts div 1000000000 + zone_offset (loc (ts div 1000000000))"
  have p7: "Format_RFC3339 (AddDate_days loc ts (- 7))
      = Date_unix loc (wall - 604800) * 1000000000"
    and p10: "Format_RFC3339 (AddDate_days loc ts (- 10))
      = Date_unix loc (wall - 864000) * 1000000000"
    by (simp_all add: Format_RFC3339_AddDate_days wall_def)
  from Date_unix_bounds [OF assms(1), of "wall - 604800"]
    Date_unix_bounds [OF assms(1), of "wall - 864000"]
  have c: "Format_RFC3339 (AddDate_days loc ts (- 10))
      < Format_RFC3339 (AddDate_days loc ts (- 7))"
    unfolding p7 p10 by simp
  from purge_timestamp_bounds [OF assms(1), of ts "- 7"]
  have b7: "Format_RFC3339 ts - 9 * 86400000000000
      \<le> Format_RFC3339 (AddDate_days loc ts (- 7))"
    by simp
  from purge_timestamp_bounds [OF assms(1), of ts "- 10"]
  have b10: "Format_RFC3339 (AddDate_days loc ts (- 10))
      \<le> Format_RFC3339 ts - 8 * 86400000000000"
    by simp
  from assms(2) b10 show "u < Format_RFC3339 ts" by auto
  from assms(2) b7 c show "u < Format_RFC3339 (AddDate_days loc ts (- 7))" by auto
qed

lemma offsets_sample_location: "offsets_within_a_day sample_location"
  by (simp add: offsets_within_a_day_def sample_location_def)

lemma offsets_UTC: "offsets_within_a_day UTC"
  by (simp add: offsets_within_a_day_def UTC_def)

lemma sample_location_purge:
  "Format_RFC3339 (AddDate_days sample_location 1730000000000000000 (- 7))
     = 1729391600000000000"
  "Format_RFC3339 (AddDate_days sample_location 1730000001000000000 (- 7))
     = 1729391601000000000"
  "Format_RFC3339 (AddDate_days sample_location 1730700000000000000 (- 7))
     = 1730095200000000000"
  by (simp_all add: Format_RFC3339_AddDate_days Date_unix_def sample_location_def)

text \<open>
  C2 (as amended). With a retention of seven days and no statement failing, a role row
  whose \<open>updated_at\<close> is the run's formatted timestamp minus ten days (of 24 hours, or
  ten calendar days back in the run's location) is marked and deleted by one and the
  same lifecycle pass, in every location whose zones are within a day of UTC: after
  the pass the row is gone, and so is every pair of \<open>viz_roles_parents\<close> that names it
  as child or as parent.

  A row is soft-deleted and still there after a pass exactly when it was soft-deleted
  before the pass or its \<open>updated_at\<close> is earlier than the formatted timestamp, and its
  \<open>updated_at\<close> is not earlier than the purge timestamp of the pass, the run's timestamp
  moved back seven calendar days in its location and formatted. The row is then the
  row of before with \<open>is_deleted\<close> set, and a later pass, in any location, whose purge
  timestamp is later than the row's \<open>updated_at\<close> deletes it, with the pairs that name
  it.
\<close>

theorem stale_role_purged_in_one_pass:
  assumes "viz_roles d dn = Some r"
  shows "(offsets_within_a_day loc
          \<and> (updated_at r = Format_RFC3339 ts - 10 * 86400000000000
               \<or> updated_at r = Format_RFC3339 (AddDate_days loc ts (- 10))) \<longrightarrow>
            viz_roles (markAndPurge no_faults loc d ts 7) dn = None
            \<and> (\<forall>x. (dn, x) \<notin> viz_roles_parents (markAndPurge no_faults loc d ts 7)
                  \<and> (x, dn) \<notin> viz_roles_parents (markAndPurge no_faults loc d ts 7)))
     \<and> ((\<exists>r'. viz_roles (markAndPurge no_faults loc d ts 7) dn = Some r' \<and> is_deleted r')
          \<longleftrightarrow> (is_deleted r \<or> updated_at r < Format_RFC3339 ts)
               \<and> Format_RFC3339 (AddDate_days loc ts (- 7)) \<le> updated_at r)
     \<and> ((is_deleted r \<or> updated_at r < Format_RFC3339 ts)
          \<and> Format_RFC3339 (AddDate_days loc ts (- 7)) \<le> updated_at r \<longrightarrow>
            viz_roles (markAndPurge no_faults loc d ts 7) dn = Some (r\<lparr>is_deleted := True\<rparr>)
            \<and> (\<forall>loc' ts'. updated_at r < Format_RFC3339 (AddDate_days loc' ts' (- 7)) \<longrightarrow>
                  viz_roles (markAndPurge no_faults loc'
                      (markAndPurge no_faults loc d ts 7) ts' 7) dn = None
                  \<and> (\<forall>x. (dn, x) \<notin> viz_roles_parents
                              (markAndPurge no_faults loc'
                                 (markAndPurge no_faults loc d ts 7) ts' 7)
                        \<and> (x, dn) \<notin> viz_roles_parents
                              (markAndPurge no_faults loc'
                                 (markAndPurge no_faults loc d ts 7) ts' 7))))"
proof (intro conjI impI)
  assume u: "offsets_within_a_day loc
    \<and> (updated_at r = Format_RFC3339 ts - 10 * 86400000000000
         \<or> updated_at r = Format_RFC3339 (AddDate_days loc ts (- 10)))"
  then have a: "updated_at r < Format_RFC3339 ts"
    and b: "updated_at r < Format_RFC3339 (AddDate_days loc ts (- 7))"
    using ten_days_stale [of loc "updated_at r" ts] by blast+
  from assms a b show "viz_roles (markAndPurge no_faults loc d ts 7) dn = None"
    by (simp add: markAndPurge_roles)
  from assms a b
  show "\<forall>x. (dn, x) \<notin> viz_roles_parents (markAndPurge no_faults loc d ts 7)
           \<and> (x, dn) \<notin> viz_roles_parents (markAndPurge no_faults loc d ts 7)"
    using markAndPurge_cascade [of d dn r ts loc 7] by blast
next
  from assms
  show "(\<exists>r'. viz_roles (markAndPurge no_faults loc d ts 7) dn = Some r' \<and> is_deleted r')
          \<longleftrightarrow> (is_deleted r \<or> updated_at r < Format_RFC3339 ts)
               \<and> Format_RFC3339 (AddDate_days loc ts (- 7)) \<le> updated_at r"
    by (auto simp: markAndPurge_roles split: if_splits)
next
  assume w: "(is_deleted r \<or> updated_at r < Format_RFC3339 ts)
    \<and> Format_RFC3339 (AddDate_days loc ts (- 7)) \<le> updated_at r"
  with assms
  show 1: "viz_roles (markAndPurge no_faults loc d ts 7) dn = Some (r\<lparr>is_deleted := True\<rparr>)"
    by (auto simp: markAndPurge_roles)
  show "\<forall>loc' ts'. updated_at r < Format_RFC3339 (AddDate_days loc' ts' (- 7)) \<longrightarrow>
          viz_roles (markAndPurge no_faults loc'
              (markAndPurge no_faults loc d ts 7) ts' 7) dn = None
          \<and> (\<forall>x. (dn, x) \<notin> viz_roles_parents
                      (markAndPurge no_faults loc' (markAndPurge no_faults loc d ts 7) ts' 7)
                \<and> (x, dn) \<notin> viz_roles_parents
                      (markAndPurge no_faults loc' (markAndPurge no_faults loc d ts 7) ts' 7))"
  proof (intro allI impI)
    fix loc' ts' assume p: "updated_at r < Format_RFC3339 (AddDate_days loc' ts' (- 7))"
    from 1 p
    have "viz_roles (markAndPurge no_faults loc' (markAndPurge no_faults loc d ts 7) ts' 7) dn
        = None"
      by (simp add: markAndPurge_roles [of loc' "markAndPurge no_faults loc d ts 7"])
    moreover have "(dn, x) \<notin> viz_roles_parents
                      (markAndPurge no_faults loc' (markAndPurge no_faults loc d ts 7) ts' 7)
                \<and> (x, dn) \<notin> viz_roles_parents
                      (markAndPurge no_faults loc' (markAndPurge no_faults loc d ts 7) ts' 7)"
      for x
      using markAndPurge_cascade [OF 1, of ts' loc' 7 x] p by simp
    ultimately
    show "viz_roles (markAndPurge no_faults loc'
              (markAndPurge no_faults loc d ts 7) ts' 7) dn = None
          \<and> (\<forall>x. (dn, x) \<notin> viz_roles_parents
                      (markAndPurge no_faults loc' (markAndPurge no_faults loc d ts 7) ts' 7)
                \<and> (x, dn) \<notin> viz_roles_parents
                      (markAndPurge no_faults loc' (markAndPurge no_faults loc d ts 7) ts' 7))"
      by blast
  qed
qed

text \<open>
  C2 as stated fails: the role \<open>R1\<close> of the sample store, last upserted ten days before
  the run's formatted timestamp, is not in \<open>viz_roles\<close> after one lifecycle pass with a
  retention of seven days, neither in UTC nor in the location with the change of the
  clock, which lies between the run and its purge timestamp.
\<close>

theorem stale_role_gone_after_first_pass:
  "viz_roles stale_db ''R1'' = Some (sample_role 1729136000000000000 1729136000000000000 False)
   \<and> Format_RFC3339 1730000000000000000 - 10 * 86400000000000 = 1729136000000000000
   \<and> viz_roles (markAndPurge no_faults UTC stale_db 1730000000000000000 7) ''R1'' = None
   \<and> viz_roles (markAndPurge no_faults sample_location stale_db 1730000000000000000 7) ''R1''
       = None"
  by (simp add: stale_db_def markAndPurge_roles sample_role_def AddDate_days_UTC
      sample_location_purge) (simp add: Format_RFC3339_def)

theorem stale_role_purged_in_one_pass_witness:
  "viz_roles stale_db ''R1'' = Some (sample_role 1729136000000000000 1729136000000000000 False)
   \<and> offsets_within_a_day sample_location
   \<and> updated_at (sample_role 1729136000000000000 1729136000000000000 False)
       = Format_RFC3339 1730000000000000000 - 10 * 86400000000000
   \<and> viz_roles (markAndPurge no_faults sample_location stale_db 1730000000000000000 7) ''R1''
       = None
   \<and> (''R1'', ''R2'') \<notin> viz_roles_parents
         (markAndPurge no_faults sample_location stale_db 1730000000000000000 7)
   \<and> viz_roles stale_db ''R2'' = Some (sample_role 1729136000000000000 1730000000000000000 False)
   \<and> Format_RFC3339 (AddDate_days sample_location 1730000001000000000 (- 7))
       \<le> updated_at (sample_role 1729136000000000000 1730000000000000000 False)
   \<and> updated_at (sample_role 1729136000000000000 1730000000000000000 False)
       < Format_RFC3339 1730000001000000000
   \<and> viz_roles (markAndPurge no_faults sample_location stale_db 1730000001000000000 7) ''R2''
       = Some (sample_role 1729136000000000000 1730000000000000000 True)
   \<and> (\<exists>r'. viz_roles (markAndPurge no_faults sample_location stale_db 1730000001000000000 7)
              ''R2'' = Some r' \<and> is_deleted r')
   \<and> updated_at (sample_role 1729136000000000000 1730000000000000000 False)
       < Format_RFC3339 (AddDate_days sample_location 1730700000000000000 (- 7))
   \<and> viz_roles (markAndPurge no_faults sample_location
         (markAndPurge no_faults sample_location stale_db 1730000001000000000 7)
         1730700000000000000 7) ''R2''
       = None"
proof -
  have h1: "viz_roles stale_db ''R1''
      = Some (sample_role 1729136000000000000 1729136000000000000 False)"
    and h2: "viz_roles stale_db ''R2''
      = Some (sample_role 1729136000000000000 1730000000000000000 False)"
    by (simp_all add: stale_db_def)
  have a: "updated_at (sample_role 1729136000000000000 1729136000000000000 False)
       = Format_RFC3339 1730000000000000000 - 10 * 86400000000000"
    and c: "updated_at (sample_role 1729136000000000000 1730000000000000000 False)
       < Format_RFC3339 1730000001000000000"
    and e: "(sample_role 1729136000000000000 1730000000000000000 False)\<lparr>is_deleted := True\<rparr>
       = sample_role 1729136000000000000 1730000000000000000 True"
    by (simp_all add: sample_role_def Format_RFC3339_def)
  have b: "Format_RFC3339 (AddDate_days sample_location 1730000001000000000 (- 7))
       \<le> updated_at (sample_role 1729136000000000000 1730000000000000000 False)"
    and f: "updated_at (sample_role 1729136000000000000 1730000000000000000 False)
       < Format_RFC3339 (AddDate_days sample_location 1730700000000000000 (- 7))"
    by (simp_all add: sample_role_def sample_location_purge)
  note o = offsets_sample_location
  from stale_role_purged_in_one_pass [OF h1, of sample_location 1730000000000000000] o a
  have 1: "viz_roles (markAndPurge no_faults sample_location stale_db 1730000000000000000 7)
      ''R1'' = None"
    and 2: "(''R1'', ''R2'') \<notin> viz_roles_parents
              (markAndPurge no_faults sample_location stale_db 1730000000000000000 7)"
    by blast+
  from stale_role_purged_in_one_pass [OF h2, of sample_location 1730000001000000000] b c
  have 3: "viz_roles (markAndPurge no_faults sample_location stale_db 1730000001000000000 7)
      ''R2'' = Some ((sample_role 1729136000000000000 1730000000000000000 False)
                       \<lparr>is_deleted := True\<rparr>)"
    and 5: "\<exists>r'. viz_roles (markAndPurge no_faults sample_location stale_db
                1730000001000000000 7) ''R2'' = Some r' \<and> is_deleted r'"
    by blast+
  from stale_role_purged_in_one_pass [OF h2, of sample_location 1730000001000000000] b c f
  have 4: "viz_roles (markAndPurge no_faults sample_location
         (markAndPurge no_faults sample_location stale_db 1730000001000000000 7)
         1730700000000000000 7) ''R2''
       = None"
    by blast
  from h1 h2 o a b c f 1 2 3 [unfolded e] 4 5 show ?thesis by blast
qed

section \<open>A whole run\<close>

lemma syncRoles_no_panic: "fst (syncRoles F lib search ts d) \<noteq> Some Panicked"
proof (cases search)
  case (Inl err)
  then show ?thesis by (simp add: syncRoles_def)
next
  case (Inr es)
  obtain log d' where run: "syncRoles F lib (Inr es) ts d = (log, d')"
    by (cases "syncRoles F lib (Inr es) ts d")
  with syncRoles_result [OF run] Inr show ?thesis by auto
qed

lemma syncResources_no_panic: "fst (syncResources F lib search ts d) \<noteq> Some Panicked"
proof (cases search)
  case (Inl err)
  then show ?thesis by (simp add: syncResources_def)
next
  case (Inr es)
  obtain log d' where run: "syncResources F lib (Inr es) ts d = (log, d')"
    by (cases "syncResources F lib (Inr es) ts d")
  with syncResources_result [OF run] Inr show ?thesis by auto
qed

lemma syncAssociations_no_panic: "fst (syncAssociations F lib search ts d) \<noteq> Some Panicked"
proof (cases search)
  case (Inl err)
  then show ?thesis by (simp add: syncAssociations_def)
next
  case (Inr es)
  obtain log d' where run: "syncAssociations F lib (Inr es) ts d = (log, d')"
    by (cases "syncAssociations F lib (Inr es) ts d")
  with syncAssociations_result [OF run] Inr show ?thesis by auto
qed

lemma run_eq:
  "run F lib loc ldap ts days d =
     markAndPurge F loc
       (snd (syncAssociations F lib (associations_search ldap) ts
          (snd (syncResources F lib (resources_search ldap) ts
             (snd (syncRoles F lib (roles_search ldap) ts d))))))
       ts days"
  using syncRoles_no_panic [of F lib "roles_search ldap" ts d]
    syncResources_no_panic [of F lib "resources_search ldap" ts
      "snd (syncRoles F lib (roles_search ldap) ts d)"]
    syncAssociations_no_panic [of F lib "associations_search ldap" ts
      "snd (syncResources F lib (resources_search ldap) ts
             (snd (syncRoles F lib (roles_search ldap) ts d)))"]
  by (simp add: run_def split_beta Let_def)

lemma syncRoles_frame:
  "viz_resources (snd (syncRoles F lib search ts d)) = viz_resources d"
  "viz_roles_resources (snd (syncRoles F lib search ts d)) = viz_roles_resources d"
proof -
  have "viz_resources (snd (syncRoles F lib search ts d)) = viz_resources d
      \<and> viz_roles_resources (snd (syncRoles F lib search ts d)) = viz_roles_resources d"
  proof (cases search)
    case (Inl err)
    then show ?thesis by (simp add: syncRoles_def)
  next
    case (Inr es)
    obtain log d' where run: "syncRoles F lib (Inr es) ts d = (log, d')"
      by (cases "syncRoles F lib (Inr es) ts d")
    from syncRoles_result [OF run] show ?thesis
    proof
      assume "log \<noteq> None \<and> log \<noteq> Some Panicked \<and> d' = d"
      with run Inr show ?thesis by simp
    next
      assume "log = None \<and> \<not> F (Begin Roles) \<and> \<not> F (Prepare Roles) \<and> \<not> F DeleteParents
        \<and> \<not> F PrepareParents
        \<and> (\<exists>w1. syncRoles_phase1 F lib (Format_RFC3339 ts) 0 es d = Inr w1
              \<and> inserts_ok F es \<and> foreign_keys_ok es w1
              \<and> d' = (if F (Commit Roles) then d else w1\<lparr>viz_roles_parents := parent_pairs es\<rparr>))"
      then obtain w1 where w1: "syncRoles_phase1 F lib (Format_RFC3339 ts) 0 es d = Inr w1"
        and d': "d' = (if F (Commit Roles) then d else w1\<lparr>viz_roles_parents := parent_pairs es\<rparr>)"
        by blast
      from syncRoles_phase1_frame [OF w1] d' run Inr show ?thesis by simp
    qed
  qed
  then show "viz_resources (snd (syncRoles F lib search ts d)) = viz_resources d"
    and "viz_roles_resources (snd (syncRoles F lib search ts d)) = viz_roles_resources d"
    by simp_all
qed

lemma syncResources_frame:
  "viz_roles (snd (syncResources F lib search ts d)) = viz_roles d"
  "viz_roles_parents (snd (syncResources F lib search ts d)) = viz_roles_parents d"
  "viz_roles_resources (snd (syncResources F lib search ts d)) = viz_roles_resources d"
proof -
  have "viz_roles (snd (syncResources F lib search ts d)) = viz_roles d
      \<and> viz_roles_parents (snd (syncResources F lib search ts d)) = viz_roles_parents d
      \<and> viz_roles_resources (snd (syncResources F lib search ts d)) = viz_roles_resources d"
  proof (cases search)
    case (Inl err)
    then show ?thesis by (simp add: syncResources_def)
  next
    case (Inr es)
    obtain log d' where run: "syncResources F lib (Inr es) ts d = (log, d')"
      by (cases "syncResources F lib (Inr es) ts d")
    from syncResources_result [OF run] show ?thesis
    proof
      assume "log \<noteq> None \<and> log \<noteq> Some Panicked \<and> d' = d"
      with run Inr show ?thesis by simp
    next
      assume "log = None \<and> \<not> F (Begin Resources) \<and> \<not> F (Prepare Resources)
        \<and> (\<exists>w. syncResources_loop F lib (Format_RFC3339 ts) 0 es d = Inr w
              \<and> d' = (if F (Commit Resources) then d else w))"
      then obtain w where w: "syncResources_loop F lib (Format_RFC3339 ts) 0 es d = Inr w"
        and d': "d' = (if F (Commit Resources) then d else w)"
        by blast
      from syncResources_loop_rows [OF w] d' run Inr show ?thesis by simp
    qed
  qed
  then show "viz_roles (snd (syncResources F lib search ts d)) = viz_roles d"
    and "viz_roles_parents (snd (syncResources F lib search ts d)) = viz_roles_parents d"
    and "viz_roles_resources (snd (syncResources F lib search ts d)) = viz_roles_resources d"
    by simp_all
qed

lemma syncAssociations_frame:
  "viz_roles (snd (syncAssociations F lib search ts d)) = viz_roles d"
  "viz_roles_parents (snd (syncAssociations F lib search ts d)) = viz_roles_parents d"
  "viz_resources (snd (syncAssociations F lib search ts d)) = viz_resources d"
proof -
  have "viz_roles (snd (syncAssociations F lib search ts d)) = viz_roles d
      \<and> viz_roles_parents (snd (syncAssociations F lib search ts d)) = viz_roles_parents d
      \<and> viz_resources (snd (syncAssociations F lib search ts d)) = viz_resources d"
  proof (cases search)
    case (Inl err)
    then show ?thesis by (simp add: syncAssociations_def)
  next
    case (Inr es)
    obtain log d' where run: "syncAssociations F lib (Inr es) ts d = (log, d')"
      by (cases "syncAssociations F lib (Inr es) ts d")
    from syncAssociations_result [OF run] show ?thesis
    proof
      assume "log \<noteq> None \<and> log \<noteq> Some Panicked \<and> d' = d"
      with run Inr show ?thesis by simp
    next
      assume "log = None \<and> \<not> F (Begin Associations) \<and> \<not> F (Prepare Associations)
        \<and> (\<exists>w. syncAssociations_loop F lib (Format_RFC3339 ts) 0 es d = Inr w
              \<and> d' = (if F (Commit Associations) then d else w))"
      then obtain w where w: "syncAssociations_loop F lib (Format_RFC3339 ts) 0 es d = Inr w"
        and d': "d' = (if F (Commit Associations) then d else w)"
        by blast
      from syncAssociations_loop_rows [OF w] d' run Inr show ?thesis by simp
    qed
  qed
  then show "viz_roles (snd (syncAssociations F lib search ts d)) = viz_roles d"
    and "viz_roles_parents (snd (syncAssociations F lib search ts d)) = viz_roles_parents d"
    and "viz_resources (snd (syncAssociations F lib search ts d)) = viz_resources d"
    by simp_all
qed

lemma purge_rows_Some: "purge_rows p rows dn = Some r \<Longrightarrow> rows dn = Some r"
  by (cases "rows dn") (auto simp: purge_rows_def split: if_splits)

lemma mark_rows_Some:
  "mark_rows t rows dn = Some r \<Longrightarrow> \<exists>r0. rows dn = Some r0 \<and> updated_at r = updated_at r0"
  by (cases "rows dn") (auto simp: mark_rows_def split: if_splits)

lemma markAndPurge_keeps_updated_at:
  "viz_roles (markAndPurge F loc d ts days) dn = Some r \<Longrightarrow>
     \<exists>r0. viz_roles d dn = Some r0 \<and> updated_at r = updated_at r0"
  "viz_resources (markAndPurge F loc d ts days) dn = Some s \<Longrightarrow>
     \<exists>s0. viz_resources d dn = Some s0 \<and> updated_at s = updated_at s0"
  "viz_roles_resources (markAndPurge F loc d ts days) dn = Some a \<Longrightarrow>
     \<exists>a0. viz_roles_resources d dn = Some a0 \<and> updated_at a = updated_at a0"
  by (auto simp: markAndPurge_def mark_tables purge_tables split: if_splits
      dest!: purge_rows_Some mark_rows_Some)

lemma roles_stamped:
  assumes "roles_search ldap = Inr rs"
    and "fst (syncRoles no_faults lib (Inr rs) ts d) = None"
    and "rows_older (Format_RFC3339 ts) (viz_roles d)"
  shows "stamped_iff_observed (Format_RFC3339 ts)
           (viz_roles (run no_faults lib loc ldap ts days d)) rs"
  unfolding stamped_iff_observed_def
proof (intro allI impI)
  fix dn r
  assume "viz_roles (run no_faults lib loc ldap ts days d) dn = Some r"
  then obtain r0 where r0: "viz_roles (snd (syncRoles no_faults lib (Inr rs) ts d)) dn = Some r0"
    and u: "updated_at r = updated_at r0"
    using assms(1)
    by (auto simp: run_eq syncResources_frame syncAssociations_frame
        dest!: markAndPurge_keeps_updated_at(1))
  show "updated_at r = Format_RFC3339 ts \<longleftrightarrow> dn \<in> DN ` set rs"
  proof (cases "dn \<in> DN ` set rs")
    case True
    from syncRoles_committed_row [OF assms(2) _ True] r0 u True show ?thesis
      by (auto simp: no_faults_def)
  next
    case False
    obtain log d' where run: "syncRoles no_faults lib (Inr rs) ts d = (log, d')"
      by (cases "syncRoles no_faults lib (Inr rs) ts d")
    have "viz_roles d' dn = viz_roles d dn"
      using syncRoles_result [OF run] False syncRoles_phase1_frame [of no_faults lib _ 0 rs d _ dn]
      by (auto split: if_splits)
    with r0 run have "viz_roles d dn = Some r0" by simp
    with assms(3) have "updated_at r0 < Format_RFC3339 ts"
      by (simp add: rows_older_def)
    with u False show ?thesis by simp
  qed
qed

lemma resources_stamped:
  assumes "resources_search ldap = Inr ss"
    and "rows_older (Format_RFC3339 ts) (viz_resources d)"
  shows "stamped_iff_observed (Format_RFC3339 ts)
           (viz_resources (run no_faults lib loc ldap ts days d)) ss"
  unfolding stamped_iff_observed_def
proof (intro allI impI)
  fix dn r
  define d1 where "d1 = snd (syncRoles no_faults lib (roles_search ldap) ts d)"
  have d1: "viz_resources d1 = viz_resources d"
    by (simp add: d1_def syncRoles_frame)
  assume "viz_resources (run no_faults lib loc ldap ts days d) dn = Some r"
  then obtain r0 where r0: "viz_resources (snd (syncResources no_faults lib (Inr ss) ts d1)) dn = Some r0"
    and u: "updated_at r = updated_at r0"
    using assms(1)
    by (auto simp: run_eq syncAssociations_frame d1_def
        dest!: markAndPurge_keeps_updated_at(2))
  obtain log d' where run: "syncResources no_faults lib (Inr ss) ts d1 = (log, d')"
    by (cases "syncResources no_faults lib (Inr ss) ts d1")
  obtain w where w: "syncResources_loop no_faults lib (Format_RFC3339 ts) 0 ss d1 = Inr w"
    using syncResources_loop_no_fault [of ss no_faults 0 lib "Format_RFC3339 ts" d1]
    by (auto simp: no_faults_def)
  with run have d': "d' = w"
    by (simp add: syncResources_def no_faults_def)
  show "updated_at r = Format_RFC3339 ts \<longleftrightarrow> dn \<in> DN ` set ss"
  proof (cases "dn \<in> DN ` set ss")
    case True
    with syncResources_loop_rows [OF w, of dn] r0 run d' u show ?thesis by auto
  next
    case False
    with syncResources_loop_rows [OF w, of dn] r0 run d' d1
    have "viz_resources d dn = Some r0" by simp
    with assms(2) have "updated_at r0 < Format_RFC3339 ts"
      by (simp add: rows_older_def)
    with u False show ?thesis by simp
  qed
qed

lemma associations_stamped:
  assumes "associations_search ldap = Inr as"
    and "rows_older (Format_RFC3339 ts) (viz_roles_resources d)"
  shows "stamped_iff_observed (Format_RFC3339 ts)
           (viz_roles_resources (run no_faults lib loc ldap ts days d)) as"
  unfolding stamped_iff_observed_def
proof (intro allI impI)
  fix dn r
  define d2 where "d2 = snd (syncResources no_faults lib (resources_search ldap) ts
      (snd (syncRoles no_faults lib (roles_search ldap) ts d)))"
  have d2: "viz_roles_resources d2 = viz_roles_resources d"
    by (simp add: d2_def syncRoles_frame syncResources_frame)
  assume "viz_roles_resources (run no_faults lib loc ldap ts days d) dn = Some r"
  then obtain r0 where
    r0: "viz_roles_resources (snd (syncAssociations no_faults lib (Inr as) ts d2)) dn = Some r0"
    and u: "updated_at r = updated_at r0"
    using assms(1)
    by (auto simp: run_eq d2_def dest!: markAndPurge_keeps_updated_at(3))
  obtain log d' where run: "syncAssociations no_faults lib (Inr as) ts d2 = (log, d')"
    by (cases "syncAssociations no_faults lib (Inr as) ts d2")
  obtain w where w: "syncAssociations_loop no_faults lib (Format_RFC3339 ts) 0 as d2 = Inr w"
    using syncAssociations_loop_no_fault [of as no_faults 0 lib "Format_RFC3339 ts" d2]
    by (auto simp: no_faults_def)
  with run have d': "d' = w"
    by (simp add: syncAssociations_def no_faults_def)
  show "updated_at r = Format_RFC3339 ts \<longleftrightarrow> dn \<in> DN ` set as"
  proof (cases "dn \<in> DN ` set as")
    case True
    with syncAssociations_loop_rows [OF w, of dn] r0 run d' u show ?thesis by auto
  next
    case False
    with syncAssociations_loop_rows [OF w, of dn] r0 run d' d2
    have "viz_roles_resources d dn = Some r0" by simp
    with assms(2) have "updated_at r0 < Format_RFC3339 ts"
      by (simp add: rows_older_def)
    with u False show ?thesis by simp
  qed
qed

text \<open>
  C1 (as amended). Take a run in which no statement fails for a reason of the store's
  own. The watermark is the run's timestamp as the program formats it, to the whole
  second; that is the value the upsert writes. For each of the three tables: if its
  search returned entries, its rows before the run were all older than the watermark
  and (for the roles) the synchronizer committed, that is, no parent reference was
  refused, then after the run a row of the table has the watermark as \<open>updated_at\<close>
  if and only if its \<open>dn\<close> is among the entries of the run.
\<close>

theorem committed_run_stamps_observed:
  "(roles_search ldap = Inr rs
      \<and> fst (syncRoles no_faults lib (Inr rs) ts d) = None
      \<and> rows_older (Format_RFC3339 ts) (viz_roles d) \<longrightarrow>
    stamped_iff_observed (Format_RFC3339 ts) (viz_roles (run no_faults lib loc ldap ts days d)) rs)
   \<and> (resources_search ldap = Inr ss
      \<and> rows_older (Format_RFC3339 ts) (viz_resources d) \<longrightarrow>
    stamped_iff_observed (Format_RFC3339 ts)
      (viz_resources (run no_faults lib loc ldap ts days d)) ss)
   \<and> (associations_search ldap = Inr as
      \<and> rows_older (Format_RFC3339 ts) (viz_roles_resources d) \<longrightarrow>
    stamped_iff_observed (Format_RFC3339 ts)
      (viz_roles_resources (run no_faults lib loc ldap ts days d)) as)"
  using roles_stamped [of ldap rs lib ts d loc days]
    resources_stamped [of ldap ss ts d lib loc days]
    associations_stamped [of ldap as ts d lib loc days]
  by blast

lemma old_db_older:
  "rows_older (Format_RFC3339 5000000000) (viz_roles old_db)"
  "rows_older (Format_RFC3339 5000000000) (viz_resources old_db)"
  "rows_older (Format_RFC3339 5000000000) (viz_roles_resources old_db)"
  by (auto simp: rows_older_def old_db_def Format_RFC3339_def sample_role_def
      sample_resource_def sample_association_def split: if_splits)

theorem committed_run_stamps_observed_witness:
  "roles_search sample_searches = Inr two_roles
   \<and> resources_search sample_searches = Inr two_roles
   \<and> associations_search sample_searches = Inr two_roles
   \<and> fst (syncRoles no_faults sample_codec (Inr two_roles) 5000000000 old_db) = None
   \<and> rows_older (Format_RFC3339 5000000000) (viz_roles old_db)
   \<and> rows_older (Format_RFC3339 5000000000) (viz_resources old_db)
   \<and> rows_older (Format_RFC3339 5000000000) (viz_roles_resources old_db)
   \<and> stamped_iff_observed (Format_RFC3339 5000000000)
       (viz_roles (run no_faults sample_codec UTC sample_searches 5000000000 7 old_db)) two_roles
   \<and> stamped_iff_observed (Format_RFC3339 5000000000)
       (viz_resources (run no_faults sample_codec UTC sample_searches 5000000000 7 old_db)) two_roles
   \<and> stamped_iff_observed (Format_RFC3339 5000000000)
       (viz_roles_resources (run no_faults sample_codec UTC sample_searches 5000000000 7 old_db))
       two_roles"
proof -
  have h: "roles_search sample_searches = Inr two_roles"
    "resources_search sample_searches = Inr two_roles"
    "associations_search sample_searches = Inr two_roles"
    by (simp_all add: sample_searches_def)
  from committed_run_stamps_observed [where ldap = sample_searches and rs = two_roles
      and lib = sample_codec and ts = 5000000000 and d = old_db and loc = UTC and days = 7
      and ss = two_roles and as = two_roles] h old_db_runs(1) old_db_older
  show ?thesis by blast
qed

lemma orphan_run:
  "viz_roles (run no_faults sample_codec UTC orphan_searches 5000000000 7 old_db) ''R1''
     = Some (sample_role 1000000000 2000000000 True)"
proof -
  have 1: "snd (syncRoles no_faults sample_codec (Inr [orphan_entry]) 5000000000 old_db) = old_db"
    by (simp add: syncRoles_def no_faults_def syncRoles_phase1_Cons role_entry_upsert_def
      delete_viz_roles_parents_def insert_viz_roles_parents_def old_db_def orphan_entry_def
      GetAttributeValues_def)
  have 2: "snd (syncResources no_faults sample_codec (Inr []) 5000000000 old_db) = old_db"
    "snd (syncAssociations no_faults sample_codec (Inr []) 5000000000 old_db) = old_db"
    by (simp_all add: syncResources_def syncAssociations_def no_faults_def)
  show ?thesis
    by (simp add: run_eq orphan_searches_def 1 2 markAndPurge_roles)
       (simp add: old_db_def sample_role_def Format_RFC3339_def AddDate_days_UTC)
qed

text \<open>
  C1 as stated fails: the role \<open>R1\<close> is a row of an earlier run, the directory returns
  it with a parent reference to a role that is nowhere, the role synchronizer rolls
  back, and after the run the row is there, observed, with its old \<open>updated_at\<close>.
\<close>

theorem rolled_back_role_keeps_old_stamp:
  "roles_search orphan_searches = Inr [orphan_entry]
   \<and> DN orphan_entry = ''R1''
   \<and> Format_RFC3339 5000000000 = 5000000000
   \<and> viz_roles (run no_faults sample_codec UTC orphan_searches 5000000000 7 old_db) ''R1''
       = Some (sample_role 1000000000 2000000000 True)
   \<and> updated_at (sample_role 1000000000 2000000000 True) = 2000000000
   \<and> \<not> stamped_iff_observed (Format_RFC3339 5000000000)
         (viz_roles (run no_faults sample_codec UTC orphan_searches 5000000000 7 old_db))
         [orphan_entry]"
proof -
  have "\<not> stamped_iff_observed (Format_RFC3339 5000000000)
         (viz_roles (run no_faults sample_codec UTC orphan_searches 5000000000 7 old_db))
         [orphan_entry]"
  proof
    assume "stamped_iff_observed (Format_RFC3339 5000000000)
         (viz_roles (run no_faults sample_codec UTC orphan_searches 5000000000 7 old_db))
         [orphan_entry]"
    with orphan_run
    have "updated_at (sample_role 1000000000 2000000000 True) = Format_RFC3339 5000000000
        \<longleftrightarrow> ''R1'' \<in> DN ` set [orphan_entry]"
      unfolding stamped_iff_observed_def by blast
    then show False
      by (simp add: sample_role_def Format_RFC3339_def orphan_entry_def)
  qed
  with orphan_run show ?thesis
    by (simp add: orphan_searches_def orphan_entry_def Format_RFC3339_def sample_role_def)
qed

section \<open>The three replacements are one substitution\<close>



lemma ReplaceAll_skip:
  "old \<noteq> [] \<Longrightarrow> hd old \<notin> set w \<Longrightarrow>
     strings_ReplaceAll (w @ t) old new = w @ strings_ReplaceAll t old new"
proof (induction w)
  case Nil
  show ?case by simp
next
  case (Cons a w)
  from Cons.prems have "take (length old) ((a # w) @ t) \<noteq> old"
    by (cases old) auto
  with Cons show ?case by simp
qed









section \<open>The dynamic-parameter decoder meets its description\<close>



subsection \<open>What the XML decoder has done to the value before the substitution\<close>








subsection \<open>The sample parameters\<close>









end
